(* ===== verification/CString_Prelude.thy ===== *)
theory CString_Prelude
  imports Main "HOL-Library.Word" "HOL-Library.Char_ord" "HOL-Library.List_Lexorder"
begin

text \<open>
  Shared vocabulary of the development: the part of the C standard library that ucisdk
  calls on strings, as executable functions on character lists, with the generic lemmas
  the component theories use.

  A C string is the list of the bytes before its terminating NUL. A \<^verbatim>\<open>char buf[N]\<close>
  that holds a C string is such a list of length below \<open>N\<close>. Nothing here models a
  function of ucisdk itself; every definition below states the documented behaviour of a
  library function (C locale), at the generality the code needs.
\<close>

named_theorems cstr "facts on the string library that rewrite towards list functions"
named_theorems cstr_len "length bounds of string library results"

type_synonym cstring = string

subsection \<open>Character classes\<close>

definition is_space :: "char \<Rightarrow> bool" where
  "is_space c \<longleftrightarrow> (let n = of_char c :: nat in n = 32 \<or> 9 \<le> n \<and> n \<le> 13)"

definition to_lower :: "char \<Rightarrow> char" where
  "to_lower c = (let n = of_char c :: nat in if 65 \<le> n \<and> n \<le> 90 then char_of (n + 32) else c)"

definition is_digit :: "char \<Rightarrow> bool" where
  "is_digit c \<longleftrightarrow> (let n = of_char c :: nat in 48 \<le> n \<and> n \<le> 57)"

definition digit_val :: "char \<Rightarrow> nat" where
  "digit_val c = of_char c - 48"

lemma of_char_to_lower:
  "of_char (to_lower c) = (let n = of_char c :: nat in if 65 \<le> n \<and> n \<le> 90 then n + 32 else n)"
  by (auto simp: to_lower_def Let_def take_bit_eq_mod)

lemma is_space_to_lower [simp]: "is_space (to_lower c) = is_space c"
  by (auto simp: is_space_def of_char_to_lower Let_def)

lemma to_lower_idem [simp]: "to_lower (to_lower c) = to_lower c"
  using of_char_to_lower [of c] by (auto simp: to_lower_def [of "to_lower c"] Let_def)

lemma to_lower_NUL [simp]: "to_lower c = CHR 0x00 \<longleftrightarrow> c = CHR 0x00"
proof -
  have "of_char (to_lower c) = (0::nat) \<longleftrightarrow> of_char c = (0::nat)"
    by (simp add: of_char_to_lower Let_def)
  then show ?thesis using of_char_eq_iff [of _ "CHR 0x00", where 'a = nat] by simp
qed

lemma NUL_to_lower [simp]: "CHR 0x00 = to_lower c \<longleftrightarrow> c = CHR 0x00"
  using to_lower_NUL [of c] by (metis (full_types))

text \<open>No NUL inside: what makes a character list a C string.\<close>

definition no_nul :: "string \<Rightarrow> bool" where
  "no_nul s \<longleftrightarrow> CHR 0x00 \<notin> set s"

lemma no_nul_Nil [simp]: "no_nul []"
  by (simp add: no_nul_def)

lemma no_nul_Cons [simp]: "no_nul (c # s) \<longleftrightarrow> c \<noteq> CHR 0x00 \<and> no_nul s"
  by (auto simp: no_nul_def)

lemma no_nul_append [simp]: "no_nul (s @ t) \<longleftrightarrow> no_nul s \<and> no_nul t"
  by (auto simp: no_nul_def)

lemma no_nul_take [simp]: "no_nul s \<Longrightarrow> no_nul (take n s)"
  by (auto simp: no_nul_def dest: in_set_takeD)

lemma no_nul_drop [simp]: "no_nul s \<Longrightarrow> no_nul (drop n s)"
  by (auto simp: no_nul_def dest: in_set_dropD)

lemma no_nul_takeWhile [simp]: "no_nul s \<Longrightarrow> no_nul (takeWhile p s)"
  by (auto simp: no_nul_def dest: set_takeWhileD)

lemma no_nul_dropWhile [simp]: "no_nul s \<Longrightarrow> no_nul (dropWhile p s)"
  by (auto simp: no_nul_def dest: set_dropWhileD)

text \<open>The C string held by a byte buffer: the bytes before the first NUL.\<close>

definition c_string :: "string \<Rightarrow> cstring" where
  "c_string bs = takeWhile (\<lambda>c. c \<noteq> CHR 0x00) bs"

lemma no_nul_c_string [simp]: "no_nul (c_string bs)"
  by (auto simp: no_nul_def c_string_def dest: set_takeWhileD)

lemma c_string_id [simp]: "no_nul s \<Longrightarrow> c_string s = s"
  unfolding no_nul_def c_string_def by (subst takeWhile_eq_all_conv) auto

subsection \<open>Comparison\<close>

text \<open>\<^verbatim>\<open>strcmp\<close>; the standard fixes only the sign of the result.\<close>

fun strcmp :: "cstring \<Rightarrow> cstring \<Rightarrow> int" where
  "strcmp [] [] = 0"
| "strcmp [] (d # ds) = - 1"
| "strcmp (c # cs) [] = 1"
| "strcmp (c # cs) (d # ds) =
     (if c = d then strcmp cs ds else if c < d then - 1 else 1)"

lemma strcmp_eq_0 [simp]: "strcmp s t = 0 \<longleftrightarrow> s = t"
  by (induction s t rule: strcmp.induct) auto

lemma strcmp_neg [simp]: "strcmp s t < 0 \<longleftrightarrow> s < t"
  by (induction s t rule: strcmp.induct) auto

declare strcmp.simps [simp del]

text \<open>\<^verbatim>\<open>strncmp(s, p, strlen(p)) == 0\<close>.\<close>

definition starts_with_str :: "cstring \<Rightarrow> cstring \<Rightarrow> bool" where
  "starts_with_str s p \<longleftrightarrow> take (length p) s = p"

lemma starts_with_str_append [simp]: "starts_with_str (p @ s) p"
  by (simp add: starts_with_str_def)

lemma starts_with_str_iff: "starts_with_str s p \<longleftrightarrow> (\<exists>t. s = p @ t)"
  by (metis append_take_drop_id starts_with_str_append starts_with_str_def)

subsection \<open>Copying into a fixed buffer\<close>

text \<open>
  The string a buffer of \<open>sz > 0\<close> bytes holds after
  \<^verbatim>\<open>snprintf(dst, sz, "%s", s)\<close>: at most \<open>sz - 1\<close> bytes and the NUL.
\<close>

definition snprintf_s :: "nat \<Rightarrow> cstring \<Rightarrow> cstring" where
  "snprintf_s sz s = take (sz - 1) s"

lemma length_snprintf_s [cstr_len]: "0 < sz \<Longrightarrow> length (snprintf_s sz s) < sz"
  by (simp add: snprintf_s_def)

lemma snprintf_s_fits [simp]: "length s < sz \<Longrightarrow> snprintf_s sz s = s"
  by (simp add: snprintf_s_def)

lemma no_nul_snprintf_s [simp]: "no_nul s \<Longrightarrow> no_nul (snprintf_s sz s)"
  by (simp add: snprintf_s_def)

lemma snprintf_s_Nil [simp]: "snprintf_s sz [] = []"
  by (simp add: snprintf_s_def)

lemma snprintf_s_idem [simp]: "snprintf_s sz (snprintf_s sz s) = snprintf_s sz s"
  by (simp add: snprintf_s_def min_def)

text \<open>\<^verbatim>\<open>strncat(dst, src, n)\<close>.\<close>

definition strncat :: "cstring \<Rightarrow> cstring \<Rightarrow> nat \<Rightarrow> cstring" where
  "strncat dst src n = dst @ take n src"

text \<open>
  The idiom \<^verbatim>\<open>n = snprintf(buf + pos, sz - pos, ...); if (n >= sz - pos) return -1;
  pos += n\<close>: a bounded writer whose state is the text written so far.
\<close>

definition emit :: "nat \<Rightarrow> cstring \<Rightarrow> cstring \<Rightarrow> cstring option" where
  "emit sz buf s = (if sz - length buf \<le> length s then None else Some (buf @ s))"

lemma emit_eq: "emit sz buf s = (if length (buf @ s) < sz then Some (buf @ s) else None)"
  by (auto simp: emit_def)

text \<open>
  Pieces written one after the other succeed exactly when the whole fits: the incremental
  writer is one write of the concatenation.
\<close>

lemma emit_bind_emit:
  "Option.bind (emit sz buf s) (\<lambda>b. emit sz b t) = emit sz buf (s @ t)"
  by (auto simp: emit_eq)

lemma emit_bind:
  assumes "\<And>b. f b = emit sz b t"
  shows "Option.bind (emit sz buf s) f = emit sz buf (s @ t)"
  using assms by (auto simp: emit_eq)

lemma emit_Nil: "length buf < sz \<Longrightarrow> emit sz buf [] = Some buf"
  by (simp add: emit_def)

subsection \<open>Searching\<close>

text \<open>\<^verbatim>\<open>strchr(s, c)\<close>: the suffix that starts at the first \<open>c\<close> (\<open>c\<close> not NUL).\<close>

definition strchr :: "cstring \<Rightarrow> char \<Rightarrow> cstring option" where
  "strchr s c = (case dropWhile (\<lambda>d. d \<noteq> c) s of [] \<Rightarrow> None | t \<Rightarrow> Some t)"

lemma strchr_append [simp]: "c \<notin> set s \<Longrightarrow> strchr (s @ c # t) c = Some (c # t)"
  by (induction s) (auto simp: strchr_def)

lemma strchr_Cons [simp]: "strchr (c # t) c = Some (c # t)"
  by (simp add: strchr_def)

lemma strchr_None_iff: "strchr s c = None \<longleftrightarrow> c \<notin> set s"
  by (induction s) (auto simp: strchr_def)

lemma strchr_Some_iff:
  "strchr s c = Some t \<longleftrightarrow> (\<exists>u r. s = u @ c # r \<and> c \<notin> set u \<and> t = c # r)"
proof
  assume "strchr s c = Some t"
  then show "\<exists>u r. s = u @ c # r \<and> c \<notin> set u \<and> t = c # r"
  proof (induction s)
    case Nil
    then show ?case by (simp add: strchr_def)
  next
    case (Cons d s)
    show ?case
    proof (cases "d = c")
      case True
      with Cons.prems have "d # s = [] @ c # s \<and> c \<notin> set [] \<and> t = c # s"
        by (simp add: strchr_def)
      then show ?thesis by blast
    next
      case False
      with Cons.prems have "strchr s c = Some t" by (simp add: strchr_def)
      from Cons.IH [OF this] obtain u r where "s = u @ c # r" "c \<notin> set u" "t = c # r"
        by blast
      with False have "d # s = (d # u) @ c # r \<and> c \<notin> set (d # u) \<and> t = c # r" by simp
      then show ?thesis by blast
    qed
  qed
next
  assume "\<exists>u r. s = u @ c # r \<and> c \<notin> set u \<and> t = c # r"
  then show "strchr s c = Some t" by auto
qed

text \<open>\<^verbatim>\<open>strstr(s, p)\<close>: the suffix that starts at the first occurrence of \<open>p\<close>.\<close>

fun strstr :: "cstring \<Rightarrow> cstring \<Rightarrow> cstring option" where
  "strstr [] p = (if p = [] then Some [] else None)"
| "strstr (c # s) p =
     (if starts_with_str (c # s) p then Some (c # s) else strstr s p)"

lemma strstr_suffix: "strstr s p = Some t \<Longrightarrow> \<exists>u r. s = u @ t \<and> t = p @ r"
proof (induction s)
  case Nil
  then show ?case by (auto split: if_splits)
next
  case (Cons c s)
  show ?case
  proof (cases "starts_with_str (c # s) p")
    case True
    with Cons.prems have "t = c # s" by simp
    moreover obtain r where "c # s = p @ r" using True by (auto simp: starts_with_str_iff)
    ultimately have "c # s = [] @ t \<and> t = p @ r" by simp
    then show ?thesis by blast
  next
    case False
    with Cons obtain u r where "s = u @ t" "t = p @ r" by auto
    then have "c # s = (c # u) @ t \<and> t = p @ r" by simp
    then show ?thesis by blast
  qed
qed

lemma strstr_here: "starts_with_str s p \<Longrightarrow> strstr s p = Some s"
  by (cases s) (auto simp: starts_with_str_def)

lemma strstr_prefix [simp]: "strstr (p @ s) p = Some (p @ s)"
  by (simp add: strstr_here)

subsection \<open>Tokens\<close>

text \<open>
  One call of \<^verbatim>\<open>strtok_r\<close> with the delimiter \<open>d\<close> on the saved rest: leading
  delimiters are skipped; the token runs to the next delimiter, which is consumed.
\<close>

definition strtok :: "char \<Rightarrow> cstring \<Rightarrow> (cstring \<times> cstring) option" where
  "strtok d s =
     (let s' = dropWhile (\<lambda>c. c = d) s
      in if s' = [] then None
         else Some (takeWhile (\<lambda>c. c \<noteq> d) s', drop 1 (dropWhile (\<lambda>c. c \<noteq> d) s')))"

lemma strtok_shorter: "strtok d s = Some (tok, rest) \<Longrightarrow> length rest < length s"
proof -
  assume a: "strtok d s = Some (tok, rest)"
  let ?s = "dropWhile (\<lambda>c. c = d) s"
  from a have ne: "?s \<noteq> []" and r: "rest = drop 1 (dropWhile (\<lambda>c. c \<noteq> d) ?s)"
    by (auto simp: strtok_def Let_def split: if_splits)
  have "length (dropWhile (\<lambda>c. c \<noteq> d) ?s) \<le> length ?s" by (rule length_dropWhile_le)
  moreover have "length ?s \<le> length s" by (rule length_dropWhile_le)
  ultimately show ?thesis using ne r by (cases ?s) (auto simp: Suc_le_eq)
qed

lemma strtok_token:
  assumes "strtok d s = Some (tok, rest)"
  shows "tok \<noteq> []" "d \<notin> set tok" "set tok \<subseteq> set s" "set rest \<subseteq> set s"
proof -
  let ?s = "dropWhile (\<lambda>c. c = d) s"
  from assms have ne: "?s \<noteq> []" and t: "tok = takeWhile (\<lambda>c. c \<noteq> d) ?s"
    and r: "rest = drop 1 (dropWhile (\<lambda>c. c \<noteq> d) ?s)"
    by (auto simp: strtok_def Let_def split: if_splits)
  have hd: "hd ?s \<noteq> d" using hd_dropWhile [OF ne] by simp
  show "tok \<noteq> []" using ne hd t by (cases ?s) auto
  show "d \<notin> set tok" using t by (auto dest: set_takeWhileD)
  have sub: "set ?s \<subseteq> set s" by (auto dest: set_dropWhileD)
  show "set tok \<subseteq> set s" using sub t by (auto dest: set_takeWhileD)
  show "set rest \<subseteq> set s"
    using sub r by (auto dest!: in_set_dropD set_dropWhileD)
qed

lemma strtok_None_iff: "strtok d s = None \<longleftrightarrow> set s \<subseteq> {d}"
  by (auto simp: strtok_def Let_def)

lemma strtok_no_nul:
  assumes "strtok d s = Some (tok, rest)" and "no_nul s"
  shows "no_nul tok \<and> no_nul rest"
  using strtok_token(3,4) [OF assms(1)] assms(2) by (auto simp: no_nul_def)

text \<open>A token that starts the rest, and the tokens after the delimiter.\<close>

lemma dropWhile_neq_all [simp]: "d \<notin> set s \<Longrightarrow> dropWhile (\<lambda>c. c \<noteq> d) s = []"
  by auto

lemma takeWhile_neq_all [simp]: "d \<notin> set s \<Longrightarrow> takeWhile (\<lambda>c. c \<noteq> d) s = s"
  by (subst takeWhile_eq_all_conv) auto

lemma dropWhile_neq_stop [simp]: "d \<notin> set s \<Longrightarrow> dropWhile (\<lambda>c. c \<noteq> d) (s @ d # t) = d # t"
  by (induction s) auto

lemma takeWhile_neq_stop [simp]: "d \<notin> set s \<Longrightarrow> takeWhile (\<lambda>c. c \<noteq> d) (s @ d # t) = s"
  by (induction s) auto

lemma strtok_plain:
  "tok \<noteq> [] \<Longrightarrow> d \<notin> set tok \<Longrightarrow> strtok d (tok @ d # rest) = Some (tok, rest)"
  by (cases tok)
    (auto simp: strtok_def Let_def)

lemma strtok_last:
  "tok \<noteq> [] \<Longrightarrow> d \<notin> set tok \<Longrightarrow> strtok d tok = Some (tok, [])"
  by (cases tok) (auto simp: strtok_def Let_def)

subsection \<open>Numbers as text\<close>

text \<open>\<^verbatim>\<open>%u\<close> and \<^verbatim>\<open>%lu\<close>.\<close>

fun dec_nat :: "nat \<Rightarrow> cstring" where
  "dec_nat n = (if n < 10 then [char_of (48 + n)] else dec_nat (n div 10) @ [char_of (48 + n mod 10)])"

declare dec_nat.simps [simp del]

text \<open>\<^verbatim>\<open>%d\<close>.\<close>

definition dec_int :: "int \<Rightarrow> cstring" where
  "dec_int i = (if i < 0 then CHR ''-'' # dec_nat (nat (- i)) else dec_nat (nat i))"

text \<open>One lower-case hexadecimal digit, and \<^verbatim>\<open>%0kx\<close> for a value below \<open>16^k\<close>.\<close>

definition hex_char :: "nat \<Rightarrow> char" where
  "hex_char n = (if n < 10 then char_of (48 + n) else char_of (87 + n))"

fun hex_fixed :: "nat \<Rightarrow> nat \<Rightarrow> cstring" where
  "hex_fixed 0 n = []"
| "hex_fixed (Suc k) n = hex_fixed k (n div 16) @ [hex_char (n mod 16)]"

lemma length_hex_fixed [simp]: "length (hex_fixed k n) = k"
  by (induction k arbitrary: n) auto

text \<open>The value of a run of decimal digits, read from the left.\<close>

definition nat_of_digits :: "cstring \<Rightarrow> nat" where
  "nat_of_digits ds = foldl (\<lambda>n c. 10 * n + digit_val c) 0 ds"

lemma is_digit_char_of_all: "\<forall>n \<in> set [0..<10]. is_digit (char_of (48 + n)) \<and> digit_val (char_of (48 + n)) = n"
  by code_simp

lemma is_digit_char_of: "n < 10 \<Longrightarrow> is_digit (char_of (48 + n)) \<and> digit_val (char_of (48 + n)) = n"
  using is_digit_char_of_all by auto

lemma dec_nat_digits: "list_all is_digit (dec_nat n)"
proof (induction n rule: dec_nat.induct)
  case (1 n)
  then show ?case
    using is_digit_char_of [of "n mod 10"] is_digit_char_of [of n]
    by (subst dec_nat.simps) auto
qed

lemma nat_of_digits_dec_nat [simp]: "nat_of_digits (dec_nat n) = n"
proof (induction n rule: dec_nat.induct)
  case (1 n)
  then show ?case
    using is_digit_char_of [of "n mod 10"] is_digit_char_of [of n]
    by (subst dec_nat.simps) (auto simp: nat_of_digits_def)
qed

lemma dec_nat_nonempty [simp]: "dec_nat n \<noteq> []"
  by (subst dec_nat.simps) simp

text \<open>
  \<^verbatim>\<open>(int)strtol(s, NULL, 10)\<close>, which is what \<^verbatim>\<open>atoi\<close> computes on an LP64
  glibc: white space, a sign, digits; the 64-bit value saturates and is cut to 32 bits.
\<close>

definition clamp_long :: "int \<Rightarrow> int" where
  "clamp_long v = max (- (2 ^ 63)) (min (2 ^ 63 - 1) v)"

definition strtol10 :: "cstring \<Rightarrow> int" where
  "strtol10 s =
     (let t = dropWhile is_space s in
      case t of
        [] \<Rightarrow> 0
      | c # u \<Rightarrow>
          clamp_long
            (if c = CHR ''-'' then - int (nat_of_digits (takeWhile is_digit u))
             else if c = CHR ''+'' then int (nat_of_digits (takeWhile is_digit u))
             else int (nat_of_digits (takeWhile is_digit t))))"

definition atoi :: "cstring \<Rightarrow> int" where
  "atoi s = sint (word_of_int (strtol10 s) :: 32 word)"

lemma atoi_range: "- (2 ^ 31) \<le> atoi s \<and> atoi s < 2 ^ 31"
  using sint_greater_eq [of "word_of_int (strtol10 s) :: 32 word"]
    sint_less [of "word_of_int (strtol10 s) :: 32 word"]
  by (simp add: atoi_def)

lemma is_digit_not_special [simp]:
  "\<not> is_digit CHR '','' " "\<not> is_digit CHR ''|''" "\<not> is_digit CHR '':''" "\<not> is_digit CHR 0x0A"
  "\<not> is_digit CHR 0x0D" "\<not> is_digit CHR 0x00" "\<not> is_digit CHR ''-''" "\<not> is_digit CHR ''+''"
  by code_simp+

lemma is_digit_not_space: "is_digit c \<Longrightarrow> \<not> is_space c"
  by (auto simp: is_digit_def is_space_def Let_def)

lemma dec_nat_head: "\<exists>c s. dec_nat n = c # s \<and> is_digit c"
  using dec_nat_digits [of n] dec_nat_nonempty [of n] by (cases "dec_nat n") auto

lemma takeWhile_dec_nat [simp]: "takeWhile is_digit (dec_nat n) = dec_nat n"
  using dec_nat_digits [of n] by (subst takeWhile_eq_all_conv) (simp add: list_all_iff)

text \<open>\<^verbatim>\<open>atoi\<close> reads back what \<^verbatim>\<open>%d\<close> writes.\<close>

lemma strtol10_dec_int: "- (2 ^ 63) \<le> n \<Longrightarrow> n < 2 ^ 63 \<Longrightarrow> strtol10 (dec_int n) = n"
proof -
  assume r: "- (2 ^ 63) \<le> n" "n < 2 ^ 63"
  show ?thesis
  proof (cases "n < 0")
    case True
    have "\<not> is_space CHR ''-''" by code_simp
    with True r show ?thesis by (simp add: strtol10_def dec_int_def clamp_long_def)
  next
    case False
    obtain c s where c: "dec_nat (nat n) = c # s" "is_digit c" using dec_nat_head by blast
    then have ne: "c \<noteq> CHR ''-''" "c \<noteq> CHR ''+''" "\<not> is_space c"
      using is_digit_not_space by auto
    have "nat_of_digits (takeWhile is_digit (c # s)) = nat n"
      using takeWhile_dec_nat [of "nat n"] nat_of_digits_dec_nat [of "nat n"] unfolding c by simp
    then show ?thesis using False r c ne
      by (simp add: strtol10_def dec_int_def clamp_long_def)
  qed
qed

lemma atoi_dec_int: "- (2 ^ 31) \<le> n \<Longrightarrow> n < 2 ^ 31 \<Longrightarrow> atoi (dec_int n) = n"
proof -
  assume "- (2 ^ 31) \<le> n" "n < 2 ^ 31"
  then show ?thesis
    by (simp add: atoi_def strtol10_dec_int int_word_sint)
qed

lemma dec_int_chars: "c \<in> set (dec_int n) \<Longrightarrow> is_digit c \<or> c = CHR ''-''"
  using dec_nat_digits [of "nat n"] dec_nat_digits [of "nat (- n)"]
  by (auto simp: dec_int_def list_all_iff split: if_splits)

lemma dec_int_nonempty [simp]: "dec_int n \<noteq> []"
  by (simp add: dec_int_def)

lemma strtok_Nil [simp]: "strtok d [] = None"
  by (simp add: strtok_None_iff)

lemma length_dec_nat: "n < 10 ^ k \<Longrightarrow> 0 < k \<Longrightarrow> length (dec_nat n) \<le> k"
proof (induction k arbitrary: n)
  case (Suc k)
  show ?case
  proof (cases "n < 10")
    case True
    then show ?thesis by (simp add: dec_nat.simps [of n])
  next
    case False
    then have "n div 10 < 10 ^ k" "0 < k" using Suc.prems by (auto simp: less_mult_imp_div_less mult.commute intro: Suc_leI gr0I)
    with Suc.IH [of "n div 10"] False show ?thesis by (simp add: dec_nat.simps [of n])
  qed
qed simp

subsection \<open>Sums over a list\<close>

lemma sum_list_map_update:
  fixes f :: "'a \<Rightarrow> 'b :: comm_monoid_add"
  shows "i < length xs \<Longrightarrow> sum_list (map f (xs[i := x])) + f (xs ! i) = sum_list (map f xs) + f x"
proof (induction xs arbitrary: i)
  case (Cons y ys)
  show ?case
  proof (cases i)
    case (Suc n)
    with Cons have "f y + (sum_list (map f (ys[n := x])) + f (ys ! n)) = f y + (sum_list (map f ys) + f x)"
      by simp
    then show ?thesis using Suc by (simp add: ac_simps)
  qed (simp add: ac_simps)
qed simp

end
