(* ===== verification/Common_Types.thy ===== *)
theory Common_Types
  imports CString_Prelude
begin

text \<open>
  The data model of \<^verbatim>\<open>include/common.h\<close>: sizes, enumerations, the request and response
  records and the gateway settings, with the well-formedness of each (every text field is a
  C string that fits its array). A record field carries a prefix where C reuses a field name
  in several structs: \<open>req_\<close> for \<^verbatim>\<open>request_t\<close>, \<open>resp_\<close> for \<^verbatim>\<open>response_t\<close>, \<open>call_\<close>
  for \<^verbatim>\<open>backend_call_t\<close>.
\<close>

named_theorems wf_defs "definitions of the well-formedness predicates"

subsection \<open>Sizes\<close>

definition MAX_ID_LEN :: nat where "MAX_ID_LEN = 64"
definition MAX_FIELD_LEN :: nat where "MAX_FIELD_LEN = 256"
definition MAX_PAYLOAD_LEN :: nat where "MAX_PAYLOAD_LEN = 1024"
definition MAX_CAPS :: nat where "MAX_CAPS = 48"
definition MAX_DEVICES :: nat where "MAX_DEVICES = 32"
definition MAX_QUEUE_DEPTH :: nat where "MAX_QUEUE_DEPTH = 128"
definition MAX_RESPONSE_LEN :: nat where "MAX_RESPONSE_LEN = 2048"
definition DEFAULT_WORKERS :: nat where "DEFAULT_WORKERS = 4"
definition MAX_SEQUENCE_STEPS :: nat where "MAX_SEQUENCE_STEPS = 4"

lemmas size_defs = MAX_ID_LEN_def MAX_FIELD_LEN_def MAX_PAYLOAD_LEN_def MAX_CAPS_def
  MAX_DEVICES_def MAX_QUEUE_DEPTH_def MAX_RESPONSE_LEN_def DEFAULT_WORKERS_def
  MAX_SEQUENCE_STEPS_def

lemma sizes_positive [simp]:
  "0 < MAX_ID_LEN" "0 < MAX_FIELD_LEN" "0 < MAX_PAYLOAD_LEN" "0 < MAX_CAPS" "0 < MAX_DEVICES"
  "0 < MAX_QUEUE_DEPTH" "0 < MAX_RESPONSE_LEN"
  by (simp_all add: size_defs)

subsection \<open>Enumerations\<close>

datatype api_domain_t =
    DOMAIN_UNKNOWN | DOMAIN_AUTH | DOMAIN_DEVICE | DOMAIN_KEY | DOMAIN_ASYM | DOMAIN_SYM
  | DOMAIN_HASH | DOMAIN_FILE | DOMAIN_PQC

datatype api_action_t =
    ACTION_UNKNOWN | ACTION_CHECK_PIN | ACTION_GET_DEVICE_INFO | ACTION_GENERATE_RANDOM
  | ACTION_GET_PRIVATE_KEY_ACCESS | ACTION_RELEASE_PRIVATE_KEY_ACCESS
  | ACTION_GENERATE_KEY_PAIR | ACTION_EXPORT_PUBLIC_KEY | ACTION_IMPORT_KEY
  | ACTION_DESTROY_KEY | ACTION_SIGN | ACTION_VERIFY | ACTION_ENCRYPT | ACTION_DECRYPT
  | ACTION_MAC | ACTION_HASH | ACTION_CREATE_FILE | ACTION_READ_FILE | ACTION_WRITE_FILE
  | ACTION_DELETE_FILE | ACTION_KEM_ENCAP | ACTION_KEM_DECAP

datatype device_type_t = DEV_UNKNOWN | DEV_CLASSIC | DEV_PQC

datatype preference_t =
  PREF_BALANCED | PREF_SECURE | PREF_EFFICIENT | PREF_CLASSIC_FIRST | PREF_PQC_FIRST

datatype status_code_t =
    STATUS_OK | STATUS_BAD_REQUEST | STATUS_UNAUTHORIZED | STATUS_NOT_SUPPORTED
  | STATUS_BACKEND_FAIL | STATUS_NO_RESOURCE

fun status_value :: "status_code_t \<Rightarrow> int" where
  "status_value STATUS_OK = 0"
| "status_value STATUS_BAD_REQUEST = 400"
| "status_value STATUS_UNAUTHORIZED = 401"
| "status_value STATUS_NOT_SUPPORTED = 422"
| "status_value STATUS_BACKEND_FAIL = 502"
| "status_value STATUS_NO_RESOURCE = 503"

lemma status_value_inject [simp]: "status_value s = status_value t \<longleftrightarrow> s = t"
  by (cases s; cases t) simp_all

text \<open>
  The enumerations are finite; the class \<open>enum\<close> lets the library decide statements over
  all of their values.
\<close>

instantiation api_domain_t :: enum
begin

definition enum_api_domain_t :: "api_domain_t list" where
  "enum_api_domain_t =
     [DOMAIN_UNKNOWN, DOMAIN_AUTH, DOMAIN_DEVICE, DOMAIN_KEY, DOMAIN_ASYM, DOMAIN_SYM,
      DOMAIN_HASH, DOMAIN_FILE, DOMAIN_PQC]"

definition enum_all_api_domain_t :: "(api_domain_t \<Rightarrow> bool) \<Rightarrow> bool" where
  "enum_all_api_domain_t p = list_all p enum_class.enum"

definition enum_ex_api_domain_t :: "(api_domain_t \<Rightarrow> bool) \<Rightarrow> bool" where
  "enum_ex_api_domain_t p = list_ex p enum_class.enum"

instance
proof
  show UNIV: "(UNIV :: api_domain_t set) = set enum_class.enum"
    unfolding enum_api_domain_t_def by (auto intro: api_domain_t.exhaust)
  show "distinct (enum_class.enum :: api_domain_t list)"
    by (simp add: enum_api_domain_t_def)
  show "enum_class.enum_all p = Ball UNIV p" for p :: "api_domain_t \<Rightarrow> bool"
    using UNIV by (auto simp: enum_all_api_domain_t_def list_all_iff)
  show "enum_class.enum_ex p = Bex UNIV p" for p :: "api_domain_t \<Rightarrow> bool"
    using UNIV by (auto simp: enum_ex_api_domain_t_def list_ex_iff)
qed

end

instantiation api_action_t :: enum
begin

definition enum_api_action_t :: "api_action_t list" where
  "enum_api_action_t =
     [ACTION_UNKNOWN, ACTION_CHECK_PIN, ACTION_GET_DEVICE_INFO, ACTION_GENERATE_RANDOM,
      ACTION_GET_PRIVATE_KEY_ACCESS, ACTION_RELEASE_PRIVATE_KEY_ACCESS,
      ACTION_GENERATE_KEY_PAIR, ACTION_EXPORT_PUBLIC_KEY, ACTION_IMPORT_KEY,
      ACTION_DESTROY_KEY, ACTION_SIGN, ACTION_VERIFY, ACTION_ENCRYPT, ACTION_DECRYPT,
      ACTION_MAC, ACTION_HASH, ACTION_CREATE_FILE, ACTION_READ_FILE, ACTION_WRITE_FILE,
      ACTION_DELETE_FILE, ACTION_KEM_ENCAP, ACTION_KEM_DECAP]"

definition enum_all_api_action_t :: "(api_action_t \<Rightarrow> bool) \<Rightarrow> bool" where
  "enum_all_api_action_t p = list_all p enum_class.enum"

definition enum_ex_api_action_t :: "(api_action_t \<Rightarrow> bool) \<Rightarrow> bool" where
  "enum_ex_api_action_t p = list_ex p enum_class.enum"

instance
proof
  show UNIV: "(UNIV :: api_action_t set) = set enum_class.enum"
    unfolding enum_api_action_t_def by (auto intro: api_action_t.exhaust)
  show "distinct (enum_class.enum :: api_action_t list)"
    by (simp add: enum_api_action_t_def)
  show "enum_class.enum_all p = Ball UNIV p" for p :: "api_action_t \<Rightarrow> bool"
    using UNIV by (auto simp: enum_all_api_action_t_def list_all_iff)
  show "enum_class.enum_ex p = Bex UNIV p" for p :: "api_action_t \<Rightarrow> bool"
    using UNIV by (auto simp: enum_ex_api_action_t_def list_ex_iff)
qed

end

subsection \<open>Records\<close>

record request_t =
  req_request_id :: cstring
  req_domain :: api_domain_t
  req_action :: api_action_t
  req_algorithm :: cstring
  req_key_ref :: cstring
  req_payload :: cstring
  req_aux_payload :: cstring
  req_device_hint :: cstring
  req_user_pin :: cstring
  req_preference :: preference_t
  req_sequence :: cstring

record response_t =
  resp_request_id :: cstring
  resp_status :: status_code_t
  resp_selected_device :: cstring
  resp_backend_name :: cstring
  resp_backend_call :: cstring
  resp_trace :: cstring
  resp_result :: cstring

record backend_call_t =
  call_domain :: api_domain_t
  call_action :: api_action_t
  call_algorithm :: cstring
  call_key_ref :: cstring
  call_payload :: cstring
  call_aux_payload :: cstring

record gateway_settings_t =
  gateway_pin :: cstring

text \<open>
  The all-zero structs left by \<^verbatim>\<open>memset\<close>: empty strings, the zero constructors of the
  enumerations.
\<close>

definition zero_request :: request_t where
  "zero_request = \<lparr>req_request_id = [], req_domain = DOMAIN_UNKNOWN, req_action = ACTION_UNKNOWN,
     req_algorithm = [], req_key_ref = [], req_payload = [], req_aux_payload = [],
     req_device_hint = [], req_user_pin = [], req_preference = PREF_BALANCED, req_sequence = []\<rparr>"

definition zero_response :: response_t where
  "zero_response = \<lparr>resp_request_id = [], resp_status = STATUS_OK, resp_selected_device = [],
     resp_backend_name = [], resp_backend_call = [], resp_trace = [], resp_result = []\<rparr>"

subsection \<open>Well-formed values\<close>

text \<open>A C string in an array of \<open>n\<close> bytes.\<close>

definition fits :: "nat \<Rightarrow> cstring \<Rightarrow> bool" where
  "fits n s \<longleftrightarrow> length s < n \<and> no_nul s"

definition wf_request :: "request_t \<Rightarrow> bool" where
  "wf_request r \<longleftrightarrow>
     fits MAX_ID_LEN (req_request_id r) \<and> fits MAX_FIELD_LEN (req_algorithm r) \<and>
     fits MAX_FIELD_LEN (req_key_ref r) \<and> fits MAX_PAYLOAD_LEN (req_payload r) \<and>
     fits MAX_PAYLOAD_LEN (req_aux_payload r) \<and> fits MAX_FIELD_LEN (req_device_hint r) \<and>
     fits MAX_FIELD_LEN (req_user_pin r) \<and> fits MAX_PAYLOAD_LEN (req_sequence r)"

definition wf_response :: "response_t \<Rightarrow> bool" where
  "wf_response r \<longleftrightarrow>
     fits MAX_ID_LEN (resp_request_id r) \<and> fits MAX_RESPONSE_LEN (resp_selected_device r) \<and>
     fits MAX_RESPONSE_LEN (resp_backend_name r) \<and> fits MAX_RESPONSE_LEN (resp_backend_call r) \<and>
     fits MAX_RESPONSE_LEN (resp_trace r) \<and> fits MAX_RESPONSE_LEN (resp_result r)"

definition wf_call :: "backend_call_t \<Rightarrow> bool" where
  "wf_call c \<longleftrightarrow>
     fits MAX_FIELD_LEN (call_algorithm c) \<and> fits MAX_FIELD_LEN (call_key_ref c) \<and>
     fits MAX_PAYLOAD_LEN (call_payload c) \<and> fits MAX_PAYLOAD_LEN (call_aux_payload c)"

declare wf_request_def [wf_defs] wf_response_def [wf_defs] wf_call_def [wf_defs]

lemma fits_snprintf_s [simp, intro]: "0 < n \<Longrightarrow> no_nul s \<Longrightarrow> fits n (snprintf_s n s)"
  by (simp add: fits_def length_snprintf_s)

lemma fits_Nil [simp]: "fits n [] \<longleftrightarrow> 0 < n"
  by (simp add: fits_def)

lemma fits_no_nul [dest]: "fits n s \<Longrightarrow> no_nul s"
  by (simp add: fits_def)

lemma fits_mono: "fits m s \<Longrightarrow> m \<le> n \<Longrightarrow> fits n s"
  by (simp add: fits_def)

lemma snprintf_s_of_fits [simp]: "fits n s \<Longrightarrow> snprintf_s n s = s"
  by (simp add: fits_def)

lemma wf_zero_request: "wf_request zero_request"
  by (simp add: wf_request_def zero_request_def)

lemma wf_zero_response: "wf_response zero_response"
  by (simp add: wf_response_def zero_response_def)

end
