(* ===== verification/Protocol_Names.thy ===== *)
theory Protocol_Names
  imports Common_Types
begin

text \<open>
  \<^verbatim>\<open>src/server/gateway/protocol.c\<close>, first part: the name tables of the enumerations
  and the normalisation of names. The interface \<open>name_codec\<close> is what the rest of the gateway
  relies on for each name table; every table interprets it.
\<close>

subsection \<open>Names of the enumerations\<close>

text \<open>
  \<open>copy_budget n s\<close> is the copying loop with \<open>n\<close> bytes left before the terminator
  (\<open>n = out_sz - 1 - i\<close>): white space is dropped, letters are lowered.
\<close>

fun copy_budget :: "nat \<Rightarrow> cstring \<Rightarrow> cstring" where
  "copy_budget n [] = []"
| "copy_budget n (c # s) =
     (if n = 0 then []
      else if \<not> is_space c then to_lower c # copy_budget (n - 1) s
      else copy_budget n s)"

definition copy_lower_trim :: "cstring \<Rightarrow> nat \<Rightarrow> cstring" where
  "copy_lower_trim s out_sz =
     (if out_sz = 0 then [] else copy_budget (out_sz - 1) (dropWhile is_space s))"

fun domain_to_string :: "api_domain_t \<Rightarrow> cstring" where
  "domain_to_string DOMAIN_AUTH = ''auth''"
| "domain_to_string DOMAIN_DEVICE = ''device''"
| "domain_to_string DOMAIN_KEY = ''key''"
| "domain_to_string DOMAIN_ASYM = ''asym''"
| "domain_to_string DOMAIN_SYM = ''sym''"
| "domain_to_string DOMAIN_HASH = ''hash''"
| "domain_to_string DOMAIN_FILE = ''file''"
| "domain_to_string DOMAIN_PQC = ''pqc''"
| "domain_to_string _ = ''unknown''"

fun action_to_string :: "api_action_t \<Rightarrow> cstring" where
  "action_to_string ACTION_CHECK_PIN = ''check_pin''"
| "action_to_string ACTION_GET_DEVICE_INFO = ''get_device_info''"
| "action_to_string ACTION_GENERATE_RANDOM = ''generate_random''"
| "action_to_string ACTION_GET_PRIVATE_KEY_ACCESS = ''get_private_key_access''"
| "action_to_string ACTION_RELEASE_PRIVATE_KEY_ACCESS = ''release_private_key_access''"
| "action_to_string ACTION_GENERATE_KEY_PAIR = ''generate_key_pair''"
| "action_to_string ACTION_EXPORT_PUBLIC_KEY = ''export_public_key''"
| "action_to_string ACTION_IMPORT_KEY = ''import_key''"
| "action_to_string ACTION_DESTROY_KEY = ''destroy_key''"
| "action_to_string ACTION_SIGN = ''sign''"
| "action_to_string ACTION_VERIFY = ''verify''"
| "action_to_string ACTION_ENCRYPT = ''encrypt''"
| "action_to_string ACTION_DECRYPT = ''decrypt''"
| "action_to_string ACTION_MAC = ''mac''"
| "action_to_string ACTION_HASH = ''hash''"
| "action_to_string ACTION_CREATE_FILE = ''create_file''"
| "action_to_string ACTION_READ_FILE = ''read_file''"
| "action_to_string ACTION_WRITE_FILE = ''write_file''"
| "action_to_string ACTION_DELETE_FILE = ''delete_file''"
| "action_to_string ACTION_KEM_ENCAP = ''kem_encap''"
| "action_to_string ACTION_KEM_DECAP = ''kem_decap''"
| "action_to_string _ = ''unknown''"

fun device_type_to_string :: "device_type_t \<Rightarrow> cstring" where
  "device_type_to_string DEV_CLASSIC = ''classic''"
| "device_type_to_string DEV_PQC = ''pqc''"
| "device_type_to_string _ = ''unknown''"

fun preference_to_string :: "preference_t \<Rightarrow> cstring" where
  "preference_to_string PREF_SECURE = ''secure''"
| "preference_to_string PREF_EFFICIENT = ''efficient''"
| "preference_to_string PREF_CLASSIC_FIRST = ''classic_first''"
| "preference_to_string PREF_PQC_FIRST = ''pqc_first''"
| "preference_to_string PREF_BALANCED = ''balanced''"

definition parse_domain :: "cstring option \<Rightarrow> api_domain_t" where
  "parse_domain s = (case s of None \<Rightarrow> DOMAIN_UNKNOWN | Some s \<Rightarrow>
     (let norm = copy_lower_trim s MAX_FIELD_LEN in
      if strcmp norm ''auth'' = 0 then DOMAIN_AUTH
      else if strcmp norm ''device'' = 0 then DOMAIN_DEVICE
      else if strcmp norm ''key'' = 0 then DOMAIN_KEY
      else if strcmp norm ''asym'' = 0 then DOMAIN_ASYM
      else if strcmp norm ''sym'' = 0 then DOMAIN_SYM
      else if strcmp norm ''hash'' = 0 then DOMAIN_HASH
      else if strcmp norm ''file'' = 0 then DOMAIN_FILE
      else if strcmp norm ''pqc'' = 0 then DOMAIN_PQC
      else DOMAIN_UNKNOWN))"

definition parse_action :: "cstring option \<Rightarrow> api_action_t" where
  "parse_action s = (case s of None \<Rightarrow> ACTION_UNKNOWN | Some s \<Rightarrow>
     (let norm = copy_lower_trim s MAX_FIELD_LEN in
      if strcmp norm ''check_pin'' = 0 then ACTION_CHECK_PIN
      else if strcmp norm ''get_device_info'' = 0 then ACTION_GET_DEVICE_INFO
      else if strcmp norm ''generate_random'' = 0 then ACTION_GENERATE_RANDOM
      else if strcmp norm ''get_private_key_access'' = 0 then ACTION_GET_PRIVATE_KEY_ACCESS
      else if strcmp norm ''release_private_key_access'' = 0 then ACTION_RELEASE_PRIVATE_KEY_ACCESS
      else if strcmp norm ''generate_key_pair'' = 0 then ACTION_GENERATE_KEY_PAIR
      else if strcmp norm ''export_public_key'' = 0 then ACTION_EXPORT_PUBLIC_KEY
      else if strcmp norm ''import_key'' = 0 then ACTION_IMPORT_KEY
      else if strcmp norm ''destroy_key'' = 0 then ACTION_DESTROY_KEY
      else if strcmp norm ''sign'' = 0 then ACTION_SIGN
      else if strcmp norm ''verify'' = 0 then ACTION_VERIFY
      else if strcmp norm ''encrypt'' = 0 then ACTION_ENCRYPT
      else if strcmp norm ''decrypt'' = 0 then ACTION_DECRYPT
      else if strcmp norm ''mac'' = 0 then ACTION_MAC
      else if strcmp norm ''hash'' = 0 then ACTION_HASH
      else if strcmp norm ''create_file'' = 0 then ACTION_CREATE_FILE
      else if strcmp norm ''read_file'' = 0 then ACTION_READ_FILE
      else if strcmp norm ''write_file'' = 0 then ACTION_WRITE_FILE
      else if strcmp norm ''delete_file'' = 0 then ACTION_DELETE_FILE
      else if strcmp norm ''kem_encap'' = 0 then ACTION_KEM_ENCAP
      else if strcmp norm ''kem_decap'' = 0 then ACTION_KEM_DECAP
      else ACTION_UNKNOWN))"

definition parse_device_type :: "cstring option \<Rightarrow> device_type_t" where
  "parse_device_type s = (case s of None \<Rightarrow> DEV_UNKNOWN | Some s \<Rightarrow>
     (let norm = copy_lower_trim s MAX_FIELD_LEN in
      if strcmp norm ''classic'' = 0 then DEV_CLASSIC
      else if strcmp norm ''pqc'' = 0 then DEV_PQC
      else if strcmp norm ''auto'' = 0 then DEV_UNKNOWN
      else DEV_UNKNOWN))"

definition parse_preference :: "cstring option \<Rightarrow> preference_t" where
  "parse_preference s = (case s of None \<Rightarrow> PREF_BALANCED | Some s \<Rightarrow>
     if s = [] then PREF_BALANCED else
     (let norm = copy_lower_trim s MAX_FIELD_LEN in
      if strcmp norm ''secure'' = 0 \<or> strcmp norm ''safest'' = 0 then PREF_SECURE
      else if strcmp norm ''efficient'' = 0 \<or> strcmp norm ''fast'' = 0
        \<or> strcmp norm ''highest_efficiency'' = 0 then PREF_EFFICIENT
      else if strcmp norm ''classic_first'' = 0 then PREF_CLASSIC_FIRST
      else if strcmp norm ''pqc_first'' = 0 then PREF_PQC_FIRST
      else PREF_BALANCED))"

text \<open>\<open>None\<close> is the return value \<open>-1\<close>; \<open>Some\<close> carries the text left in \<^verbatim>\<open>out\<close>.\<close>

definition normalize_algorithm_name :: "cstring option \<Rightarrow> nat \<Rightarrow> cstring option" where
  "normalize_algorithm_name inp out_sz =
     (if out_sz = 0 then None
      else case inp of
        None \<Rightarrow> Some (snprintf_s out_sz ''auto'')
      | Some s \<Rightarrow>
          if s = [] then Some (snprintf_s out_sz ''auto'')
          else
            (let t = copy_lower_trim s out_sz;
                 out =
                   (if strcmp t ''auto'' = 0 \<or> strcmp t ''none'' = 0
                    then snprintf_s out_sz ''auto''
                    else if strcmp t ''kyber'' = 0 \<or> strcmp t ''kyber-768'' = 0
                    then snprintf_s out_sz ''kyber768''
                    else if strcmp t ''ml-kem-768'' = 0 \<or> strcmp t ''mlkem'' = 0
                    then snprintf_s out_sz ''mlkem768''
                    else if strcmp t ''dilithium'' = 0 \<or> strcmp t ''dilithium-3'' = 0
                    then snprintf_s out_sz ''dilithium3''
                    else t)
             in if out = [] then None else Some out))"

subsection \<open>Lemmas on the name tables\<close>

lemma copy_budget_eq:
  "copy_budget n s = take n (map to_lower (filter (\<lambda>c. \<not> is_space c) s))"
proof (induction n s rule: copy_budget.induct)
  case (2 n c s)
  then show ?case by (cases n) auto
qed simp

lemma name_lengths: "length (domain_to_string dm) \<le> 7" "length (action_to_string act) \<le> 30"
  by (cases dm; simp) (cases act; simp)

text \<open>Leading white space needs no rule of its own: the loop drops all of it.\<close>

lemma copy_lower_trim_eq [cstr]:
  "copy_lower_trim s out_sz = take (out_sz - 1) (map to_lower (filter (\<lambda>c. \<not> is_space c) s))"
proof -
  have "filter (\<lambda>c. \<not> is_space c) (dropWhile is_space s) = filter (\<lambda>c. \<not> is_space c) s"
    by (induction s) auto
  then show ?thesis by (simp add: copy_lower_trim_def copy_budget_eq)
qed

lemma length_copy_lower_trim [cstr_len]: "0 < sz \<Longrightarrow> length (copy_lower_trim s sz) < sz"
  by (simp add: copy_lower_trim_eq)

lemma filter_space_copy: "filter (\<lambda>c. \<not> is_space c) (copy_lower_trim s sz) = copy_lower_trim s sz"
  by (auto simp: copy_lower_trim_eq filter_id_conv dest!: in_set_takeD)

lemma copy_lower_trim_idem [simp]: "copy_lower_trim (copy_lower_trim s sz) sz = copy_lower_trim s sz"
proof -
  have "map to_lower (copy_lower_trim s sz) = copy_lower_trim s sz"
    by (simp add: copy_lower_trim_eq take_map comp_def)
  then show ?thesis
    by (subst copy_lower_trim_eq) (simp add: filter_space_copy, simp add: copy_lower_trim_eq min_def)
qed

lemma no_nul_copy_lower_trim [simp]: "no_nul s \<Longrightarrow> no_nul (copy_lower_trim s sz)"
proof -
  assume "no_nul s"
  then have "no_nul (map to_lower (filter (\<lambda>c. \<not> is_space c) s))"
    by (induction s) auto
  then show ?thesis by (simp add: copy_lower_trim_eq)
qed

subsection \<open>The interface of a name table\<close>

text \<open>
  What the gateway relies on: the parser looks only at the normalised spelling, and on the
  values that have a name of their own it is the inverse of the printer.
\<close>

locale name_codec =
  fixes to_str :: "'e \<Rightarrow> cstring"
    and parse :: "cstring \<Rightarrow> 'e"
    and named :: "'e \<Rightarrow> bool"
  assumes parse_norm: "parse s = parse (copy_lower_trim s MAX_FIELD_LEN)"
    and parse_to_str: "named x \<Longrightarrow> parse (to_str x) = x"
begin

lemma to_str_inj: "named x \<Longrightarrow> named y \<Longrightarrow> to_str x = to_str y \<Longrightarrow> x = y"
  by (metis parse_to_str)

text \<open>Case and white space around or inside the name do not matter.\<close>

lemma parse_spelling: "named x \<Longrightarrow> copy_lower_trim s MAX_FIELD_LEN = to_str x \<Longrightarrow> parse s = x"
  by (metis parse_norm parse_to_str)

lemma parse_same_spelling:
  "copy_lower_trim s MAX_FIELD_LEN = copy_lower_trim t MAX_FIELD_LEN \<Longrightarrow> parse s = parse t"
  by (metis parse_norm)

end

text \<open>A table without aliases: a named value comes from its own spelling only.\<close>

locale strict_name_codec = name_codec +
  assumes parse_named: "named (parse s) \<Longrightarrow> copy_lower_trim s MAX_FIELD_LEN = to_str (parse s)"
begin

lemma parse_eq_iff: "named x \<Longrightarrow> parse s = x \<longleftrightarrow> copy_lower_trim s MAX_FIELD_LEN = to_str x"
  using parse_named parse_spelling by blast

end

lemmas clt_literal = copy_lower_trim_eq is_space_def to_lower_def Let_def MAX_FIELD_LEN_def
  char_of_eq_iff

text \<open>The names are written in normal form already.\<close>

lemma domain_name_canonical:
  "copy_lower_trim (domain_to_string d) MAX_FIELD_LEN = domain_to_string d"
  by (cases d) (simp_all add: clt_literal)

lemma action_name_canonical:
  "copy_lower_trim (action_to_string a) MAX_FIELD_LEN = action_to_string a"
  by (cases a) (simp_all add: clt_literal)

lemma device_type_name_canonical:
  "copy_lower_trim (device_type_to_string t) MAX_FIELD_LEN = device_type_to_string t"
  by (cases t) (simp_all add: clt_literal)

lemma preference_name_canonical:
  "copy_lower_trim (preference_to_string p) MAX_FIELD_LEN = preference_to_string p"
  by (cases p) (simp_all add: clt_literal)

interpretation dom_codec: strict_name_codec domain_to_string "\<lambda>s. parse_domain (Some s)"
  "\<lambda>d. d \<noteq> DOMAIN_UNKNOWN"
proof unfold_locales
  show "parse_domain (Some s) = parse_domain (Some (copy_lower_trim s MAX_FIELD_LEN))" for s
    by (simp add: parse_domain_def)
  show "d \<noteq> DOMAIN_UNKNOWN \<Longrightarrow> parse_domain (Some (domain_to_string d)) = d" for d
    using domain_name_canonical [of d] by (cases d) (simp_all add: parse_domain_def)
  show "parse_domain (Some s) \<noteq> DOMAIN_UNKNOWN \<Longrightarrow>
      copy_lower_trim s MAX_FIELD_LEN = domain_to_string (parse_domain (Some s))" for s
    by (simp add: parse_domain_def Let_def split: if_splits)
qed

interpretation act_codec: strict_name_codec action_to_string "\<lambda>s. parse_action (Some s)"
  "\<lambda>a. a \<noteq> ACTION_UNKNOWN"
proof unfold_locales
  show "parse_action (Some s) = parse_action (Some (copy_lower_trim s MAX_FIELD_LEN))" for s
    by (simp add: parse_action_def)
  show "a \<noteq> ACTION_UNKNOWN \<Longrightarrow> parse_action (Some (action_to_string a)) = a" for a
    using action_name_canonical [of a] by (cases a) (simp_all add: parse_action_def)
  show "parse_action (Some s) \<noteq> ACTION_UNKNOWN \<Longrightarrow>
      copy_lower_trim s MAX_FIELD_LEN = action_to_string (parse_action (Some s))" for s
    by (simp add: parse_action_def Let_def split: if_splits)
qed

interpretation type_codec: strict_name_codec device_type_to_string
  "\<lambda>s. parse_device_type (Some s)" "\<lambda>t. t \<noteq> DEV_UNKNOWN"
proof unfold_locales
  show "parse_device_type (Some s) = parse_device_type (Some (copy_lower_trim s MAX_FIELD_LEN))" for s
    by (simp add: parse_device_type_def)
  show "t \<noteq> DEV_UNKNOWN \<Longrightarrow> parse_device_type (Some (device_type_to_string t)) = t" for t
    using device_type_name_canonical [of t] by (cases t) (simp_all add: parse_device_type_def)
  show "parse_device_type (Some s) \<noteq> DEV_UNKNOWN \<Longrightarrow>
      copy_lower_trim s MAX_FIELD_LEN = device_type_to_string (parse_device_type (Some s))" for s
    by (simp add: parse_device_type_def Let_def split: if_splits)
qed

lemma copy_lower_trim_Nil [simp]: "copy_lower_trim [] sz = []"
  by (simp add: copy_lower_trim_eq)

interpretation pref_codec: name_codec preference_to_string "\<lambda>s. parse_preference (Some s)"
  "\<lambda>p. True"
proof unfold_locales
  show "parse_preference (Some s) = parse_preference (Some (copy_lower_trim s MAX_FIELD_LEN))" for s
    by (simp add: parse_preference_def Let_def)
  show "parse_preference (Some (preference_to_string p)) = p" for p
    using preference_name_canonical [of p] by (cases p) (simp_all add: parse_preference_def)
qed

text \<open>The result is a canonical name cut to the buffer, or the normalised spelling itself.\<close>

lemma normalize_algorithm_name_cases:
  assumes "normalize_algorithm_name inp sz = Some a"
  obtains (name) n where "n \<in> {''auto'', ''kyber768'', ''mlkem768'', ''dilithium3''}"
      "a = snprintf_s sz n" "0 < sz"
    | (other) s where "inp = Some s" "a = copy_lower_trim s sz" "a \<noteq> []" "0 < sz"
  using assms unfolding normalize_algorithm_name_def Let_def
  by (cases inp) (simp_all split: if_splits, blast+)

lemma normalize_algorithm_name_fits:
  assumes "normalize_algorithm_name (Some s) sz = Some a" and "no_nul s"
  shows "fits sz a"
  using assms(1)
proof (cases rule: normalize_algorithm_name_cases)
  case (name n)
  then have "no_nul n" by auto
  with name show ?thesis by simp
next
  case (other t)
  with assms(2) show ?thesis by (simp add: fits_def length_copy_lower_trim)
qed

text \<open>Normalising an algorithm name a second time changes nothing.\<close>

lemma normalize_algorithm_name_literal:
  "\<forall>n \<in> set [''auto'', ''kyber768'', ''mlkem768'', ''dilithium3''].
     normalize_algorithm_name (Some n) MAX_FIELD_LEN = Some n \<and> snprintf_s MAX_FIELD_LEN n = n"
  by code_simp

lemma normalize_algorithm_name_spelling:
  assumes "copy_lower_trim s sz = copy_lower_trim t sz" and "s \<noteq> []" and "t \<noteq> []"
  shows "normalize_algorithm_name (Some s) sz = normalize_algorithm_name (Some t) sz"
  using assms by (simp add: normalize_algorithm_name_def)

lemma normalize_algorithm_name_idem:
  assumes "normalize_algorithm_name inp MAX_FIELD_LEN = Some a"
  shows "normalize_algorithm_name (Some a) MAX_FIELD_LEN = Some a"
  using assms
proof (cases rule: normalize_algorithm_name_cases)
  case (name n)
  then have "n \<in> set [''auto'', ''kyber768'', ''mlkem768'', ''dilithium3'']" by simp
  with normalize_algorithm_name_literal
  have "normalize_algorithm_name (Some n) MAX_FIELD_LEN = Some n \<and> snprintf_s MAX_FIELD_LEN n = n"
    by (rule bspec)
  with name(2) show ?thesis by simp
next
  case (other s)
  then have "s \<noteq> []" by auto
  with other have "normalize_algorithm_name (Some a) MAX_FIELD_LEN = normalize_algorithm_name inp MAX_FIELD_LEN"
    using normalize_algorithm_name_spelling [of a MAX_FIELD_LEN s] by simp
  with assms show ?thesis by simp
qed

subsection \<open>Properties\<close>

text \<open>
  Property C33. The name tables are inverse to the parsers: a known domain, action or device
  type comes from exactly the texts that spell its name up to case and white space, each of
  them from its printed name, and every preference is read back from its name.
\<close>

theorem names_read_back:
  assumes "d \<noteq> DOMAIN_UNKNOWN" and "a \<noteq> ACTION_UNKNOWN" and "t \<noteq> DEV_UNKNOWN"
  shows "(parse_domain (Some s) = d \<longleftrightarrow> copy_lower_trim s MAX_FIELD_LEN = domain_to_string d)
    \<and> (parse_action (Some s) = a \<longleftrightarrow> copy_lower_trim s MAX_FIELD_LEN = action_to_string a)
    \<and> (parse_device_type (Some s) = t \<longleftrightarrow> copy_lower_trim s MAX_FIELD_LEN = device_type_to_string t)
    \<and> parse_domain (Some (domain_to_string d)) = d \<and> parse_action (Some (action_to_string a)) = a
    \<and> parse_device_type (Some (device_type_to_string t)) = t
    \<and> parse_preference (Some (preference_to_string p)) = p"
  using dom_codec.parse_eq_iff [OF assms(1)] act_codec.parse_eq_iff [OF assms(2)]
    type_codec.parse_eq_iff [OF assms(3)] dom_codec.parse_to_str [OF assms(1)]
    act_codec.parse_to_str [OF assms(2)] type_codec.parse_to_str [OF assms(3)]
    pref_codec.parse_to_str
  by blast

theorem names_read_back_witness:
  "parse_domain (Some ''  ASYM '') = DOMAIN_ASYM \<and> parse_action (Some (action_to_string ACTION_SIGN)) = ACTION_SIGN"
proof -
  have "copy_lower_trim ''  ASYM '' MAX_FIELD_LEN = domain_to_string DOMAIN_ASYM"
    by (simp add: clt_literal)
  then show ?thesis
    using names_read_back [of DOMAIN_ASYM ACTION_SIGN DEV_PQC "''  ASYM ''"] by blast
qed

end
