(* ===== verification/Protocol_Request.thy ===== *)
theory Protocol_Request
  imports Protocol_Names
begin

text \<open>
  \<^verbatim>\<open>src/server/gateway/protocol.c\<close>, second part: the extraction of one string member
  from a request line and the parser of a whole line. The parser searches for the quoted key as
  a substring and copies up to the next quote; it is not a JSON reader. \<open>json_object\<close> is the
  shape of the lines clients send, and the lemmas say when the search finds the right member.
\<close>

subsection \<open>One member\<close>

text \<open>
  The copying loop with \<open>n = out_sz - 1 - i\<close> bytes left. \<open>Inl (-2)\<close>: the value does not
  fit; \<open>Inl (-1)\<close>: the text ends before the closing quote.
\<close>

fun copy_value :: "nat \<Rightarrow> cstring \<Rightarrow> int + cstring" where
  "copy_value n [] = Inl (- 1)"
| "copy_value n (c # p) =
     (if c = CHR 0x22 then Inr []
      else if n = 0 then Inl (- 2)
      else (case copy_value (n - 1) p of Inl e \<Rightarrow> Inl e | Inr v \<Rightarrow> Inr (c # v)))"

definition quoted :: "cstring \<Rightarrow> cstring" where
  "quoted s = CHR 0x22 # s @ [CHR 0x22]"

definition extract_json_string :: "cstring \<Rightarrow> cstring \<Rightarrow> nat \<Rightarrow> int + cstring" where
  "extract_json_string json key out_sz =
     (let needle = snprintf_s 128 (quoted key) in
      case strstr json needle of
        None \<Rightarrow> Inl (- 1)
      | Some p \<Rightarrow>
          (case strchr (drop (length needle) p) CHR '':'' of
             None \<Rightarrow> Inl (- 1)
           | Some q \<Rightarrow>
               (case dropWhile is_space (drop 1 q) of
                  [] \<Rightarrow> Inl (- 1)
                | c # r \<Rightarrow>
                    if c \<noteq> CHR 0x22 then Inl (- 1)
                    else copy_value (out_sz - 1) r)))"

definition default_algorithm_for :: "api_domain_t \<Rightarrow> api_action_t \<Rightarrow> nat \<Rightarrow> cstring" where
  "default_algorithm_for dm act sz =
     (if act = ACTION_HASH then snprintf_s sz ''sm3'' else snprintf_s sz ''auto'')"

text \<open>An optional member: absent, malformed or too long, it is left empty.\<close>

definition optional_member :: "cstring \<Rightarrow> cstring \<Rightarrow> nat \<Rightarrow> cstring" where
  "optional_member json key out_sz =
     (case extract_json_string json key out_sz of Inl _ \<Rightarrow> [] | Inr v \<Rightarrow> v)"

text \<open>
  The parser of a line. \<open>Inl\<close> is the return value \<open>-1\<close> with the text left in \<^verbatim>\<open>errbuf\<close>
  (of \<open>esz\<close> bytes), \<open>Inr\<close> the filled \<^verbatim>\<open>request_t\<close>.
\<close>

definition parse_request_json :: "cstring \<Rightarrow> nat \<Rightarrow> cstring + request_t" where
  "parse_request_json json esz =
     (case extract_json_string json ''request_id'' MAX_ID_LEN of
        Inl _ \<Rightarrow> Inl (snprintf_s esz ''missing or invalid request_id'')
      | Inr rid \<Rightarrow>
     (case extract_json_string json ''domain'' MAX_FIELD_LEN of
        Inl _ \<Rightarrow> Inl (snprintf_s esz ''missing or invalid domain'')
      | Inr dm \<Rightarrow>
     (case extract_json_string json ''action'' MAX_FIELD_LEN of
        Inl _ \<Rightarrow> Inl (snprintf_s esz ''missing or invalid action'')
      | Inr act \<Rightarrow>
     (let alg = (case extract_json_string json ''algorithm'' MAX_FIELD_LEN of
                   Inl _ \<Rightarrow> default_algorithm_for (parse_domain (Some dm)) (parse_action (Some act))
                             MAX_FIELD_LEN
                 | Inr a \<Rightarrow> a);
          req = zero_request \<lparr>
            req_request_id := rid,
            req_key_ref := optional_member json ''key_ref'' MAX_FIELD_LEN,
            req_payload := optional_member json ''payload'' MAX_PAYLOAD_LEN,
            req_aux_payload := optional_member json ''aux_payload'' MAX_PAYLOAD_LEN,
            req_device_hint := optional_member json ''device_hint'' MAX_FIELD_LEN,
            req_user_pin := optional_member json ''user_pin'' MAX_FIELD_LEN,
            req_preference :=
              (case extract_json_string json ''preference'' MAX_FIELD_LEN of
                 Inl _ \<Rightarrow> PREF_BALANCED | Inr p \<Rightarrow> parse_preference (Some p)),
            req_sequence := optional_member json ''sequence'' MAX_PAYLOAD_LEN,
            req_domain := parse_domain (Some dm) \<rparr>
      in
      if req_domain req = DOMAIN_UNKNOWN
      then Inl (snprintf_s esz (''unsupported domain: '' @ dm))
      else
        (let req = req \<lparr> req_action := parse_action (Some act) \<rparr> in
         if req_action req = ACTION_UNKNOWN
         then Inl (snprintf_s esz (''unsupported action: '' @ act))
         else
           (case normalize_algorithm_name (Some alg) MAX_FIELD_LEN of
              None \<Rightarrow> Inl (snprintf_s esz (''unsupported algorithm: '' @ alg))
            | Some a \<Rightarrow> Inr (req \<lparr> req_algorithm := a \<rparr>)))))))"

subsection \<open>What the extraction returns\<close>

lemma copy_value_Inr:
  assumes "copy_value n p = Inr v"
  shows "\<exists>r. p = v @ CHR 0x22 # r \<and> CHR 0x22 \<notin> set v \<and> length v \<le> n"
  using assms
proof (induction n p arbitrary: v rule: copy_value.induct)
  case (1 n)
  then show ?case by simp
next
  case (2 n c p)
  show ?case
  proof (cases "c = CHR 0x22")
    case True
    with 2(2) show ?thesis by auto
  next
    case False
    with 2(2) have n: "n \<noteq> 0" by (auto split: if_splits)
    with False 2(2) obtain u where u: "copy_value (n - 1) p = Inr u" and v: "v = c # u"
      by (auto split: sum.splits)
    from 2(1) [OF False n u] obtain r where "p = u @ CHR 0x22 # r" "CHR 0x22 \<notin> set u" "length u \<le> n - 1"
      by blast
    with v n False show ?thesis by auto
  qed
qed

lemma copy_value_fits [simp]:
  "CHR 0x22 \<notin> set v \<Longrightarrow> length v \<le> n \<Longrightarrow> copy_value n (v @ CHR 0x22 # r) = Inr v"
proof (induction v arbitrary: n)
  case (Cons c v)
  then show ?case by (cases n) auto
qed simp

lemma copy_value_too_long:
  "CHR 0x22 \<notin> set v \<Longrightarrow> n < length v \<Longrightarrow> copy_value n (v @ r) = Inl (- 2)"
proof (induction v arbitrary: n)
  case (Cons c v)
  then show ?case by (cases n) auto
qed simp

text \<open>Whatever the line, an extracted value fits its buffer, has no quote and comes from the line.\<close>

lemma extract_json_string_Inr:
  assumes "extract_json_string json key sz = Inr v"
  shows "CHR 0x22 \<notin> set v \<and> length v \<le> sz - 1 \<and> set v \<subseteq> set json"
proof -
  let ?n = "snprintf_s 128 (quoted key)"
  obtain p q r where p: "strstr json ?n = Some p"
    and q: "strchr (drop (length ?n) p) CHR '':'' = Some q"
    and r: "dropWhile is_space (drop 1 q) = CHR 0x22 # r" and v: "copy_value (sz - 1) r = Inr v"
    using assms unfolding extract_json_string_def Let_def
    by (auto split: option.splits list.splits if_splits)
  from copy_value_Inr [OF v] obtain t where t: "r = v @ CHR 0x22 # t" "CHR 0x22 \<notin> set v"
    "length v \<le> sz - 1" by blast
  have "set v \<subseteq> set (dropWhile is_space (drop 1 q))" using r t by auto
  also have "\<dots> \<subseteq> set q" by (auto dest!: set_dropWhileD in_set_dropD)
  also have "\<dots> \<subseteq> set (drop (length ?n) p)" using q unfolding strchr_Some_iff by auto
  also have "\<dots> \<subseteq> set p" by (auto dest: in_set_dropD)
  also have "\<dots> \<subseteq> set json" using strstr_suffix [OF p] by auto
  finally show ?thesis using t by blast
qed

lemma extract_json_string_fits:
  "extract_json_string json key sz = Inr v \<Longrightarrow> no_nul json \<Longrightarrow> 0 < sz \<Longrightarrow> fits sz v"
  using extract_json_string_Inr [of json key sz v] by (auto simp: fits_def no_nul_def)

lemma optional_member_fits [simp]:
  "no_nul json \<Longrightarrow> 0 < sz \<Longrightarrow> fits sz (optional_member json key sz)"
  by (auto simp: optional_member_def extract_json_string_fits split: sum.splits)

subsection \<open>Lines of the shape clients send\<close>

definition json_member :: "cstring \<Rightarrow> cstring \<Rightarrow> cstring" where
  "json_member k v = quoted k @ CHR '':'' # quoted v"

fun json_members :: "(cstring \<times> cstring) list \<Rightarrow> cstring" where
  "json_members [] = []"
| "json_members [(k, v)] = json_member k v"
| "json_members ((k, v) # m # ms) = json_member k v @ CHR '','' # json_members (m # ms)"

definition json_object :: "(cstring \<times> cstring) list \<Rightarrow> cstring" where
  "json_object ms = CHR ''{'' # json_members ms @ ''}''"

definition quote_free :: "cstring \<Rightarrow> bool" where
  "quote_free s \<longleftrightarrow> CHR 0x22 \<notin> set s"

definition search_key :: "cstring \<Rightarrow> bool" where
  "search_key k \<longleftrightarrow> quote_free k \<and> k \<noteq> '':'' \<and> k \<noteq> '','' \<and> length k < 126"

text \<open>Names and values without quotes, and no value that spells the searched key.\<close>

definition searchable :: "(cstring \<times> cstring) list \<Rightarrow> cstring \<Rightarrow> bool" where
  "searchable ms k \<longleftrightarrow>
     search_key k \<and> list_all (\<lambda>(k', v). quote_free k' \<and> quote_free v \<and> v \<noteq> k) ms"

lemma strstr_skip:
  "quote_free u \<Longrightarrow> strstr (u @ CHR 0x22 # t) (quoted k) = strstr (CHR 0x22 # t) (quoted k)"
proof (induction u)
  case (Cons c u)
  then have "\<not> starts_with_str ((c # u) @ CHR 0x22 # t) (quoted k)"
    by (auto simp: starts_with_str_def quoted_def quote_free_def)
  moreover have "quote_free u" using Cons.prems by (simp add: quote_free_def)
  ultimately show ?case using Cons.IH by simp
qed simp

lemma strstr_no_quote: "quote_free u \<Longrightarrow> strstr u (quoted k) = None"
proof (induction u)
  case Nil
  then show ?case by (simp add: quoted_def)
next
  case (Cons c u)
  then have "\<not> starts_with_str (c # u) (quoted k)"
    by (auto simp: starts_with_str_def quoted_def quote_free_def)
  with Cons show ?case by (simp add: quote_free_def)
qed

lemma strstr_last_quote:
  assumes "quote_free u"
  shows "strstr (CHR 0x22 # u) (quoted k) = None"
proof -
  have "\<not> starts_with_str (CHR 0x22 # u) (quoted k)"
  proof
    assume "starts_with_str (CHR 0x22 # u) (quoted k)"
    then obtain t where "u = k @ CHR 0x22 # t"
      by (auto simp: starts_with_str_iff quoted_def)
    with assms show False by (simp add: quote_free_def)
  qed
  with strstr_no_quote [OF assms] show ?thesis by simp
qed

text \<open>At a quote: the text up to the next quote is the key, or the search moves on.\<close>

lemma strstr_segment:
  assumes "quote_free seg" "quote_free k"
  shows "strstr (CHR 0x22 # seg @ CHR 0x22 # t) (quoted k) =
    (if seg = k then Some (quoted k @ t) else strstr (CHR 0x22 # t) (quoted k))"
proof (cases "seg = k")
  case True
  then have "CHR 0x22 # seg @ CHR 0x22 # t = quoted k @ t" by (simp add: quoted_def)
  with True strstr_prefix [of "quoted k" t] show ?thesis by metis
next
  case False
  have "\<not> starts_with_str (CHR 0x22 # seg @ CHR 0x22 # t) (quoted k)"
  proof
    assume "starts_with_str (CHR 0x22 # seg @ CHR 0x22 # t) (quoted k)"
    then obtain u where "seg @ CHR 0x22 # t = k @ CHR 0x22 # u"
      by (auto simp: starts_with_str_iff quoted_def)
    then have "takeWhile (\<lambda>c. c \<noteq> CHR 0x22) (seg @ CHR 0x22 # t) =
        takeWhile (\<lambda>c. c \<noteq> CHR 0x22) (k @ CHR 0x22 # u)" by simp
    with assms False show False by (simp add: quote_free_def)
  qed
  then show ?thesis using False strstr_skip [OF assms(1)] by simp
qed

lemma strstr_member:
  assumes "search_key k" "quote_free k'" "quote_free v" "v \<noteq> k"
  shows "strstr (json_member k' v @ u) (quoted k) =
    (if k' = k then Some (json_member k v @ u) else strstr (CHR 0x22 # u) (quoted k))"
proof -
  have k: "quote_free k" "'':'' \<noteq> k" using assms(1) by (auto simp: search_key_def)
  have q: "quote_free '':''" by (simp add: quote_free_def)
  have "json_member k' v @ u = CHR 0x22 # k' @ CHR 0x22 # '':'' @ CHR 0x22 # v @ CHR 0x22 # u"
    by (simp add: json_member_def quoted_def)
  then have "strstr (json_member k' v @ u) (quoted k) =
      (if k' = k then Some (quoted k @ '':'' @ CHR 0x22 # v @ CHR 0x22 # u)
       else strstr (CHR 0x22 # '':'' @ CHR 0x22 # v @ CHR 0x22 # u) (quoted k))"
    using strstr_segment [OF assms(2) k(1), of "'':'' @ CHR 0x22 # v @ CHR 0x22 # u"] by simp
  also have "strstr (CHR 0x22 # '':'' @ CHR 0x22 # v @ CHR 0x22 # u) (quoted k) =
      strstr (CHR 0x22 # v @ CHR 0x22 # u) (quoted k)"
    using strstr_segment [OF q k(1), of "v @ CHR 0x22 # u"] k(2) by simp
  also have "\<dots> = strstr (CHR 0x22 # u) (quoted k)"
    using strstr_segment [OF assms(3) k(1), of u] assms(4) by simp
  finally show ?thesis by (simp add: json_member_def quoted_def)
qed

lemma strstr_members:
  assumes "searchable ms k" "quote_free t" "ms \<noteq> []"
  shows "case map_of ms k of
      None \<Rightarrow> strstr (json_members ms @ t) (quoted k) = None
    | Some v \<Rightarrow> \<exists>r. strstr (json_members ms @ t) (quoted k) = Some (json_member k v @ r)"
  using assms
proof (induction ms rule: json_members.induct)
  case 1
  then show ?case by simp
next
  case (2 k' v')
  then have "strstr (json_member k' v' @ t) (quoted k) =
      (if k' = k then Some (json_member k v' @ t) else strstr (CHR 0x22 # t) (quoted k))"
    by (intro strstr_member) (auto simp: searchable_def)
  with 2(2) strstr_last_quote show ?case by auto
next
  case (3 k' v' m ms)
  let ?rest = "json_members (m # ms) @ t"
  obtain w where w: "?rest = CHR 0x22 # w"
    by (cases m; cases ms) (auto simp: json_member_def quoted_def)
  have k: "quote_free k" "'','' \<noteq> k" using 3(2) by (auto simp: searchable_def search_key_def)
  have "strstr (json_member k' v' @ CHR '','' # ?rest) (quoted k) =
      (if k' = k then Some (json_member k v' @ CHR '','' # ?rest)
       else strstr (CHR 0x22 # CHR '','' # ?rest) (quoted k))"
    using 3(2) by (intro strstr_member) (auto simp: searchable_def)
  moreover have "strstr (CHR 0x22 # CHR '','' # ?rest) (quoted k) = strstr ?rest (quoted k)"
    using strstr_segment [of "'',''" k w] k w by (simp add: quote_free_def)
  moreover have "searchable (m # ms) k" using 3(2) by (simp add: searchable_def)
  ultimately show ?case using 3(1) 3(3) by (auto split: option.splits)
qed

text \<open>On a searchable object the extraction is a lookup in the list of members.\<close>

lemma extract_json_string_object:
  assumes "searchable ms k" "0 < sz"
  shows "extract_json_string (json_object ms) k sz =
    (case map_of ms k of
       None \<Rightarrow> Inl (- 1)
     | Some v \<Rightarrow> if length v < sz then Inr v else Inl (- 2))"
proof -
  have needle: "snprintf_s 128 (quoted k) = quoted k"
    using assms(1) by (simp add: searchable_def search_key_def quoted_def)
  have skip: "strstr (json_object ms) (quoted k) = strstr (json_members ms @ ''}'') (quoted k)"
    by (simp add: json_object_def quoted_def starts_with_str_def)
  show ?thesis
  proof (cases "ms = []")
    case True
    then show ?thesis
      using needle skip strstr_no_quote [of "''}''" k]
      by (simp add: extract_json_string_def quote_free_def)
  next
    case False
    have "case map_of ms k of
        None \<Rightarrow> strstr (json_object ms) (quoted k) = None
      | Some v \<Rightarrow> \<exists>r. strstr (json_object ms) (quoted k) = Some (json_member k v @ r)"
      unfolding skip using strstr_members [OF assms(1) _ False] by (simp add: quote_free_def)
    moreover have "quote_free v" if "map_of ms k = Some v" for v
      using assms(1) map_of_SomeD [OF that] by (auto simp: searchable_def list_all_iff)
    ultimately show ?thesis
      using needle assms(2) copy_value_fits copy_value_too_long
      by (auto simp: extract_json_string_def json_member_def quoted_def is_space_def quote_free_def
          split: option.splits)
  qed
qed

subsection \<open>What the parser returns\<close>

definition request_keys :: "cstring list" where
  "request_keys =
     [''request_id'', ''domain'', ''action'', ''algorithm'', ''key_ref'', ''payload'',
      ''aux_payload'', ''device_hint'', ''user_pin'', ''preference'', ''sequence'']"

lemma default_algorithm_fits: "fits MAX_FIELD_LEN (default_algorithm_for dm act MAX_FIELD_LEN)"
  by (simp add: default_algorithm_for_def)

text \<open>The shape of every accepted line.\<close>

lemma parse_request_json_Inr:
  assumes "parse_request_json json esz = Inr r"
  obtains rid dm act alg where
    "extract_json_string json ''request_id'' MAX_ID_LEN = Inr rid"
    "extract_json_string json ''domain'' MAX_FIELD_LEN = Inr dm"
    "extract_json_string json ''action'' MAX_FIELD_LEN = Inr act"
    "alg = (case extract_json_string json ''algorithm'' MAX_FIELD_LEN of
        Inl _ \<Rightarrow> default_algorithm_for (parse_domain (Some dm)) (parse_action (Some act)) MAX_FIELD_LEN
      | Inr a \<Rightarrow> a)"
    "req_request_id r = rid"
    "req_domain r = parse_domain (Some dm)" "req_domain r \<noteq> DOMAIN_UNKNOWN"
    "req_action r = parse_action (Some act)" "req_action r \<noteq> ACTION_UNKNOWN"
    "normalize_algorithm_name (Some alg) MAX_FIELD_LEN = Some (req_algorithm r)"
    "req_key_ref r = optional_member json ''key_ref'' MAX_FIELD_LEN"
    "req_payload r = optional_member json ''payload'' MAX_PAYLOAD_LEN"
    "req_aux_payload r = optional_member json ''aux_payload'' MAX_PAYLOAD_LEN"
    "req_device_hint r = optional_member json ''device_hint'' MAX_FIELD_LEN"
    "req_user_pin r = optional_member json ''user_pin'' MAX_FIELD_LEN"
    "req_sequence r = optional_member json ''sequence'' MAX_PAYLOAD_LEN"
  using assms unfolding parse_request_json_def Let_def
  by (simp split: sum.splits if_splits option.splits) auto

lemma parse_request_json_wf_aux:
  assumes "no_nul json" and "parse_request_json json esz = Inr r"
  shows "wf_request r \<and> req_domain r \<noteq> DOMAIN_UNKNOWN \<and> req_action r \<noteq> ACTION_UNKNOWN
    \<and> normalize_algorithm_name (Some (req_algorithm r)) MAX_FIELD_LEN = Some (req_algorithm r)"
  using assms(2)
proof (cases rule: parse_request_json_Inr)
  case (1 rid dm act alg)
  have "no_nul alg"
    using assms(1) 1(4) default_algorithm_fits
      extract_json_string_fits [of json "''algorithm''" MAX_FIELD_LEN]
    by (cases "extract_json_string json ''algorithm'' MAX_FIELD_LEN") auto
  with 1 assms(1) show ?thesis
    by (auto simp: wf_request_def extract_json_string_fits normalize_algorithm_name_fits
        normalize_algorithm_name_idem)
qed

text \<open>A rejected line leaves a message that fits \<^verbatim>\<open>errbuf\<close>.\<close>

lemma parse_request_json_Inl:
  "parse_request_json json esz = Inl e \<Longrightarrow> \<exists>m. e = snprintf_s esz m"
  unfolding parse_request_json_def Let_def
  by (auto split: sum.splits if_splits option.splits)

subsection \<open>Properties\<close>

text \<open>
  Property C29. Every line the parser accepts gives a request whose texts fit the arrays of
  \<^verbatim>\<open>request_t\<close>, with a known domain, a known action and a normalised algorithm name,
  whatever bytes the line holds.
\<close>

theorem parse_request_json_wf:
  assumes "no_nul json" and "parse_request_json json esz = Inr r"
  shows "wf_request r \<and> req_domain r \<noteq> DOMAIN_UNKNOWN \<and> req_action r \<noteq> ACTION_UNKNOWN
    \<and> normalize_algorithm_name (Some (req_algorithm r)) MAX_FIELD_LEN = Some (req_algorithm r)"
  using assms by (rule parse_request_json_wf_aux)

theorem parse_request_json_wf_witness:
  "wf_request (zero_request \<lparr>req_request_id := ''7'', req_domain := DOMAIN_HASH,
     req_action := ACTION_HASH, req_algorithm := ''sm3''\<rparr>)"
proof -
  have n: "no_nul (json_object [(''request_id'', ''7''), (''domain'', ''hash''), (''action'', ''hash'')])"
    by code_simp
  have "parse_request_json
      (json_object [(''request_id'', ''7''), (''domain'', ''hash''), (''action'', ''hash'')]) 64 =
    Inr (zero_request \<lparr>req_request_id := ''7'', req_domain := DOMAIN_HASH,
      req_action := ACTION_HASH, req_algorithm := ''sm3''\<rparr>)"
    by code_simp
  from parse_request_json_wf [OF n this] show ?thesis by blast
qed

text \<open>The member a lookup finds, cut off where the parser cuts it off.\<close>

definition member_or_empty :: "(cstring \<times> cstring) list \<Rightarrow> cstring \<Rightarrow> nat \<Rightarrow> cstring" where
  "member_or_empty ms k sz =
     (case map_of ms k of None \<Rightarrow> [] | Some v \<Rightarrow> if length v < sz then v else [])"

lemma optional_member_object:
  "searchable ms k \<Longrightarrow> 0 < sz \<Longrightarrow> optional_member (json_object ms) k sz = member_or_empty ms k sz"
  by (simp add: optional_member_def member_or_empty_def extract_json_string_object
      split: option.splits)

lemma parse_request_json_object_aux:
  assumes "\<forall>k \<in> set request_keys. searchable ms k"
    and "map_of ms ''request_id'' = Some rid" "length rid < MAX_ID_LEN"
    and "map_of ms ''domain'' = Some dm" "length dm < MAX_FIELD_LEN"
      "parse_domain (Some dm) \<noteq> DOMAIN_UNKNOWN"
    and "map_of ms ''action'' = Some act" "length act < MAX_FIELD_LEN"
      "parse_action (Some act) \<noteq> ACTION_UNKNOWN"
    and "map_of ms ''algorithm'' = Some alg" "length alg < MAX_FIELD_LEN"
      "normalize_algorithm_name (Some alg) MAX_FIELD_LEN = Some alg'"
  shows "parse_request_json (json_object ms) esz = Inr \<lparr>
      req_request_id = rid, req_domain = parse_domain (Some dm),
      req_action = parse_action (Some act), req_algorithm = alg',
      req_key_ref = member_or_empty ms ''key_ref'' MAX_FIELD_LEN,
      req_payload = member_or_empty ms ''payload'' MAX_PAYLOAD_LEN,
      req_aux_payload = member_or_empty ms ''aux_payload'' MAX_PAYLOAD_LEN,
      req_device_hint = member_or_empty ms ''device_hint'' MAX_FIELD_LEN,
      req_user_pin = member_or_empty ms ''user_pin'' MAX_FIELD_LEN,
      req_preference = parse_preference (Some (member_or_empty ms ''preference'' MAX_FIELD_LEN)),
      req_sequence = member_or_empty ms ''sequence'' MAX_PAYLOAD_LEN\<rparr>"
proof -
  have keys: "searchable ms ''request_id''" "searchable ms ''domain''" "searchable ms ''action''"
    "searchable ms ''algorithm''" "searchable ms ''key_ref''" "searchable ms ''payload''"
    "searchable ms ''aux_payload''" "searchable ms ''device_hint''" "searchable ms ''user_pin''"
    "searchable ms ''preference''" "searchable ms ''sequence''"
    using assms(1) by (simp_all add: request_keys_def)
  have pref_Nil: "parse_preference (Some []) = PREF_BALANCED" by code_simp
  have pref: "(case (case map_of ms ''preference'' of None \<Rightarrow> Inl (- 1 :: int)
          | Some v \<Rightarrow> if length v < MAX_FIELD_LEN then Inr v else Inl (- 2)) of
        Inl _ \<Rightarrow> PREF_BALANCED | Inr p \<Rightarrow> parse_preference (Some p)) =
      parse_preference (Some (member_or_empty ms ''preference'' MAX_FIELD_LEN))"
    unfolding member_or_empty_def
    by (cases "map_of ms ''preference''") (simp_all add: pref_Nil del: map_of_eq_None_iff)
  show ?thesis
    by (simp add: parse_request_json_def Let_def keys extract_json_string_object
        optional_member_object pref zero_request_def assms(2-))
qed

text \<open>
  Property C21. On a line that is an object of string members whose values hold no quote and
  do not spell a key, the substring search is a lookup: the request has exactly the members'
  values, in any order of the members, each optional text empty when its member is absent
  (for lines with an \<^verbatim>\<open>algorithm\<close> member). A member whose value does not fit its array is dropped
  in silence.
\<close>

theorem parse_request_json_object:
  assumes "\<forall>k \<in> set request_keys. searchable ms k"
    and "map_of ms ''request_id'' = Some rid" "length rid < MAX_ID_LEN"
    and "map_of ms ''domain'' = Some dm" "length dm < MAX_FIELD_LEN"
      "parse_domain (Some dm) \<noteq> DOMAIN_UNKNOWN"
    and "map_of ms ''action'' = Some act" "length act < MAX_FIELD_LEN"
      "parse_action (Some act) \<noteq> ACTION_UNKNOWN"
    and "map_of ms ''algorithm'' = Some alg" "length alg < MAX_FIELD_LEN"
      "normalize_algorithm_name (Some alg) MAX_FIELD_LEN = Some alg'"
  shows "parse_request_json (json_object ms) esz = Inr \<lparr>
      req_request_id = rid, req_domain = parse_domain (Some dm),
      req_action = parse_action (Some act), req_algorithm = alg',
      req_key_ref = member_or_empty ms ''key_ref'' MAX_FIELD_LEN,
      req_payload = member_or_empty ms ''payload'' MAX_PAYLOAD_LEN,
      req_aux_payload = member_or_empty ms ''aux_payload'' MAX_PAYLOAD_LEN,
      req_device_hint = member_or_empty ms ''device_hint'' MAX_FIELD_LEN,
      req_user_pin = member_or_empty ms ''user_pin'' MAX_FIELD_LEN,
      req_preference = parse_preference (Some (member_or_empty ms ''preference'' MAX_FIELD_LEN)),
      req_sequence = member_or_empty ms ''sequence'' MAX_PAYLOAD_LEN\<rparr>"
  using assms by (rule parse_request_json_object_aux)

theorem parse_request_json_object_witness:
  "parse_request_json (json_object
      [(''domain'', ''ASYM''), (''request_id'', ''r1''), (''action'', '' sign''),
       (''algorithm'', ''SM2''), (''payload'', ''hello''), (''user_pin'', ''123456'')]) 256
    = Inr \<lparr>req_request_id = ''r1'', req_domain = DOMAIN_ASYM, req_action = ACTION_SIGN,
        req_algorithm = ''sm2'', req_key_ref = [], req_payload = ''hello'', req_aux_payload = [],
        req_device_hint = [], req_user_pin = ''123456'', req_preference = PREF_BALANCED,
        req_sequence = []\<rparr>"
proof -
  let ?ms = "[(''domain'', ''ASYM''), (''request_id'', ''r1''), (''action'', '' sign''),
       (''algorithm'', ''SM2''), (''payload'', ''hello''), (''user_pin'', ''123456'')]"
  have k: "\<forall>k \<in> set request_keys. searchable ?ms k" by code_simp
  have d: "parse_domain (Some ''ASYM'') = DOMAIN_ASYM" by code_simp
  have a: "parse_action (Some '' sign'') = ACTION_SIGN" by code_simp
  have n: "normalize_algorithm_name (Some ''SM2'') MAX_FIELD_LEN = Some ''sm2''" by code_simp
  have p: "parse_preference (Some []) = PREF_BALANCED" by code_simp
  have len: "length ''r1'' < MAX_ID_LEN" "length ''ASYM'' < MAX_FIELD_LEN"
    "length '' sign'' < MAX_FIELD_LEN" "length ''SM2'' < MAX_FIELD_LEN"
    "length ''123456'' < MAX_FIELD_LEN" "length ''hello'' < MAX_PAYLOAD_LEN"
    by (simp_all add: size_defs)
  have "parse_request_json (json_object ?ms) 256 = Inr \<lparr>
      req_request_id = ''r1'', req_domain = parse_domain (Some ''ASYM''),
      req_action = parse_action (Some '' sign''), req_algorithm = ''sm2'',
      req_key_ref = member_or_empty ?ms ''key_ref'' MAX_FIELD_LEN,
      req_payload = member_or_empty ?ms ''payload'' MAX_PAYLOAD_LEN,
      req_aux_payload = member_or_empty ?ms ''aux_payload'' MAX_PAYLOAD_LEN,
      req_device_hint = member_or_empty ?ms ''device_hint'' MAX_FIELD_LEN,
      req_user_pin = member_or_empty ?ms ''user_pin'' MAX_FIELD_LEN,
      req_preference = parse_preference (Some (member_or_empty ?ms ''preference'' MAX_FIELD_LEN)),
      req_sequence = member_or_empty ?ms ''sequence'' MAX_PAYLOAD_LEN\<rparr>"
    by (rule parse_request_json_object [OF k _ len(1) _ len(2) _ _ len(3) _ _ len(4) n])
      (simp_all add: d a)
  then show ?thesis by (simp add: d a p member_or_empty_def len [simplified])
qed

text \<open>
  A payload of \<open>MAX_PAYLOAD_LEN\<close> bytes or more does not make the gateway reject
  the request: the line is accepted with an empty payload.
\<close>

lemma parse_request_json_drops_long_payload:
  assumes "searchable ms ''payload''" and "map_of ms ''payload'' = Some v"
    and "MAX_PAYLOAD_LEN \<le> length v"
    and "parse_request_json (json_object ms) esz = Inr r"
  shows "req_payload r = []"
  using assms(4)
proof (cases rule: parse_request_json_Inr)
  case (1 rid dm act alg)
  with assms(1-3) show ?thesis by (simp add: optional_member_object member_or_empty_def)
qed

end
