(* ===== verification/Protocol_Response.thy ===== *)
theory Protocol_Response
  imports Common_Types
begin

text \<open>
  \<^verbatim>\<open>src/server/gateway/protocol.c\<close>, last part: writing a \<^verbatim>\<open>response_t\<close> as one line of
  JSON into a bounded buffer. The code writes piece by piece and checks the room before each
  advance; \<open>render_response\<close> is the text as a whole and \<open>read_response\<close> a JSON reader for
  lines of that shape. The lemmas show that the writer gives the whole text or fails, and
  that the reader gives the response back whatever bytes its texts hold.
\<close>

subsection \<open>The writer\<close>

text \<open>The bytes one byte of a value becomes.\<close>

definition escape_char :: "char \<Rightarrow> cstring" where
  "escape_char c =
     (if c = CHR 0x22 \<or> c = CHR 0x5C then [CHR 0x5C, c]
      else if c = CHR 0x0A then [CHR 0x5C, CHR ''n'']
      else if c = CHR 0x0D then [CHR 0x5C, CHR ''r'']
      else if c = CHR 0x09 then [CHR 0x5C, CHR ''t'']
      else if (of_char c :: nat) < 0x20 then [CHR 0x5C, CHR ''u''] @ hex_fixed 4 (of_char c)
      else [c])"

fun append_json_escaped :: "nat \<Rightarrow> cstring \<Rightarrow> cstring \<Rightarrow> cstring option" where
  "append_json_escaped sz buf [] = Some buf"
| "append_json_escaped sz buf (c # p) =
     Option.bind (emit sz buf (escape_char c)) (\<lambda>b. append_json_escaped sz b p)"

definition append_json_field :: "nat \<Rightarrow> cstring \<Rightarrow> cstring \<Rightarrow> cstring \<Rightarrow> bool \<Rightarrow> cstring option" where
  "append_json_field sz buf name value comma =
     Option.bind (emit sz buf ((if comma then '','' else []) @ [CHR 0x22] @ name @ [CHR 0x22, CHR '':'', CHR 0x22]))
       (\<lambda>b. Option.bind (append_json_escaped sz b value)
         (\<lambda>b. emit sz b [CHR 0x22]))"

text \<open>\<open>None\<close> is the return value \<open>-1\<close>, \<open>Some t\<close> the buffer's text, its length returned.\<close>

definition response_to_json :: "response_t \<Rightarrow> nat \<Rightarrow> cstring option" where
  "response_to_json resp sz =
     (if sz = 0 then None else
      Option.bind (emit sz [] ''{'') (\<lambda>b.
      Option.bind (append_json_field sz b ''request_id'' (resp_request_id resp) False) (\<lambda>b.
      Option.bind (emit sz b ('','' @ [CHR 0x22] @ ''status'' @ [CHR 0x22] @ '':''
                               @ dec_int (status_value (resp_status resp)))) (\<lambda>b.
      Option.bind (append_json_field sz b ''selected_device'' (resp_selected_device resp) True) (\<lambda>b.
      Option.bind (append_json_field sz b ''backend_name'' (resp_backend_name resp) True) (\<lambda>b.
      Option.bind (append_json_field sz b ''backend_call'' (resp_backend_call resp) True) (\<lambda>b.
      Option.bind (append_json_field sz b ''trace'' (resp_trace resp) True) (\<lambda>b.
      Option.bind (append_json_field sz b ''result'' (resp_result resp) True) (\<lambda>b.
      emit sz b ''}'')))))))))"

subsection \<open>The text as a whole\<close>

definition escape :: "cstring \<Rightarrow> cstring" where
  "escape s = concat (map escape_char s)"

definition render_field :: "cstring \<Rightarrow> cstring \<Rightarrow> cstring" where
  "render_field name value =
     [CHR 0x22] @ name @ [CHR 0x22, CHR '':'', CHR 0x22] @ escape value @ [CHR 0x22]"

definition render_response :: "response_t \<Rightarrow> cstring" where
  "render_response r =
     ''{'' @ render_field ''request_id'' (resp_request_id r)
     @ '','' @ [CHR 0x22] @ ''status'' @ [CHR 0x22] @ '':'' @ dec_int (status_value (resp_status r))
     @ '','' @ render_field ''selected_device'' (resp_selected_device r)
     @ '','' @ render_field ''backend_name'' (resp_backend_name r)
     @ '','' @ render_field ''backend_call'' (resp_backend_call r)
     @ '','' @ render_field ''trace'' (resp_trace r)
     @ '','' @ render_field ''result'' (resp_result r) @ ''}''"

lemma escape_Nil [simp]: "escape [] = []"
  by (simp add: escape_def)

lemma escape_Cons [simp]: "escape (c # s) = escape_char c @ escape s"
  by (simp add: escape_def)

lemma escape_append [simp]: "escape (s @ t) = escape s @ escape t"
  by (simp add: escape_def)

text \<open>The pieces written in turn amount to one bounded write of their concatenation.\<close>

lemma append_json_escaped_emit:
  "length buf < sz \<Longrightarrow> append_json_escaped sz buf s = emit sz buf (escape s)"
proof (induction s arbitrary: buf)
  case (Cons c s)
  show ?case
    using Cons.IH by (auto simp: emit_eq)
qed (simp add: emit_Nil)

lemma append_json_field_emit:
  "append_json_field sz buf name value comma =
     emit sz buf ((if comma then '','' else []) @ render_field name value)"
  by (auto simp: append_json_field_def render_field_def emit_eq append_json_escaped_emit)

lemma response_to_json_emit:
  "0 < sz \<Longrightarrow> response_to_json r sz = emit sz [] (render_response r)"
  by (auto simp: response_to_json_def append_json_field_emit emit_bind_emit render_response_def
      emit_bind)

lemma response_to_json_eq:
  "response_to_json r sz =
     (if length (render_response r) < sz then Some (render_response r) else None)"
proof (cases "sz = 0")
  case True
  then show ?thesis by (simp add: response_to_json_def)
next
  case False
  then show ?thesis by (simp add: response_to_json_emit emit_eq)
qed

subsection \<open>Length bounds\<close>

lemma length_escape_char [cstr_len]: "1 \<le> length (escape_char c) \<and> length (escape_char c) \<le> 6"
  by (simp add: escape_char_def)

lemma length_escape [cstr_len]: "length s \<le> length (escape s) \<and> length (escape s) \<le> 6 * length s"
proof (induction s)
  case (Cons c s)
  then show ?case using length_escape_char [of c] by auto
qed simp

lemma dec_codes:
  "dec_int 0 = ''0''" "dec_int 400 = ''400''" "dec_int 401 = ''401''" "dec_int 422 = ''422''"
  "dec_int 502 = ''502''" "dec_int 503 = ''503''"
  by code_simp+

lemma length_status: "length (dec_int (status_value s)) \<le> 3"
  by (cases s) (simp_all add: dec_codes)

definition text_size :: "response_t \<Rightarrow> nat" where
  "text_size r = length (resp_request_id r) + length (resp_selected_device r)
     + length (resp_backend_name r) + length (resp_backend_call r) + length (resp_trace r)
     + length (resp_result r)"

lemma length_render_response_eq:
  "length (render_response r) = 107 + length (dec_int (status_value (resp_status r)))
      + length (escape (resp_request_id r)) + length (escape (resp_selected_device r))
      + length (escape (resp_backend_name r)) + length (escape (resp_backend_call r))
      + length (escape (resp_trace r)) + length (escape (resp_result r))"
  by (simp add: render_response_def render_field_def)

lemma length_render_response_ge: "107 + text_size r \<le> length (render_response r)"
proof -
  have "107 + 0 + length (resp_request_id r) + length (resp_selected_device r)
      + length (resp_backend_name r) + length (resp_backend_call r) + length (resp_trace r)
      + length (resp_result r) \<le> length (render_response r)"
    unfolding length_render_response_eq
    by (intro add_mono order_refl) (auto simp: length_escape)
  then show ?thesis by (simp add: text_size_def)
qed

lemma length_render_response_le: "length (render_response r) \<le> 6 * text_size r + 110"
proof -
  have "length (render_response r) \<le> 107 + 3 + 6 * length (resp_request_id r)
      + 6 * length (resp_selected_device r) + 6 * length (resp_backend_name r)
      + 6 * length (resp_backend_call r) + 6 * length (resp_trace r) + 6 * length (resp_result r)"
    unfolding length_render_response_eq
    by (intro add_mono order_refl) (auto simp: length_escape length_status)
  then show ?thesis by (simp add: text_size_def)
qed

subsection \<open>Reading it back\<close>

definition hex_digit_val :: "char \<Rightarrow> nat" where
  "hex_digit_val c = (let n = of_char c in if n \<le> 57 then n - 48 else n - 87)"

text \<open>The body of a JSON string up to its closing quote, with the escapes undone.\<close>

fun read_string :: "cstring \<Rightarrow> (cstring \<times> cstring) option" where
  "read_string [] = None"
| "read_string (c # s) =
     (if c = CHR 0x22 then Some ([], s)
      else if c = CHR 0x5C then
        (case s of
           [] \<Rightarrow> None
         | e # t \<Rightarrow>
             if e = CHR ''u'' then
               (case t of
                  h1 # h2 # h3 # h4 # u \<Rightarrow>
                    map_option (apfst (Cons (char_of (foldl (\<lambda>n h. 16 * n + hex_digit_val h) 0
                      [h1, h2, h3, h4])))) (read_string u)
                | _ \<Rightarrow> None)
             else
               map_option (apfst (Cons (if e = CHR ''n'' then CHR 0x0A
                 else if e = CHR ''r'' then CHR 0x0D
                 else if e = CHR ''t'' then CHR 0x09 else e))) (read_string t))
      else map_option (apfst (Cons c)) (read_string s))"

definition expect :: "cstring \<Rightarrow> cstring \<Rightarrow> cstring option" where
  "expect p s = (if starts_with_str s p then Some (drop (length p) s) else None)"

definition read_field :: "cstring \<Rightarrow> cstring \<Rightarrow> (cstring \<times> cstring) option" where
  "read_field name s =
     Option.bind (expect ([CHR 0x22] @ name @ [CHR 0x22, CHR '':'', CHR 0x22]) s) read_string"

definition read_status :: "cstring \<Rightarrow> (status_code_t \<times> cstring) option" where
  "read_status s =
     (case find (\<lambda>c. status_value c = int (nat_of_digits (takeWhile is_digit s)))
        [STATUS_OK, STATUS_BAD_REQUEST, STATUS_UNAUTHORIZED, STATUS_NOT_SUPPORTED,
         STATUS_BACKEND_FAIL, STATUS_NO_RESOURCE] of
        None \<Rightarrow> None | Some c \<Rightarrow> Some (c, dropWhile is_digit s))"

definition read_response :: "cstring \<Rightarrow> response_t option" where
  "read_response s =
     Option.bind (expect ''{'' s) (\<lambda>s.
     Option.bind (read_field ''request_id'' s) (\<lambda>(rid, s).
     Option.bind (expect ('','' @ [CHR 0x22] @ ''status'' @ [CHR 0x22] @ '':'') s) (\<lambda>s.
     Option.bind (read_status s) (\<lambda>(st, s).
     Option.bind (expect '','' s) (\<lambda>s. Option.bind (read_field ''selected_device'' s) (\<lambda>(dev, s).
     Option.bind (expect '','' s) (\<lambda>s. Option.bind (read_field ''backend_name'' s) (\<lambda>(nm, s).
     Option.bind (expect '','' s) (\<lambda>s. Option.bind (read_field ''backend_call'' s) (\<lambda>(cl, s).
     Option.bind (expect '','' s) (\<lambda>s. Option.bind (read_field ''trace'' s) (\<lambda>(tr, s).
     Option.bind (expect '','' s) (\<lambda>s. Option.bind (read_field ''result'' s) (\<lambda>(res, s).
     if s = ''}'' then Some \<lparr>resp_request_id = rid, resp_status = st, resp_selected_device = dev,
         resp_backend_name = nm, resp_backend_call = cl, resp_trace = tr, resp_result = res\<rparr>
     else None))))))))))))))"

lemma expect_prefix [simp]: "expect p (p @ s) = Some s"
  by (simp add: expect_def)

lemma expect_Cons [simp]: "expect (c # p) (c # s) = expect p s" "expect [] s = Some s"
  by (auto simp: expect_def starts_with_str_def)

lemma hex_char_16:
  "n < 16 \<Longrightarrow> hex_digit_val (hex_char n) = n \<and> 0x20 \<le> (of_char (hex_char n) :: nat)"
  by (auto simp: hex_char_def hex_digit_val_def Let_def take_bit_eq_mod)

lemma foldl_hex_fixed:
  "foldl (\<lambda>m h. 16 * m + hex_digit_val h) 0 (hex_fixed k n) = n mod 16 ^ k"
proof (induction k arbitrary: n)
  case (Suc k)
  then show ?case using hex_char_16 [of "n mod 16"] by (simp add: mod_mult2_eq)
qed simp

lemma hex_fixed_printable: "h \<in> set (hex_fixed k n) \<Longrightarrow> 0x20 \<le> (of_char h :: nat)"
  by (induction k arbitrary: n) (use hex_char_16 in auto)

lemma read_string_escape_char:
  "read_string (escape_char c @ s) = map_option (apfst (Cons c)) (read_string s)"
proof (cases "(of_char c :: nat) < 0x20 \<and> c \<noteq> CHR 0x0A \<and> c \<noteq> CHR 0x0D \<and> c \<noteq> CHR 0x09")
  case True
  have "length (hex_fixed 4 (of_char c)) = Suc (Suc (Suc (Suc 0)))" by simp
  then obtain h1 h2 h3 h4 where h: "hex_fixed 4 (of_char c) = [h1, h2, h3, h4]"
    unfolding length_Suc_conv length_0_conv by blast
  have f: "foldl (\<lambda>n h. 16 * n + hex_digit_val h) 0 [h1, h2, h3, h4] = of_char c"
    unfolding h [symmetric] foldl_hex_fixed using True by simp
  have "c \<noteq> CHR 0x22 \<and> c \<noteq> CHR 0x5C" using True by auto
  with True have "escape_char c = [CHR 0x5C, CHR ''u'', h1, h2, h3, h4]"
    by (simp add: escape_char_def h)
  then show ?thesis using f by simp
next
  case False
  then show ?thesis by (auto simp: escape_char_def)
qed

lemma read_string_escape: "read_string (escape v @ CHR 0x22 # s) = Some (v, s)"
  by (induction v) (simp_all add: read_string_escape_char)

lemma read_field_render [simp]: "read_field name (render_field name v @ s) = Some (v, s)"
proof -
  let ?p = "[CHR 0x22] @ name @ [CHR 0x22, CHR '':'', CHR 0x22]"
  have "render_field name v @ s = ?p @ escape v @ CHR 0x22 # s"
    by (simp add: render_field_def)
  then show ?thesis
    unfolding read_field_def using expect_prefix [of ?p] read_string_escape [of v s]
    by (metis bind.bind_lunit)
qed

lemma read_status_render [simp]:
  "read_status (dec_int (status_value st) @ CHR '','' # s) = Some (st, CHR '','' # s)"
proof -
  have "\<not> is_digit CHR '',''" by code_simp
  moreover have "list_all is_digit (dec_int (status_value st))"
    by (cases st) (simp_all add: dec_int_def dec_nat_digits)
  moreover have "int (nat_of_digits (dec_int (status_value st))) = status_value st"
    by (cases st) (simp_all add: dec_int_def)
  ultimately show ?thesis
    by (cases st) (simp_all add: read_status_def list_all_iff)
qed

lemma read_response_render: "read_response (render_response r) = Some r"
  unfolding read_response_def render_response_def by simp

lemma escape_no_control:
  "c \<in> set (escape s) \<Longrightarrow> 0x20 \<le> (of_char c :: nat)"
proof -
  have "\<forall>d \<in> set (escape_char c). 0x20 \<le> (of_char d :: nat)" for c
    by (auto simp: escape_char_def hex_fixed_printable)
  then show "c \<in> set (escape s) \<Longrightarrow> 0x20 \<le> (of_char c :: nat)" by (auto simp: escape_def)
qed

lemma render_response_no_control:
  "\<forall>c \<in> set (render_response r). 0x20 \<le> (of_char c :: nat)"
proof -
  have d: "\<forall>c \<in> set (dec_int (status_value s)). 0x20 \<le> (of_char c :: nat)" for s
    by (cases s) (simp_all add: dec_codes)
  then show ?thesis
    unfolding render_response_def render_field_def by (auto dest: escape_no_control)
qed

subsection \<open>Properties\<close>

text \<open>
  Property C31. The writer is all or nothing: it gives the complete line exactly when that
  line and its NUL fit the buffer, and fails otherwise; it never leaves a cut line behind as
  a result.
\<close>

theorem response_to_json_complete:
  "response_to_json r sz =
     (if length (render_response r) < sz then Some (render_response r) else None)"
  by (rule response_to_json_eq)

text \<open>
  Property C20. A line the writer gives is read back by a JSON reader as the same response,
  whatever bytes the texts hold (quotes, backslashes and control characters included), and
  it contains no control character, so no newline ends it early.
\<close>

theorem response_to_json_roundtrip:
  assumes "response_to_json r sz = Some t"
  shows "read_response t = Some r \<and> (\<forall>c \<in> set t. 0x20 \<le> (of_char c :: nat))"
proof -
  have t: "t = render_response r" using assms by (simp add: response_to_json_eq split: if_splits)
  show ?thesis unfolding t using read_response_render render_response_no_control by blast
qed

theorem response_to_json_roundtrip_witness:
  "read_response (render_response (zero_response \<lparr>resp_result := [CHR 0x22, CHR 0x0A, CHR 0x01]\<rparr>))
   = Some (zero_response \<lparr>resp_result := [CHR 0x22, CHR 0x0A, CHR 0x01]\<rparr>)"
proof -
  let ?r = "zero_response \<lparr>resp_result := [CHR 0x22, CHR 0x0A, CHR 0x01]\<rparr>"
  have "response_to_json ?r 2048 = Some (render_response ?r)"
    unfolding response_to_json_eq using length_render_response_le [of ?r]
    by (simp add: text_size_def zero_response_def)
  then show ?thesis using response_to_json_roundtrip by blast
qed

end
