(* ===== verification/Queue_Monitor.thy ===== *)
theory Queue_Monitor
  imports Job_Queue
begin

text \<open>
  The threads around the queue of \<^verbatim>\<open>src/server/gateway/queue.c\<close>. A thread is outside the
  queue, about to take the lock for a push or a pop (\<open>Pushing\<close>, \<open>Popping\<close>), or asleep on
  \<^verbatim>\<open>not_full\<close> or \<^verbatim>\<open>not_empty\<close>. One step is one critical section. A signal wakes one
  sleeper of its condition if there is one, a broadcast all of them, and a sleeper may also
  wake without a signal, as POSIX allows.
\<close>

subsection \<open>Threads\<close>

datatype thread_pc = Idle | Pushing job_t | Push_Asleep job_t | Popping | Pop_Asleep

record monitor_t =
  m_queue :: job_queue_t
  m_threads :: "thread_pc list"

fun is_pushing :: "thread_pc \<Rightarrow> bool" where
  "is_pushing (Pushing j) = True" | "is_pushing _ = False"

fun is_push_asleep :: "thread_pc \<Rightarrow> bool" where
  "is_push_asleep (Push_Asleep j) = True" | "is_push_asleep _ = False"

fun wake :: "thread_pc \<Rightarrow> thread_pc" where
  "wake (Push_Asleep j) = Pushing j"
| "wake Pop_Asleep = Popping"
| "wake t = t"

text \<open>\<^verbatim>\<open>pthread_cond_signal\<close> on the condition whose sleepers satisfy \<open>asleep\<close>.\<close>

inductive signal :: "(thread_pc \<Rightarrow> bool) \<Rightarrow> thread_pc list \<Rightarrow> thread_pc list \<Rightarrow> bool" for asleep where
  nobody: "list_all (\<lambda>t. \<not> asleep t) ts \<Longrightarrow> signal asleep ts ts"
| one: "i < length ts \<Longrightarrow> asleep (ts ! i) \<Longrightarrow> signal asleep ts (ts[i := wake (ts ! i)])"

inductive monitor_step :: "monitor_t \<Rightarrow> monitor_t \<Rightarrow> bool" where
  begin_push: "i < length ts \<Longrightarrow> ts ! i = Idle \<Longrightarrow>
    monitor_step \<lparr>m_queue = q, m_threads = ts\<rparr> \<lparr>m_queue = q, m_threads = ts[i := Pushing j]\<rparr>"
| begin_pop: "i < length ts \<Longrightarrow> ts ! i = Idle \<Longrightarrow>
    monitor_step \<lparr>m_queue = q, m_threads = ts\<rparr> \<lparr>m_queue = q, m_threads = ts[i := Popping]\<rparr>"
| push_wait: "i < length ts \<Longrightarrow> ts ! i = Pushing j \<Longrightarrow> queue_push q j = Wait \<Longrightarrow>
    monitor_step \<lparr>m_queue = q, m_threads = ts\<rparr> \<lparr>m_queue = q, m_threads = ts[i := Push_Asleep j]\<rparr>"
| push_stopped: "i < length ts \<Longrightarrow> ts ! i = Pushing j \<Longrightarrow> queue_push q j = Stopped \<Longrightarrow>
    monitor_step \<lparr>m_queue = q, m_threads = ts\<rparr> \<lparr>m_queue = q, m_threads = ts[i := Idle]\<rparr>"
| push_done: "i < length ts \<Longrightarrow> ts ! i = Pushing j \<Longrightarrow> queue_push q j = Returned q' \<Longrightarrow>
    signal (\<lambda>t. t = Pop_Asleep) (ts[i := Idle]) ts' \<Longrightarrow>
    monitor_step \<lparr>m_queue = q, m_threads = ts\<rparr> \<lparr>m_queue = q', m_threads = ts'\<rparr>"
| pop_wait: "i < length ts \<Longrightarrow> ts ! i = Popping \<Longrightarrow> queue_pop q = Wait \<Longrightarrow>
    monitor_step \<lparr>m_queue = q, m_threads = ts\<rparr> \<lparr>m_queue = q, m_threads = ts[i := Pop_Asleep]\<rparr>"
| pop_stopped: "i < length ts \<Longrightarrow> ts ! i = Popping \<Longrightarrow> queue_pop q = Stopped \<Longrightarrow>
    monitor_step \<lparr>m_queue = q, m_threads = ts\<rparr> \<lparr>m_queue = q, m_threads = ts[i := Idle]\<rparr>"
| pop_done: "i < length ts \<Longrightarrow> ts ! i = Popping \<Longrightarrow> queue_pop q = Returned (j, q') \<Longrightarrow>
    signal is_push_asleep (ts[i := Idle]) ts' \<Longrightarrow>
    monitor_step \<lparr>m_queue = q, m_threads = ts\<rparr> \<lparr>m_queue = q', m_threads = ts'\<rparr>"
| spurious: "i < length ts \<Longrightarrow>
    monitor_step \<lparr>m_queue = q, m_threads = ts\<rparr> \<lparr>m_queue = q, m_threads = ts[i := wake (ts ! i)]\<rparr>"
| stop: "monitor_step \<lparr>m_queue = q, m_threads = ts\<rparr>
    \<lparr>m_queue = queue_stop q, m_threads = map wake ts\<rparr>"

definition monitor_init :: "nat \<Rightarrow> monitor_t" where
  "monitor_init n = \<lparr>m_queue = queue_init, m_threads = replicate n Idle\<rparr>"

inductive monitor_reachable :: "nat \<Rightarrow> monitor_t \<Rightarrow> bool" for n where
  start: "monitor_reachable n (monitor_init n)"
| step: "monitor_reachable n m \<Longrightarrow> monitor_step m m' \<Longrightarrow> monitor_reachable n m'"

subsection \<open>Counting threads\<close>

definition num :: "('a \<Rightarrow> bool) \<Rightarrow> 'a list \<Rightarrow> nat" where
  "num p ts = length (filter p ts)"

lemma num_update:
  assumes "i < length ts"
  shows "num p (ts[i := x]) + of_bool (p (ts ! i)) = num p ts + of_bool (p x)"
proof -
  have "num p ts = num p (take i ts @ ts ! i # drop (Suc i) ts)"
    using id_take_nth_drop [OF assms] by simp
  then show ?thesis by (simp add: num_def upd_conv_take_nth_drop [OF assms])
qed

lemma num_pos_iff: "0 < num p ts \<longleftrightarrow> (\<exists>t \<in> set ts. p t)"
  by (auto simp: num_def filter_empty_conv)

lemma num_eq_0_iff: "num p ts = 0 \<longleftrightarrow> (\<forall>t \<in> set ts. \<not> p t)"
  by (auto simp: num_def filter_empty_conv)

lemma num_replicate [simp]: "num p (replicate n x) = (if p x then n else 0)"
  by (simp add: num_def)

lemma num_map_wake: "(\<And>t. \<not> p (wake t)) \<Longrightarrow> num p (map wake ts) = 0"
  by (simp add: num_eq_0_iff)

lemma wake_awake [simp]: "wake t \<noteq> Pop_Asleep" "\<not> is_push_asleep (wake t)"
  by (cases t; simp)+

subsection \<open>No wake-up is lost\<close>

text \<open>
  While somebody sleeps on a condition, at least as many threads are on their way to the lock
  for that operation as there are jobs (or free places) for them.
\<close>

definition monitor_inv :: "monitor_t \<Rightarrow> bool" where
  "monitor_inv m \<longleftrightarrow>
     wf_queue (m_queue m)
     \<and> (0 < num (\<lambda>t. t = Pop_Asleep) (m_threads m) \<longrightarrow>
          \<not> q_stop (m_queue m) \<and> q_count (m_queue m) \<le> num (\<lambda>t. t = Popping) (m_threads m))
     \<and> (0 < num is_push_asleep (m_threads m) \<longrightarrow>
          \<not> q_stop (m_queue m)
          \<and> MAX_QUEUE_DEPTH \<le> q_count (m_queue m) + num is_pushing (m_threads m))"

lemma signal_num:
  assumes "signal asleep ts ts'"
  shows "(num asleep ts = 0 \<and> ts' = ts) \<or>
    (\<exists>i. i < length ts \<and> asleep (ts ! i) \<and> ts' = ts[i := wake (ts ! i)])"
  using assms by cases (auto simp: num_eq_0_iff list_all_iff)

lemma queue_push_Returned:
  "queue_push q j = Returned q' \<Longrightarrow>
     \<not> q_stop q \<and> \<not> q_stop q' \<and> q_count q' = q_count q + 1 \<and> q_count q < MAX_QUEUE_DEPTH"
  by (auto simp: queue_push_def split: if_splits)

lemma queue_pop_Returned:
  "queue_pop q = Returned (j, q') \<Longrightarrow>
     q_stop q' = q_stop q \<and> q_count q = q_count q' + 1"
  by (auto simp: queue_pop_def split: if_splits)

lemma monitor_inv_init: "monitor_inv (monitor_init n)"
  by (simp add: monitor_inv_def monitor_init_def wf_queue_init)

lemma push_done_num:
  assumes "i < length ts" "ts ! i = Pushing j" "signal (\<lambda>t. t = Pop_Asleep) (ts[i := Idle]) ts'"
  shows "num is_push_asleep ts' = num is_push_asleep ts"
    "num is_pushing ts' + 1 = num is_pushing ts"
    "num (\<lambda>t. t = Pop_Asleep) ts' = 0 \<and> num (\<lambda>t. t = Pop_Asleep) ts = 0 \<or>
     num (\<lambda>t. t = Pop_Asleep) ts' + 1 = num (\<lambda>t. t = Pop_Asleep) ts \<and>
     num (\<lambda>t. t = Popping) ts' = num (\<lambda>t. t = Popping) ts + 1"
proof -
  have u: "num p (ts[i := Idle]) + of_bool (p (Pushing j)) = num p ts + of_bool (p Idle)" for p
    using num_update [OF assms(1), of p Idle] assms(2) by simp
  have w: "num p (ts[i := Idle, k := wake Pop_Asleep]) + of_bool (p Pop_Asleep)
      = num p (ts[i := Idle]) + of_bool (p Popping)"
    if "k < length ts" "ts[i := Idle] ! k = Pop_Asleep" for p k
    using num_update [of k "ts[i := Idle]" p Popping] that by simp
  from signal_num [OF assms(3)] consider
      "num (\<lambda>t. t = Pop_Asleep) (ts[i := Idle]) = 0" "ts' = ts[i := Idle]"
    | k where "k < length ts" "ts[i := Idle] ! k = Pop_Asleep" "ts' = ts[i := Idle, k := wake Pop_Asleep]"
    by auto
  note cases = this
  show "num is_push_asleep ts' = num is_push_asleep ts"
    using cases w [of _ is_push_asleep] u [of is_push_asleep] by cases auto
  show "num is_pushing ts' + 1 = num is_pushing ts"
    using cases w [of _ is_pushing] u [of is_pushing] by cases auto
  show "num (\<lambda>t. t = Pop_Asleep) ts' = 0 \<and> num (\<lambda>t. t = Pop_Asleep) ts = 0 \<or>
     num (\<lambda>t. t = Pop_Asleep) ts' + 1 = num (\<lambda>t. t = Pop_Asleep) ts \<and>
     num (\<lambda>t. t = Popping) ts' = num (\<lambda>t. t = Popping) ts + 1"
    using cases w [of _ "\<lambda>t. t = Pop_Asleep"] u [of "\<lambda>t. t = Pop_Asleep"]
      w [of _ "\<lambda>t. t = Popping"] u [of "\<lambda>t. t = Popping"]
    by cases auto
qed

lemma pop_done_num:
  assumes "i < length ts" "ts ! i = Popping" "signal is_push_asleep (ts[i := Idle]) ts'"
  shows "num (\<lambda>t. t = Pop_Asleep) ts' = num (\<lambda>t. t = Pop_Asleep) ts"
    "num (\<lambda>t. t = Popping) ts' + 1 = num (\<lambda>t. t = Popping) ts"
    "num is_push_asleep ts' = 0 \<and> num is_push_asleep ts = 0 \<or>
     num is_push_asleep ts' + 1 = num is_push_asleep ts \<and>
     num is_pushing ts' = num is_pushing ts + 1"
proof -
  have u: "num p (ts[i := Idle]) + of_bool (p Popping) = num p ts + of_bool (p Idle)" for p
    using num_update [OF assms(1), of p Idle] assms(2) by simp
  have w: "num p (ts[i := Idle, k := Pushing j]) + of_bool (p (Push_Asleep j))
      = num p (ts[i := Idle]) + of_bool (p (Pushing j))"
    if "k < length ts" "ts[i := Idle] ! k = Push_Asleep j" for p k j
    using num_update [of k "ts[i := Idle]" p "Pushing j"] that by simp
  have sleeper: "is_push_asleep t \<Longrightarrow> \<exists>j. t = Push_Asleep j" for t by (cases t) auto
  from signal_num [OF assms(3)] consider
      "num is_push_asleep (ts[i := Idle]) = 0" "ts' = ts[i := Idle]"
    | k j where "k < length ts" "ts[i := Idle] ! k = Push_Asleep j" "ts' = ts[i := Idle, k := Pushing j]"
    using sleeper by fastforce
  note cases = this
  show "num (\<lambda>t. t = Pop_Asleep) ts' = num (\<lambda>t. t = Pop_Asleep) ts"
    using cases w [of _ _ "\<lambda>t. t = Pop_Asleep"] u [of "\<lambda>t. t = Pop_Asleep"] by cases auto
  show "num (\<lambda>t. t = Popping) ts' + 1 = num (\<lambda>t. t = Popping) ts"
    using cases w [of _ _ "\<lambda>t. t = Popping"] u [of "\<lambda>t. t = Popping"] by cases auto
  show "num is_push_asleep ts' = 0 \<and> num is_push_asleep ts = 0 \<or>
     num is_push_asleep ts' + 1 = num is_push_asleep ts \<and>
     num is_pushing ts' = num is_pushing ts + 1"
    using cases w [of _ _ is_push_asleep] u [of is_push_asleep]
      w [of _ _ is_pushing] u [of is_pushing]
    by cases auto
qed

lemma monitor_inv_step:
  assumes "monitor_step m m'" and "monitor_inv m"
  shows "monitor_inv m'"
  using assms
proof (induction rule: monitor_step.induct)
  case (begin_push i ts q j)
  then show ?case
    using num_update [OF begin_push(1), of "\<lambda>t. t = Pop_Asleep" "Pushing j"]
      num_update [OF begin_push(1), of "\<lambda>t. t = Popping" "Pushing j"]
      num_update [OF begin_push(1), of is_push_asleep "Pushing j"]
      num_update [OF begin_push(1), of is_pushing "Pushing j"]
    by (auto simp: monitor_inv_def)
next
  case (begin_pop i ts q)
  then show ?case
    using num_update [OF begin_pop(1), of "\<lambda>t. t = Pop_Asleep" Popping]
      num_update [OF begin_pop(1), of "\<lambda>t. t = Popping" Popping]
      num_update [OF begin_pop(1), of is_push_asleep Popping]
      num_update [OF begin_pop(1), of is_pushing Popping]
    by (auto simp: monitor_inv_def)
next
  case (push_wait i ts j q)
  then have "\<not> q_stop q" "MAX_QUEUE_DEPTH \<le> q_count q"
    by (auto simp: queue_push_def split: if_splits)
  then show ?case
    using push_wait num_update [OF push_wait(1), of "\<lambda>t. t = Pop_Asleep" "Push_Asleep j"]
      num_update [OF push_wait(1), of "\<lambda>t. t = Popping" "Push_Asleep j"]
    by (simp add: monitor_inv_def)
next
  case (push_stopped i ts j q)
  then have "q_stop q" by (auto simp: queue_push_def split: if_splits)
  then show ?case
    using push_stopped num_update [OF push_stopped(1), of "\<lambda>t. t = Pop_Asleep" Idle]
      num_update [OF push_stopped(1), of is_push_asleep Idle]
    by (simp add: monitor_inv_def)
next
  case (push_done i ts j q q' ts')
  then show ?case
    using queue_push_Returned [OF push_done(3)] queue_push_wf [OF push_done(3)]
      push_done_num [OF push_done(1,2,4)]
    by (auto simp: monitor_inv_def)
next
  case (pop_wait i ts q)
  then have "\<not> q_stop q" "q_count q = 0" by (auto simp: queue_pop_def split: if_splits)
  then show ?case
    using pop_wait num_update [OF pop_wait(1), of is_push_asleep Pop_Asleep]
      num_update [OF pop_wait(1), of is_pushing Pop_Asleep]
    by (simp add: monitor_inv_def)
next
  case (pop_stopped i ts q)
  then have "q_stop q" by (auto simp: queue_pop_def split: if_splits)
  then show ?case
    using pop_stopped num_update [OF pop_stopped(1), of "\<lambda>t. t = Pop_Asleep" Idle]
      num_update [OF pop_stopped(1), of is_push_asleep Idle]
    by (simp add: monitor_inv_def)
next
  case (pop_done i ts q j q' ts')
  then show ?case
    using queue_pop_Returned [OF pop_done(3)] queue_pop_wf [OF pop_done(3)]
      pop_done_num [OF pop_done(1,2,4)]
    by (auto simp: monitor_inv_def)
next
  case (spurious i ts q)
  then show ?case
    using num_update [OF spurious(1), of "\<lambda>t. t = Pop_Asleep" "wake (ts ! i)"]
      num_update [OF spurious(1), of "\<lambda>t. t = Popping" "wake (ts ! i)"]
      num_update [OF spurious(1), of is_push_asleep "wake (ts ! i)"]
      num_update [OF spurious(1), of is_pushing "wake (ts ! i)"]
    by (cases "ts ! i") (auto simp: monitor_inv_def)
next
  case (stop q ts)
  then show ?case by (simp add: monitor_inv_def wf_queue_stop num_map_wake)
qed

lemma monitor_reachable_inv: "monitor_reachable n m \<Longrightarrow> monitor_inv m"
  by (induction rule: monitor_reachable.induct) (blast intro: monitor_inv_init monitor_inv_step)+

lemma member_num: "i < length ts \<Longrightarrow> p (ts ! i) \<Longrightarrow> 0 < num p ts"
  using num_pos_iff nth_mem by metis

subsection \<open>Properties\<close>

text \<open>
  Property C14. The queue is a bounded FIFO for every interleaving of completed operations and
  a close at any time: what has been delivered is, in order, the front of what was accepted,
  the rest is in the ring, which never holds more than \<open>MAX_QUEUE_DEPTH\<close> jobs, and once a pop
  returns \<open>-1\<close> every accepted job has been delivered.
\<close>

theorem queue_is_bounded_fifo:
  assumes "jobs.history q accepted delivered"
  shows "accepted = delivered @ queue_contents q
    \<and> length accepted \<le> length delivered + MAX_QUEUE_DEPTH
    \<and> (queue_pop q = Stopped \<longrightarrow> delivered = accepted)"
  using jobs.history_fifo [OF assms] jobs.history_bounded [OF assms] jobs.drained [OF assms]
  by blast

theorem queue_is_bounded_fifo_witness:
  "\<exists>q. jobs.history q [zero_job] [] \<and> [zero_job] = [] @ queue_contents q"
proof -
  have "\<exists>q. queue_push queue_init zero_job = Returned q"
    by (simp add: queue_push_def queue_init_def size_defs)
  then obtain q where q: "queue_push queue_init zero_job = Returned q" ..
  have h: "jobs.history q [zero_job] []"
    using jobs.history.pushed [OF jobs.history.start q] by simp
  from queue_is_bounded_fifo [OF h] h show ?thesis by blast
qed

text \<open>
  Property C13. No wake-up is lost: whenever a worker sleeps in \<^verbatim>\<open>queue_pop\<close> while jobs wait,
  some other thread is awake on its way into \<^verbatim>\<open>queue_pop\<close> and will get a job; the same for
  a sleeping \<^verbatim>\<open>queue_push\<close> and a free place; and after \<^verbatim>\<open>queue_stop\<close> nobody sleeps.
\<close>

theorem no_lost_wakeup:
  assumes "monitor_reachable n m"
  shows "(Pop_Asleep \<in> set (m_threads m) \<and> queue_contents (m_queue m) \<noteq> [] \<longrightarrow>
      Popping \<in> set (m_threads m) \<and> (\<exists>j q'. queue_pop (m_queue m) = Returned (j, q')))
    \<and> (\<forall>j. Push_Asleep j \<in> set (m_threads m)
          \<and> length (queue_contents (m_queue m)) < MAX_QUEUE_DEPTH \<longrightarrow>
        (\<exists>k q'. Pushing k \<in> set (m_threads m) \<and> queue_push (m_queue m) k = Returned q'))
    \<and> (q_stop (m_queue m) \<longrightarrow>
        Pop_Asleep \<notin> set (m_threads m) \<and> (\<forall>j. Push_Asleep j \<notin> set (m_threads m)))"
proof -
  let ?q = "m_queue m" and ?ts = "m_threads m"
  have inv: "monitor_inv m" using monitor_reachable_inv [OF assms] .
  have pop: "\<not> q_stop ?q \<and> q_count ?q \<le> num (\<lambda>t. t = Popping) ?ts" if "Pop_Asleep \<in> set ?ts"
    using inv that num_pos_iff [of "\<lambda>t. t = Pop_Asleep" ?ts] by (auto simp: monitor_inv_def)
  have push: "\<not> q_stop ?q \<and> MAX_QUEUE_DEPTH \<le> q_count ?q + num is_pushing ?ts"
    if "Push_Asleep j \<in> set ?ts" for j
    using inv that num_pos_iff [of is_push_asleep ?ts]
    by (force simp: monitor_inv_def)
  have nonempty: "queue_contents ?q \<noteq> [] \<longleftrightarrow> q_count ?q \<noteq> 0"
    unfolding length_queue_contents [symmetric] length_0_conv ..
  have pushing: "is_pushing t \<Longrightarrow> \<exists>k. t = Pushing k" for t by (cases t) auto
  have "Popping \<in> set ?ts \<and> (\<exists>j q'. queue_pop ?q = Returned (j, q'))"
    if "Pop_Asleep \<in> set ?ts" "queue_contents ?q \<noteq> []"
    using pop that nonempty num_pos_iff [of "\<lambda>t. t = Popping" ?ts] by (auto simp: queue_pop_def)
  moreover have "\<exists>k q'. Pushing k \<in> set ?ts \<and> queue_push ?q k = Returned q'"
    if "Push_Asleep j \<in> set ?ts" "length (queue_contents ?q) < MAX_QUEUE_DEPTH" for j
  proof -
    have "0 < num is_pushing ?ts" using push that by fastforce
    then obtain k where "Pushing k \<in> set ?ts" using num_pos_iff pushing by metis
    then show ?thesis using push [OF that(1)] that(2) by (auto simp: queue_push_def)
  qed
  ultimately show ?thesis using pop push by blast
qed

theorem no_lost_wakeup_witness:
  "\<exists>m. monitor_reachable 1 m \<and> m_threads m = [Pop_Asleep] \<and> queue_contents (m_queue m) = []
     \<and> \<not> q_stop (m_queue m)"
proof -
  have "monitor_step (monitor_init 1) \<lparr>m_queue = queue_init, m_threads = [Popping]\<rparr>"
    using monitor_step.begin_pop [of 0 "[Idle]" queue_init] by (simp add: monitor_init_def)
  then have 1: "monitor_reachable 1 \<lparr>m_queue = queue_init, m_threads = [Popping]\<rparr>"
    by (rule monitor_reachable.step [OF monitor_reachable.start])
  have "queue_pop queue_init = Wait" by (simp add: queue_pop_def queue_init_def)
  then have "monitor_step \<lparr>m_queue = queue_init, m_threads = [Popping]\<rparr>
      \<lparr>m_queue = queue_init, m_threads = [Pop_Asleep]\<rparr>"
    using monitor_step.pop_wait [of 0 "[Popping]" queue_init] by simp
  with 1 have 2: "monitor_reachable 1 \<lparr>m_queue = queue_init, m_threads = [Pop_Asleep]\<rparr>"
    by (rule monitor_reachable.step)
  from no_lost_wakeup [OF 2] 2 show ?thesis
    by (intro exI [of _ "\<lparr>m_queue = queue_init, m_threads = [Pop_Asleep]\<rparr>"])
      (auto simp: queue_init_contents)
qed

end
