(* ===== verification/Registry.thy ===== *)
theory Registry
  imports Common_Types "HOL-Library.Product_Lexorder" "HOL-Library.Multiset"
begin

text \<open>
  \<^verbatim>\<open>src/server/service/resource.c\<close>: the registry of devices, the choice of a device for a
  call and the in-flight counters. A device pointer of the code is an index of the registry's
  array. An \<^verbatim>\<open>int\<close> counter is an \<open>int\<close>: it is only incremented below \<^verbatim>\<open>max_inflight\<close> and
  only decremented above 0, so it stays in range. The choice is specified as the least key of
  a lexicographic order; the counters as a pool of leases (a locale interpreted on the
  registry).
\<close>

subsection \<open>Devices\<close>

record capability_t =
  cap_domain :: api_domain_t
  cap_action :: api_action_t
  cap_algorithm :: cstring
  key_source_mask :: "32 word"

record device_resource_t =
  device_id :: cstring
  device_type :: device_type_t
  backend_profile :: cstring
  priority :: int
  enabled :: bool
  max_inflight :: int
  inflight :: int
  security_score :: int
  efficiency_score :: int
  caps :: "capability_t list"

text \<open>The used part of the array \<^verbatim>\<open>devices\<close>; \<^verbatim>\<open>count\<close> is its length.\<close>

type_synonym resource_registry_t = "device_resource_t list"

definition registry_init :: resource_registry_t where
  "registry_init = []"

definition registry_add :: "resource_registry_t \<Rightarrow> device_resource_t \<Rightarrow> resource_registry_t option" where
  "registry_add reg d = (if MAX_DEVICES \<le> length reg then None else Some (reg @ [d]))"

fun registry_find_from :: "nat \<Rightarrow> resource_registry_t \<Rightarrow> cstring \<Rightarrow> nat option" where
  "registry_find_from i [] did = None"
| "registry_find_from i (d # ds) did =
     (if strcmp (device_id d) did = 0 then Some i else registry_find_from (i + 1) ds did)"

definition registry_find_by_id :: "resource_registry_t \<Rightarrow> cstring \<Rightarrow> nat option" where
  "registry_find_by_id reg did = registry_find_from 0 reg did"

text \<open>
  The body of the loop of \<^verbatim>\<open>device_supports\<close> on one capability. \<open>key_source\<close> is below 32 in
  every call (\<^verbatim>\<open>scheduler.c\<close> accepts 1 to 4), so the shift is defined.
\<close>

definition capability_matches ::
  "capability_t \<Rightarrow> api_domain_t \<Rightarrow> api_action_t \<Rightarrow> cstring \<Rightarrow> nat \<Rightarrow> bool" where
  "capability_matches c dm act alg key_source \<longleftrightarrow>
     (if cap_domain c \<noteq> dm then False
      else if cap_action c \<noteq> act then False
      else if \<not> (strcmp (cap_algorithm c) alg = 0 \<or> strcmp (cap_algorithm c) ''auto'' = 0) then False
      else if key_source \<noteq> 0 \<and> and (key_source_mask c) (push_bit key_source 1) = 0 then False
      else True)"

definition device_supports ::
  "device_resource_t \<Rightarrow> api_domain_t \<Rightarrow> api_action_t \<Rightarrow> cstring \<Rightarrow> nat \<Rightarrow> bool" where
  "device_supports d dm act alg key_source \<longleftrightarrow>
     list_ex (\<lambda>c. capability_matches c dm act alg key_source) (caps d)"

fun better_candidate ::
  "device_resource_t option \<Rightarrow> device_resource_t \<Rightarrow> preference_t \<Rightarrow> bool" where
  "better_candidate None cand pref = True"
| "better_candidate (Some best) cand pref =
     (if pref = PREF_SECURE \<and> security_score cand \<noteq> security_score best
      then security_score best < security_score cand
      else if pref = PREF_EFFICIENT \<and> efficiency_score cand \<noteq> efficiency_score best
      then efficiency_score best < efficiency_score cand
      else if priority cand \<noteq> priority best then priority cand < priority best
      else if inflight cand \<noteq> inflight best then inflight cand < inflight best
      else strcmp (device_id cand) (device_id best) < 0)"

text \<open>The query a caller makes: the arguments of \<^verbatim>\<open>registry_acquire_candidate\<close> but the registry.\<close>

record acquire_query_t =
  aq_domain :: api_domain_t
  aq_action :: api_action_t
  aq_algorithm :: cstring
  aq_device_hint :: cstring
  aq_key_source :: nat
  aq_preference :: preference_t
  aq_fallback_order :: "device_type_t list"

definition hint_usable :: "acquire_query_t \<Rightarrow> device_resource_t \<Rightarrow> bool" where
  "hint_usable q d \<longleftrightarrow> strcmp (device_id d) (aq_device_hint q) = 0 \<and> enabled d
     \<and> inflight d < max_inflight d
     \<and> device_supports d (aq_domain q) (aq_action q) (aq_algorithm q) (aq_key_source q)"

definition usable :: "acquire_query_t \<Rightarrow> device_type_t \<Rightarrow> device_resource_t \<Rightarrow> bool" where
  "usable q ty d \<longleftrightarrow>
     (if \<not> enabled d then False
      else if ty \<noteq> DEV_UNKNOWN \<and> device_type d \<noteq> ty then False
      else if max_inflight d \<le> inflight d then False
      else if \<not> device_supports d (aq_domain q) (aq_action q) (aq_algorithm q) (aq_key_source q) then False
      else True)"

text \<open>The scan of the devices for the best one: the inner loop, from index \<open>i\<close> on.\<close>

fun scan_best ::
  "('d \<Rightarrow> bool) \<Rightarrow> ('d option \<Rightarrow> 'd \<Rightarrow> bool) \<Rightarrow> nat \<Rightarrow> 'd list \<Rightarrow> (nat \<times> 'd) option \<Rightarrow> (nat \<times> 'd) option"
where
  "scan_best ok better i [] best = best"
| "scan_best ok better i (d # ds) best =
     scan_best ok better (i + 1) ds
       (if \<not> ok d then best
        else if better (map_option snd best) d then Some (i, d)
        else best)"

fun first_index :: "('d \<Rightarrow> bool) \<Rightarrow> nat \<Rightarrow> 'd list \<Rightarrow> nat option" where
  "first_index p i [] = None"
| "first_index p i (d # ds) = (if p d then Some i else first_index p (i + 1) ds)"

fun acquire_in_order :: "resource_registry_t \<Rightarrow> acquire_query_t \<Rightarrow> device_type_t list \<Rightarrow> nat option" where
  "acquire_in_order reg q [] = None"
| "acquire_in_order reg q (ty # tys) =
     (case scan_best (usable q ty) (\<lambda>b c. better_candidate b c (aq_preference q)) 0 reg None of
        Some (i, d) \<Rightarrow> Some i
      | None \<Rightarrow> acquire_in_order reg q tys)"

definition bump :: "resource_registry_t \<Rightarrow> nat \<Rightarrow> resource_registry_t" where
  "bump reg i = reg[i := (reg ! i) \<lparr> inflight := inflight (reg ! i) + 1 \<rparr>]"

definition registry_acquire_candidate ::
  "resource_registry_t \<Rightarrow> acquire_query_t \<Rightarrow> (resource_registry_t \<times> nat) option" where
  "registry_acquire_candidate reg q =
     (if aq_device_hint q \<noteq> []
      then (case first_index (hint_usable q) 0 reg of
              Some i \<Rightarrow> Some (bump reg i, i)
            | None \<Rightarrow> None)
      else (case acquire_in_order reg q (aq_fallback_order q) of
              Some i \<Rightarrow> Some (bump reg i, i)
            | None \<Rightarrow> None))"

fun registry_release :: "resource_registry_t \<Rightarrow> cstring \<Rightarrow> resource_registry_t" where
  "registry_release [] did = []"
| "registry_release (d # ds) did =
     (if strcmp (device_id d) did = 0
      then (if 0 < inflight d then d \<lparr> inflight := inflight d - 1 \<rparr> else d) # ds
      else d # registry_release ds did)"

subsection \<open>Capabilities\<close>

lemma mask_bit: "and (m :: 32 word) (push_bit n 1) = 0 \<longleftrightarrow> \<not> bit m n"
  using bit_iff_and_push_bit_not_eq_0 [of m n] by blast

lemma capability_matches_iff:
  "capability_matches c dm act alg ks \<longleftrightarrow> cap_domain c = dm \<and> cap_action c = act
     \<and> cap_algorithm c \<in> {alg, ''auto''} \<and> (ks = 0 \<or> bit (key_source_mask c) ks)"
  unfolding capability_matches_def mask_bit strcmp_eq_0 by auto

lemma device_supports_iff:
  "device_supports d dm act alg ks \<longleftrightarrow> (\<exists>c \<in> set (caps d). capability_matches c dm act alg ks)"
  by (auto simp: device_supports_def list_ex_iff)

lemma device_supports_inflight [simp]:
  "device_supports (d \<lparr> inflight := n \<rparr>) dm act alg ks = device_supports d dm act alg ks"
  by (simp add: device_supports_def)

lemma usable_iff:
  "usable q ty d \<longleftrightarrow> enabled d \<and> (ty = DEV_UNKNOWN \<or> device_type d = ty) \<and> inflight d < max_inflight d
     \<and> device_supports d (aq_domain q) (aq_action q) (aq_algorithm q) (aq_key_source q)"
  by (auto simp: usable_def)

subsection \<open>The best candidate\<close>

text \<open>
  A scan that keeps a candidate only when it is strictly better, where "better" compares keys
  of a linear order: it ends with the first candidate of least key.
\<close>

locale best_scan =
  fixes better :: "'d option \<Rightarrow> 'd \<Rightarrow> bool" and key :: "'d \<Rightarrow> 'k :: linorder"
  assumes better_None: "better None c"
    and better_Some: "better (Some b) c \<longleftrightarrow> key c < key b"
begin

definition is_best :: "('d \<Rightarrow> bool) \<Rightarrow> 'd list \<Rightarrow> nat \<Rightarrow> bool" where
  "is_best ok ds i \<longleftrightarrow> i < length ds \<and> ok (ds ! i) \<and>
     (\<forall>j < length ds. ok (ds ! j) \<longrightarrow> key (ds ! i) \<le> key (ds ! j) \<and> (j < i \<longrightarrow> key (ds ! i) < key (ds ! j)))"

lemma scan_best_from:
  assumes "case best of None \<Rightarrow> \<forall>j < length xs. \<not> ok (xs ! j)
     | Some (i, d) \<Rightarrow> is_best ok xs i \<and> d = xs ! i"
  shows "case scan_best ok better (length xs) ys best of
       None \<Rightarrow> \<forall>j < length (xs @ ys). \<not> ok ((xs @ ys) ! j)
     | Some (i, d) \<Rightarrow> is_best ok (xs @ ys) i \<and> d = (xs @ ys) ! i"
  using assms
proof (induction ys arbitrary: xs best)
  case Nil
  then show ?case by (auto split: option.splits)
next
  case (Cons y ys)
  let ?best = "if \<not> ok y then best else if better (map_option snd best) y then Some (length xs, y) else best"
  have "case ?best of None \<Rightarrow> \<forall>j < length (xs @ [y]). \<not> ok ((xs @ [y]) ! j)
     | Some (i, d) \<Rightarrow> is_best ok (xs @ [y]) i \<and> d = (xs @ [y]) ! i"
  proof (cases best)
    case None
    with Cons.prems show ?thesis
      by (auto simp: better_None is_best_def nth_append less_Suc_eq)
  next
    case (Some p)
    obtain i d where p: "p = (i, d)" by fastforce
    from Cons.prems Some p have i: "is_best ok xs i" "d = xs ! i" by auto
    show ?thesis
    proof (cases "ok y \<and> key y < key d")
      case True
      with i have "is_best ok (xs @ [y]) (length xs)"
        by (force simp: is_best_def nth_append less_Suc_eq)
      with True Some p show ?thesis by (simp add: better_Some)
    next
      case False
      with i have "is_best ok (xs @ [y]) i"
        by (auto simp: is_best_def nth_append less_Suc_eq not_less)
      with False Some p i show ?thesis
        by (auto simp: better_Some is_best_def nth_append)
    qed
  qed
  from Cons.IH [OF this] show ?case
    unfolding append_assoc append_Cons append_Nil scan_best.simps
    by (simp only: length_append list.size One_nat_def add_0)
qed

lemma scan_best_spec:
  "case scan_best ok better 0 ds None of
     None \<Rightarrow> \<forall>d \<in> set ds. \<not> ok d
   | Some (i, d) \<Rightarrow> is_best ok ds i \<and> d = ds ! i"
  using scan_best_from [where best = None and xs = "[]" and ys = ds and ok = ok]
  by (auto simp: in_set_conv_nth split: option.splits)

lemma is_best_unique: "is_best ok ds i \<Longrightarrow> is_best ok ds j \<Longrightarrow> i = j"
  unfolding is_best_def by (metis linorder_neqE_nat not_less)

end

text \<open>The order of the candidates: preference score, priority, load, name.\<close>

definition preference_score :: "preference_t \<Rightarrow> device_resource_t \<Rightarrow> int" where
  "preference_score pref d =
     (if pref = PREF_SECURE then security_score d
      else if pref = PREF_EFFICIENT then efficiency_score d else 0)"

definition candidate_key ::
  "preference_t \<Rightarrow> device_resource_t \<Rightarrow> int \<times> int \<times> int \<times> cstring" where
  "candidate_key pref d = (- preference_score pref d, priority d, inflight d, device_id d)"

interpretation candidates: best_scan "\<lambda>b c. better_candidate b c pref" "candidate_key pref" for pref
  by unfold_locales (auto simp: candidate_key_def preference_score_def less_prod_def')


lemma first_index_Some:
  "first_index p n ds = Some i \<longleftrightarrow>
     (\<exists>k. i = n + k \<and> k < length ds \<and> p (ds ! k) \<and> (\<forall>j < k. \<not> p (ds ! j)))"
proof (induction ds arbitrary: n i)
  case (Cons d ds)
  show ?case
  proof (cases "p d")
    case True
    then show ?thesis by (auto simp: less_Suc_eq_0_disj nth_Cons' intro: exI [of _ 0])
  next
    case False
    have "(\<exists>k. i = n + 1 + k \<and> k < length ds \<and> p (ds ! k) \<and> (\<forall>j < k. \<not> p (ds ! j))) \<longleftrightarrow>
        (\<exists>k. i = n + k \<and> k < length (d # ds) \<and> p ((d # ds) ! k) \<and> (\<forall>j < k. \<not> p ((d # ds) ! j)))"
      (is "?l = ?r")
    proof
      assume ?l
      then obtain k where "i = n + 1 + k" "k < length ds" "p (ds ! k)" "\<forall>j < k. \<not> p (ds ! j)"
        by blast
      with False show ?r
        by (intro exI [of _ "Suc k"]) (auto simp: less_Suc_eq_0_disj)
    next
      assume ?r
      then obtain k where k: "i = n + k" "k < length (d # ds)" "p ((d # ds) ! k)"
        "\<forall>j < k. \<not> p ((d # ds) ! j)" by blast
      then obtain m where "k = Suc m" using False by (cases k) auto
      with k show ?l by (intro exI [of _ m]) force
    qed
    with False Cons.IH [of "n + 1" i] show ?thesis by simp
  qed
qed simp

lemma first_index_None: "first_index p n ds = None \<longleftrightarrow> (\<forall>d \<in> set ds. \<not> p d)"
  by (induction ds arbitrary: n) auto

subsection \<open>What an acquisition returns\<close>

text \<open>
  The choice without a hint: the first device type of the fallback order that has a usable
  device, and there the one of least key.
\<close>

definition chosen_in_order :: "resource_registry_t \<Rightarrow> acquire_query_t \<Rightarrow> nat \<Rightarrow> nat \<Rightarrow> bool" where
  "chosen_in_order reg q k i \<longleftrightarrow>
     k < length (aq_fallback_order q)
     \<and> (\<forall>l < k. \<forall>d \<in> set reg. \<not> usable q (aq_fallback_order q ! l) d)
     \<and> candidates.is_best (aq_preference q) (usable q (aq_fallback_order q ! k)) reg i"

lemma acquire_in_order_spec:
  "case acquire_in_order reg q tys of
     None \<Rightarrow> \<forall>ty \<in> set tys. \<forall>d \<in> set reg. \<not> usable q ty d
   | Some i \<Rightarrow> (\<exists>k < length tys. (\<forall>l < k. \<forall>d \<in> set reg. \<not> usable q (tys ! l) d)
       \<and> candidates.is_best (aq_preference q) (usable q (tys ! k)) reg i)"
proof (induction tys)
  case (Cons ty tys)
  let ?scan = "scan_best (usable q ty) (\<lambda>b c. better_candidate b c (aq_preference q)) 0 reg None"
  show ?case
  proof (cases ?scan)
    case None
    then have no: "\<forall>d \<in> set reg. \<not> usable q ty d"
      using candidates.scan_best_spec [where ok = "usable q ty" and pref = "aq_preference q" and ds = reg] by simp
    show ?thesis
    proof (cases "acquire_in_order reg q tys")
      case (Some i)
      with Cons obtain k where "k < length tys" "\<forall>l < k. \<forall>d \<in> set reg. \<not> usable q (tys ! l) d"
        "candidates.is_best (aq_preference q) (usable q (tys ! k)) reg i" by auto
      with no have "Suc k < length (ty # tys) \<and>
          (\<forall>l < Suc k. \<forall>d \<in> set reg. \<not> usable q ((ty # tys) ! l) d) \<and>
          candidates.is_best (aq_preference q) (usable q ((ty # tys) ! Suc k)) reg i"
        by (auto simp: less_Suc_eq_0_disj)
      with None Some show ?thesis by auto
    qed (use None no Cons in auto)
  next
    case (Some p)
    obtain i d where p: "p = (i, d)" by fastforce
    have "candidates.is_best (aq_preference q) (usable q ty) reg i"
      using candidates.scan_best_spec [where ok = "usable q ty" and pref = "aq_preference q" and ds = reg] Some p by simp
    then show ?thesis using Some p by (auto intro!: exI [of _ 0])
  qed
qed simp

lemma acquire_Some:
  assumes "registry_acquire_candidate reg q = Some (reg', i)"
  shows "i < length reg \<and> reg' = bump reg i \<and> enabled (reg ! i) \<and> inflight (reg ! i) < max_inflight (reg ! i)
    \<and> device_supports (reg ! i) (aq_domain q) (aq_action q) (aq_algorithm q) (aq_key_source q)
    \<and> (if aq_device_hint q \<noteq> [] then device_id (reg ! i) = aq_device_hint q
         \<and> (\<forall>j < i. \<not> hint_usable q (reg ! j))
       else \<exists>k. chosen_in_order reg q k i)"
proof (cases "aq_device_hint q \<noteq> []")
  case True
  with assms have "first_index (hint_usable q) 0 reg = Some i" "reg' = bump reg i"
    by (auto simp: registry_acquire_candidate_def split: option.splits)
  with True show ?thesis by (auto simp: first_index_Some hint_usable_def)
next
  case False
  with assms have a: "acquire_in_order reg q (aq_fallback_order q) = Some i" "reg' = bump reg i"
    by (auto simp: registry_acquire_candidate_def split: option.splits)
  with acquire_in_order_spec [where reg = reg and q = q and tys = "aq_fallback_order q"]
  obtain k where k: "chosen_in_order reg q k i" by (auto simp: chosen_in_order_def)
  then have "i < length reg \<and> usable q (aq_fallback_order q ! k) (reg ! i)"
    by (auto simp: chosen_in_order_def candidates.is_best_def)
  with False a k show ?thesis by (auto simp: usable_iff)
qed

lemma acquire_None:
  "registry_acquire_candidate reg q = None \<longleftrightarrow>
    (if aq_device_hint q \<noteq> [] then \<forall>d \<in> set reg. \<not> hint_usable q d
     else \<forall>ty \<in> set (aq_fallback_order q). \<forall>d \<in> set reg. \<not> usable q ty d)"
proof -
  have "acquire_in_order reg q (aq_fallback_order q) = None \<longleftrightarrow>
      (\<forall>ty \<in> set (aq_fallback_order q). \<forall>d \<in> set reg. \<not> usable q ty d)"
    using acquire_in_order_spec [where reg = reg and q = q and tys = "aq_fallback_order q"]
    by (auto simp: candidates.is_best_def split: option.splits intro!: bexI nth_mem)
  then show ?thesis
    using first_index_None [of "hint_usable q" 0 reg]
    by (cases "first_index (hint_usable q) 0 reg"; cases "acquire_in_order reg q (aq_fallback_order q)")
      (simp_all add: registry_acquire_candidate_def)
qed

subsection \<open>Leases\<close>

text \<open>
  A pool of numbered resources that are acquired and released: the load of each is the number
  of leases on it, and a lease is only given below the limit.
\<close>

locale lease_pool =
  fixes inv :: "'r \<Rightarrow> bool"
    and load :: "'r \<Rightarrow> nat \<Rightarrow> int"
    and limit :: "'r \<Rightarrow> nat \<Rightarrow> int"
    and acquire :: "'r \<Rightarrow> 'q \<Rightarrow> ('r \<times> nat) option"
    and release :: "'r \<Rightarrow> nat \<Rightarrow> 'r"
  assumes acquire_law: "inv r \<Longrightarrow> acquire r q = Some (r', i) \<Longrightarrow>
      inv r' \<and> limit r' = limit r \<and> load r' = (load r)(i := load r i + 1) \<and> load r i < limit r i"
    and release_law: "inv r \<Longrightarrow> 0 < load r i \<Longrightarrow>
      inv (release r i) \<and> limit (release r i) = limit r
      \<and> load (release r i) = (load r)(i := load r i - 1)"
begin

text \<open>The states reached from \<open>r0\<close> by any interleaving of workers, with the leases they hold.\<close>

inductive leases :: "'r \<Rightarrow> 'r \<Rightarrow> nat multiset \<Rightarrow> bool" for r0 where
  none: "leases r0 r0 {#}"
| get: "leases r0 r held \<Longrightarrow> acquire r q = Some (r', i) \<Longrightarrow> leases r0 r' (add_mset i held)"
| put: "leases r0 r held \<Longrightarrow> i \<in># held \<Longrightarrow> leases r0 (release r i) (held - {#i#})"

lemma leases_load:
  assumes "leases r0 r held" and "inv r0" and "\<And>i. load r0 i = 0"
  shows "inv r \<and> limit r = limit r0 \<and> (\<forall>i. load r i = int (count held i))
    \<and> (\<forall>i \<in># held. load r i \<le> limit r0 i)"
  using assms
proof (induction rule: leases.induct)
  case none
  then show ?case by simp
next
  case (get r held q r' i)
  then show ?case using acquire_law [of r q r' i] by (auto split: if_splits)
next
  case (put r held i)
  then have pos: "0 < load r i" by simp
  have in_held: "j \<in># held - {#i#} \<Longrightarrow> j \<in># held" for j by (rule in_diffD)
  with put pos release_law [of r i] show ?case
    by (auto simp: of_nat_diff Suc_le_eq dest!: in_held)
qed

end

definition wf_registry :: "resource_registry_t \<Rightarrow> bool" where
  "wf_registry reg \<longleftrightarrow> length reg \<le> MAX_DEVICES \<and> distinct (map device_id reg)
     \<and> (\<forall>d \<in> set reg. 0 \<le> inflight d)"

definition load_of :: "resource_registry_t \<Rightarrow> nat \<Rightarrow> int" where
  "load_of reg i = (if i < length reg then inflight (reg ! i) else 0)"

definition limit_of :: "resource_registry_t \<Rightarrow> nat \<Rightarrow> int" where
  "limit_of reg i = (if i < length reg then max_inflight (reg ! i) else 0)"

text \<open>Releasing the device behind a pointer, by its name, as the callers do.\<close>

definition release_index :: "resource_registry_t \<Rightarrow> nat \<Rightarrow> resource_registry_t" where
  "release_index reg i = registry_release reg (device_id (reg ! i))"

lemma registry_release_split:
  "registry_release (xs @ d # ys) did =
    (if did \<in> device_id ` set xs then registry_release xs did @ d # ys
     else if device_id d = did
     then xs @ (if 0 < inflight d then d \<lparr> inflight := inflight d - 1 \<rparr> else d) # ys
     else xs @ d # registry_release ys did)"
  by (induction xs) auto

lemma registry_release_nth:
  assumes "distinct (map device_id reg)" "i < length reg"
  shows "registry_release reg (device_id (reg ! i)) =
    reg[i := (if 0 < inflight (reg ! i) then (reg ! i) \<lparr> inflight := inflight (reg ! i) - 1 \<rparr>
              else reg ! i)]"
proof -
  have r: "reg = take i reg @ reg ! i # drop (Suc i) reg" using assms by (simp add: id_take_nth_drop)
  have "distinct (map device_id (take i reg @ reg ! i # drop (Suc i) reg))"
    using assms(1) r by simp
  then have "device_id (reg ! i) \<notin> device_id ` set (take i reg)" by auto
  then have "registry_release (take i reg @ reg ! i # drop (Suc i) reg) (device_id (reg ! i)) =
      take i reg @ (if 0 < inflight (reg ! i) then (reg ! i) \<lparr> inflight := inflight (reg ! i) - 1 \<rparr>
        else reg ! i) # drop (Suc i) reg"
    by (simp add: registry_release_split)
  then show ?thesis using r upd_conv_take_nth_drop [OF assms(2)] by simp
qed

lemma map_update_same: "f x = f (xs ! i) \<Longrightarrow> map f (xs[i := x]) = map f xs"
  by (metis list_update_id map_update)

lemma wf_registry_update:
  assumes "wf_registry reg" "i < length reg" "0 \<le> n"
  shows "wf_registry (reg[i := (reg ! i) \<lparr> inflight := n \<rparr>])
    \<and> limit_of (reg[i := (reg ! i) \<lparr> inflight := n \<rparr>]) = limit_of reg
    \<and> load_of (reg[i := (reg ! i) \<lparr> inflight := n \<rparr>]) = (load_of reg)(i := n)"
proof -
  let ?d = "(reg ! i) \<lparr> inflight := n \<rparr>"
  have "distinct (map device_id (reg[i := ?d]))"
    using assms(1) map_update_same [of device_id ?d reg i] by (simp add: wf_registry_def)
  moreover have "\<forall>d \<in> set (reg[i := ?d]). 0 \<le> inflight d"
    using assms by (auto simp: wf_registry_def dest!: set_update_subset_insert [THEN subsetD])
  ultimately show ?thesis
    using assms by (auto simp: wf_registry_def limit_of_def load_of_def fun_eq_iff nth_list_update)
qed

lemma registry_acquire_law:
  assumes "wf_registry reg" and "registry_acquire_candidate reg q = Some (reg', i)"
  shows "wf_registry reg' \<and> limit_of reg' = limit_of reg
    \<and> load_of reg' = (load_of reg)(i := load_of reg i + 1) \<and> load_of reg i < limit_of reg i"
proof -
  have i: "i < length reg" "reg' = bump reg i" "inflight (reg ! i) < max_inflight (reg ! i)"
    using acquire_Some [OF assms(2)] by auto
  have "0 \<le> inflight (reg ! i) + 1" using assms(1) i(1) by (auto simp: wf_registry_def)
  from wf_registry_update [OF assms(1) i(1) this] i show ?thesis
    by (simp add: bump_def load_of_def limit_of_def)
qed

lemma registry_release_law:
  assumes "wf_registry reg" and "0 < load_of reg i"
  shows "wf_registry (release_index reg i) \<and> limit_of (release_index reg i) = limit_of reg
    \<and> load_of (release_index reg i) = (load_of reg)(i := load_of reg i - 1)"
proof -
  have i: "i < length reg" "0 < inflight (reg ! i)"
    using assms(2) by (auto simp: load_of_def split: if_splits)
  have "release_index reg i = reg[i := (reg ! i) \<lparr> inflight := inflight (reg ! i) - 1 \<rparr>]"
    using assms(1) i registry_release_nth [of reg i] by (simp add: release_index_def wf_registry_def)
  with wf_registry_update [OF assms(1) i(1), of "inflight (reg ! i) - 1"] i show ?thesis
    by (simp add: load_of_def)
qed

interpretation pool: lease_pool wf_registry load_of limit_of registry_acquire_candidate release_index
  by unfold_locales (use registry_acquire_law registry_release_law in blast)+

lemma acquire_release:
  assumes "wf_registry reg" and "registry_acquire_candidate reg q = Some (reg', i)"
  shows "registry_release reg' (device_id (reg ! i)) = reg"
proof -
  have i: "i < length reg" "reg' = bump reg i"
    using acquire_Some [OF assms(2)] by auto
  have w: "wf_registry reg'" using registry_acquire_law [OF assms] by blast
  have d: "device_id (reg' ! i) = device_id (reg ! i)" and n: "inflight (reg' ! i) = inflight (reg ! i) + 1"
    and len: "i < length reg'"
    using i by (simp_all add: bump_def)
  have pos: "0 < inflight (reg' ! i)" using n i(1) assms(1) by (auto simp: wf_registry_def)
  show ?thesis
    using registry_release_nth [of reg' i] w len pos unfolding d wf_registry_def
    by (simp add: i bump_def)
qed

subsection \<open>Properties\<close>

text \<open>
  Property C12. The device an acquisition returns. It is enabled, below its limit and supports
  the call; with a hint it is the first such device of that name; without one it belongs to
  the first type of the fallback order that has any usable device, and among those it is the
  first of least (preference score descending, priority, load, name). Only its counter
  changes. The acquisition fails exactly when no device qualifies.
\<close>

theorem acquire_candidate_spec:
  "case registry_acquire_candidate reg q of
     Some (reg', i) \<Rightarrow>
       i < length reg \<and> reg' = reg[i := (reg ! i) \<lparr> inflight := inflight (reg ! i) + 1 \<rparr>]
       \<and> enabled (reg ! i) \<and> inflight (reg ! i) < max_inflight (reg ! i)
       \<and> device_supports (reg ! i) (aq_domain q) (aq_action q) (aq_algorithm q) (aq_key_source q)
       \<and> (if aq_device_hint q \<noteq> [] then device_id (reg ! i) = aq_device_hint q
            \<and> (\<forall>j < i. \<not> hint_usable q (reg ! j))
          else \<exists>k. chosen_in_order reg q k i)
   | None \<Rightarrow>
       (if aq_device_hint q \<noteq> [] then \<forall>d \<in> set reg. \<not> hint_usable q d
        else \<forall>ty \<in> set (aq_fallback_order q). \<forall>d \<in> set reg. \<not> usable q ty d)"
proof (cases "registry_acquire_candidate reg q")
  case None
  with acquire_None [of reg q] show ?thesis by simp
next
  case (Some p)
  obtain reg' i where p: "p = (reg', i)" by fastforce
  from acquire_Some Some p show ?thesis by (simp add: bump_def)
qed

definition sample_device :: "cstring \<Rightarrow> int \<Rightarrow> device_resource_t" where
  "sample_device did prio = \<lparr>device_id = did, device_type = DEV_CLASSIC, backend_profile = ''gm3000'',
     priority = prio, enabled = True, max_inflight = 2, inflight = 0, security_score = 5,
     efficiency_score = 5,
     caps = [\<lparr>cap_domain = DOMAIN_HASH, cap_action = ACTION_HASH, cap_algorithm = ''sm3'',
              key_source_mask = 0xFFFF\<rparr>]\<rparr>"

definition sample_query :: acquire_query_t where
  "sample_query = \<lparr>aq_domain = DOMAIN_HASH, aq_action = ACTION_HASH, aq_algorithm = ''sm3'',
     aq_device_hint = [], aq_key_source = 0, aq_preference = PREF_BALANCED,
     aq_fallback_order = [DEV_CLASSIC, DEV_PQC]\<rparr>"

lemma sample_acquire:
  "registry_acquire_candidate [sample_device ''a'' 2, sample_device ''b'' 1] sample_query =
     Some ([sample_device ''a'' 2, sample_device ''b'' 1 \<lparr> inflight := 1 \<rparr>], 1)"
  by (simp add: registry_acquire_candidate_def sample_query_def sample_device_def usable_iff
      device_supports_def capability_matches_def bump_def)

theorem acquire_candidate_spec_witness:
  "enabled ([sample_device ''a'' 2, sample_device ''b'' 1] ! 1)
   \<and> (\<exists>k. chosen_in_order [sample_device ''a'' 2, sample_device ''b'' 1] sample_query k 1)"
proof -
  have hint: "aq_device_hint sample_query = []" by (simp add: sample_query_def)
  show ?thesis
    using acquire_candidate_spec [where q = sample_query and reg = "[sample_device ''a'' 2, sample_device ''b'' 1]"]
    unfolding sample_acquire by (simp only: option.case prod.case hint simp_thms if_False)
qed

text \<open>
  Under any interleaving of workers that acquire and release devices, the
  counter of every device is the number of leases held on it, and a device is never leased
  more than \<^verbatim>\<open>max_inflight\<close> times at once.
\<close>

lemma inflight_counts_leases:
  assumes "wf_registry reg0" and "\<forall>d \<in> set reg0. inflight d = 0"
    and "pool.leases reg0 reg held"
  shows "(\<forall>i < length reg. inflight (reg ! i) = int (count held i))
    \<and> (\<forall>i < length reg. i \<in># held \<longrightarrow> inflight (reg ! i) \<le> max_inflight (reg ! i))"
proof -
  have "load_of reg0 i = 0" for i using assms(2) by (simp add: load_of_def)
  from pool.leases_load [OF assms(3,1) this]
  have "limit_of reg = limit_of reg0" "\<forall>i. load_of reg i = int (count held i)"
    "\<forall>i \<in># held. load_of reg i \<le> limit_of reg0 i" by auto
  then show ?thesis by (auto simp: load_of_def limit_of_def fun_eq_iff split: if_splits)
qed

lemma release_stops_at_idle:
  "j < length reg \<Longrightarrow> device_id (reg ! j) = did \<Longrightarrow> (\<And>k. k \<le> j \<Longrightarrow> inflight (reg ! k) = 0)
     \<Longrightarrow> registry_release reg did = reg"
proof (induction reg arbitrary: j)
  case Nil
  then show ?case by simp
next
  case (Cons d ds)
  have d0: "inflight d = 0" using Cons.prems(3) [of 0] by simp
  show ?case
  proof (cases "device_id d = did")
    case True
    then show ?thesis using d0 by simp
  next
    case False
    then obtain j' where j: "j = Suc j'" using Cons.prems(2) by (cases j) auto
    have "registry_release ds did = ds"
      using Cons.IH [of j'] Cons.prems(1,2) Cons.prems(3) [of "Suc _"] j by simp
    then show ?thesis using False by simp
  qed
qed

text \<open>
  Without distinct names the release misses: \<^verbatim>\<open>registry_add\<close> accepts a second
  device of the same name, the hinted scan may choose the later one (when the earlier one is
  disabled, say), and the release looks only at the first. When the devices before the chosen one
  are idle, the release changes nothing and the lease is never given back.
\<close>

lemma duplicate_name_leak:
  assumes "registry_acquire_candidate reg q = Some (reg', i)"
    and "j < i" and "device_id (reg ! j) = device_id (reg ! i)"
    and "\<forall>k < i. inflight (reg ! k) = 0"
  shows "registry_release reg' (device_id (reg ! i)) = reg'
    \<and> inflight (reg' ! i) = inflight (reg ! i) + 1"
proof -
  have i: "i < length reg" "reg' = bump reg i" using acquire_Some [OF assms(1)] by auto
  have "registry_release reg' (device_id (reg ! i)) = reg'"
    by (rule release_stops_at_idle [of j]) (use i assms in \<open>auto simp: bump_def\<close>)
  then show ?thesis using i by (simp add: bump_def)
qed


end
