(* ===== verification/Config_Loader.thy ===== *)
theory Config_Loader
  imports Protocol_Names Registry
begin

text \<open>
  \<^verbatim>\<open>src/server/service/config.c\<close>: reading the device table and the gateway settings. A file
  is \<open>None\<close> when it cannot be opened, otherwise its bytes; \<open>fgets_lines\<close> is the sequence of
  buffers successive \<^verbatim>\<open>fgets\<close> calls fill. A loader returns the registry it leaves behind,
  on errors too, with \<open>Inl\<close> the message or \<open>Inr ()\<close>.
\<close>

subsection \<open>Lines\<close>

text \<open>One \<^verbatim>\<open>fgets\<close>: at most \<open>sz - 1\<close> bytes, up to and including a newline.\<close>

definition fgets :: "nat \<Rightarrow> string \<Rightarrow> (string \<times> string) option" where
  "fgets sz s =
     (if s = [] then None
      else let body = takeWhile (\<lambda>c. c \<noteq> CHR 0x0A) s;
               line = take (sz - 1) (body @ take 1 (dropWhile (\<lambda>c. c \<noteq> CHR 0x0A) s))
           in Some (line, drop (length line) s))"

lemma fgets_shorter: "2 \<le> sz \<Longrightarrow> fgets sz s = Some (line, rest) \<Longrightarrow> length rest < length s"
  by (cases s) (auto simp: fgets_def Let_def split: if_splits)

text \<open>All of them, for buffers of at least two bytes (both callers have more).\<close>

function fgets_lines :: "nat \<Rightarrow> string \<Rightarrow> cstring list" where
  "fgets_lines sz s =
     (if sz < 2 then []
      else case fgets sz s of None \<Rightarrow> [] | Some (line, rest) \<Rightarrow> c_string line # fgets_lines sz rest)"
  by pat_completeness auto

termination
  by (relation "measure (\<lambda>(sz, s). length s)") (auto dest: fgets_shorter [rotated])

declare fgets_lines.simps [simp del]

text \<open>\<^verbatim>\<open>line[strcspn(line, "\r\n")] = 0\<close>.\<close>

definition chomp :: "cstring \<Rightarrow> cstring" where
  "chomp s = takeWhile (\<lambda>c. c \<noteq> CHR 0x0D \<and> c \<noteq> CHR 0x0A) s"

subsection \<open>Devices\<close>

definition parse_bool :: "cstring \<Rightarrow> bool" where
  "parse_bool s \<longleftrightarrow> strcmp s ''1'' = 0"

definition key_source_mask_for :: "cstring option \<Rightarrow> 32 word" where
  "key_source_mask_for s =
     (if s = None \<or> s = Some [] \<or> s = Some ''any'' then 0xffffffff
      else if s = Some ''internal_index'' \<or> s = Some ''1'' then push_bit 1 1
      else if s = Some ''session_handle'' \<or> s = Some ''2'' then push_bit 2 1
      else if s = Some ''external_key'' \<or> s = Some ''3'' then push_bit 3 1
      else if s = Some ''managed_key'' \<or> s = Some ''4'' then push_bit 4 1
      else 0)"

text \<open>The text before the first colon, and the text after it where there is one.\<close>

definition split_colon :: "cstring \<Rightarrow> cstring \<times> cstring option" where
  "split_colon s = (takeWhile (\<lambda>c. c \<noteq> CHR '':'') s, map_option (drop 1) (strchr s CHR '':''))"

definition parse_capability :: "cstring \<Rightarrow> capability_t option" where
  "parse_capability s =
     (let (tmp, rest1) = split_colon (snprintf_s 160 s) in
      case rest1 of None \<Rightarrow> None | Some t \<Rightarrow>
     (let (first, rest2) = split_colon t in
      case rest2 of None \<Rightarrow> None | Some u \<Rightarrow>
     (let (second, third) = split_colon u in
      if parse_domain (Some tmp) = DOMAIN_UNKNOWN \<or> parse_action (Some first) = ACTION_UNKNOWN then None
      else (case normalize_algorithm_name (Some second) MAX_FIELD_LEN of
              None \<Rightarrow> None
            | Some alg \<Rightarrow>
                (let mask = (case third of None \<Rightarrow> 0xffffffff | Some v \<Rightarrow> key_source_mask_for (Some v)) in
                 if mask = 0 then None
                 else Some \<lparr>cap_domain = parse_domain (Some tmp), cap_action = parse_action (Some first),
                            cap_algorithm = alg, key_source_mask = mask\<rparr>)))))"

text \<open>The loop over the capability tokens; \<open>acc\<close> is the array filled so far.\<close>

function parse_caps :: "nat \<Rightarrow> cstring \<Rightarrow> capability_t list \<Rightarrow> cstring \<Rightarrow> cstring + capability_t list" where
  "parse_caps esz did acc rest =
     (case strtok CHR ''|'' rest of
        None \<Rightarrow> Inr acc
      | Some (tok, rest') \<Rightarrow>
          if MAX_CAPS \<le> length acc
          then Inl (snprintf_s esz (''too many capabilities on device '' @ did))
          else (case parse_capability tok of
                  None \<Rightarrow> Inl (snprintf_s esz
                    (''invalid capability '' @ [CHR 0x27] @ tok @ [CHR 0x27] @ '' on device '' @ did))
                | Some c \<Rightarrow> parse_caps esz did (acc @ [c]) rest'))"
  by pat_completeness auto

termination
  by (relation "measure (\<lambda>(esz, did, acc, rest). length rest)") (auto dest: strtok_shorter)

declare parse_caps.simps [simp del]

text \<open>The next \<open>n\<close> tokens of a line, \<open>None\<close> as soon as one is missing.\<close>

fun strtok_n :: "nat \<Rightarrow> char \<Rightarrow> cstring \<Rightarrow> cstring list option" where
  "strtok_n 0 d s = Some []"
| "strtok_n (Suc n) d s =
     (case strtok d s of
        None \<Rightarrow> None
      | Some (tok, rest) \<Rightarrow> map_option (Cons tok) (strtok_n n d rest))"

text \<open>The device built from the nine fields of a line, \<open>Inr None\<close> when a field is missing.\<close>

fun device_of_fields :: "nat \<Rightarrow> cstring list option \<Rightarrow> cstring + device_resource_t option" where
  "device_of_fields esz (Some [did, ty, profile, prio, en, maxi, sec, eff, capstr]) =
     (case parse_caps esz (snprintf_s MAX_FIELD_LEN did) [] (snprintf_s 512 capstr) of
        Inl e \<Rightarrow> Inl e
      | Inr cs \<Rightarrow> Inr (Some \<lparr>
          device_id = snprintf_s MAX_FIELD_LEN did,
          device_type = parse_device_type (Some ty),
          backend_profile = snprintf_s MAX_FIELD_LEN profile,
          priority = atoi prio, enabled = parse_bool en,
          max_inflight = atoi maxi, inflight = 0,
          security_score = atoi sec, efficiency_score = atoi eff, caps = cs\<rparr>))"
| "device_of_fields esz _ = Inr None"

text \<open>One line of the device table; comments and empty lines are skipped too.\<close>

definition parse_device_line :: "nat \<Rightarrow> cstring \<Rightarrow> cstring + device_resource_t option" where
  "parse_device_line esz line =
     (if starts_with_str line ''#'' \<or> starts_with_str line [CHR 0x0A] then Inr None
      else device_of_fields esz (strtok_n 9 CHR '','' (chomp line)))"

fun load_lines :: "nat \<Rightarrow> resource_registry_t \<Rightarrow> cstring list \<Rightarrow> resource_registry_t \<times> (cstring + unit)"
where
  "load_lines esz reg [] = (reg, Inr ())"
| "load_lines esz reg (line # ls) =
     (case parse_device_line esz line of
        Inl e \<Rightarrow> (reg, Inl e)
      | Inr None \<Rightarrow> load_lines esz reg ls
      | Inr (Some d) \<Rightarrow>
          (case registry_add reg d of
             None \<Rightarrow> (reg, Inl (snprintf_s esz ''registry full''))
           | Some reg' \<Rightarrow> load_lines esz reg' ls))"

definition load_resources_from_file ::
  "cstring \<Rightarrow> string option \<Rightarrow> resource_registry_t \<Rightarrow> nat \<Rightarrow> resource_registry_t \<times> (cstring + unit)" where
  "load_resources_from_file path contents reg esz =
     (case contents of
        None \<Rightarrow> (reg, Inl (snprintf_s esz (''failed to open config: '' @ path)))
      | Some bs \<Rightarrow> load_lines esz reg (fgets_lines 1024 bs))"

subsection \<open>Gateway settings\<close>

definition settings_line :: "gateway_settings_t \<Rightarrow> cstring \<Rightarrow> gateway_settings_t" where
  "settings_line st raw =
     (let line = chomp raw in
      if starts_with_str line ''#'' \<or> line = [] then st
      else (case strchr line CHR ''='' of
              None \<Rightarrow> st
            | Some eq \<Rightarrow>
                if strcmp (takeWhile (\<lambda>c. c \<noteq> CHR ''='') line) ''gateway_pin'' = 0
                then st \<lparr> gateway_pin := snprintf_s MAX_FIELD_LEN (drop 1 eq) \<rparr>
                else st))"

definition load_gateway_settings ::
  "cstring \<Rightarrow> string option \<Rightarrow> nat \<Rightarrow> cstring + gateway_settings_t" where
  "load_gateway_settings path contents esz =
     (case contents of
        None \<Rightarrow> Inl (snprintf_s esz (''failed to open gateway config: '' @ path))
      | Some bs \<Rightarrow>
          (let st = foldl settings_line \<lparr>gateway_pin = []\<rparr> (fgets_lines 256 bs) in
           if gateway_pin st = [] then Inl (snprintf_s esz (''gateway_pin missing in '' @ path))
           else Inr st))"

subsection \<open>What a loaded registry satisfies\<close>

definition wf_capability :: "capability_t \<Rightarrow> bool" where
  "wf_capability c \<longleftrightarrow> cap_domain c \<noteq> DOMAIN_UNKNOWN \<and> cap_action c \<noteq> ACTION_UNKNOWN
     \<and> normalize_algorithm_name (Some (cap_algorithm c)) MAX_FIELD_LEN = Some (cap_algorithm c)
     \<and> fits MAX_FIELD_LEN (cap_algorithm c) \<and> key_source_mask c \<noteq> 0"

definition wf_device :: "device_resource_t \<Rightarrow> bool" where
  "wf_device d \<longleftrightarrow> fits MAX_FIELD_LEN (device_id d) \<and> device_id d \<noteq> []
     \<and> fits MAX_FIELD_LEN (backend_profile d) \<and> length (caps d) \<le> MAX_CAPS
     \<and> list_all wf_capability (caps d)"

lemma split_colon_no_nul:
  "split_colon s = (a, r) \<Longrightarrow> no_nul s \<Longrightarrow> no_nul a \<and> (\<forall>t. r = Some t \<longrightarrow> no_nul t)"
  by (auto simp: split_colon_def strchr_Some_iff)

lemma parse_capability_wf:
  assumes "parse_capability s = Some c" and "no_nul s"
  shows "wf_capability c"
proof -
  have n0: "no_nul (snprintf_s 160 s)" using assms(2) by simp
  obtain tmp t first u second third where
      1: "split_colon (snprintf_s 160 s) = (tmp, Some t)" and 2: "split_colon t = (first, Some u)"
    and 3: "split_colon u = (second, third)"
    using assms(1) unfolding parse_capability_def Let_def
    by (auto split: prod.splits option.splits)
  have n: "no_nul second"
    using split_colon_no_nul [OF 1 n0] split_colon_no_nul [OF 2] split_colon_no_nul [OF 3] by blast
  show ?thesis
    using assms(1) n normalize_algorithm_name_fits [of second MAX_FIELD_LEN]
      normalize_algorithm_name_idem [of "Some second"]
    unfolding parse_capability_def Let_def 1 2 3
    by (auto simp: 2 3 wf_capability_def split: option.splits if_splits)
qed

lemma parse_caps_wf:
  assumes "parse_caps esz did acc rest = Inr cs" and "no_nul rest"
    and "list_all wf_capability acc" and "length acc \<le> MAX_CAPS"
  shows "list_all wf_capability cs \<and> length cs \<le> MAX_CAPS"
  using assms
proof (induction esz did acc rest rule: parse_caps.induct)
  case (1 esz did acc rest)
  show ?case
  proof (cases "strtok CHR ''|'' rest")
    case None
    with 1(2,4,5) show ?thesis by (simp add: parse_caps.simps)
  next
    case (Some p)
    obtain tok rest' where p: "p = (tok, rest')" by fastforce
    note tok = Some [unfolded p]
    from 1(2) tok have room: "\<not> MAX_CAPS \<le> length acc"
      by (auto simp: parse_caps.simps [of esz did acc rest])
    with 1(2) tok obtain c where c: "parse_capability tok = Some c"
      and r: "parse_caps esz did (acc @ [c]) rest' = Inr cs"
      by (auto simp: parse_caps.simps [of esz did acc rest] split: option.splits)
    have nn: "no_nul tok" "no_nul rest'" using strtok_no_nul [OF tok 1(3)] by auto
    from 1(1) [OF tok refl room c r nn(2)] 1(4) room parse_capability_wf [OF c nn(1)]
    show ?thesis by simp
  qed
qed

lemma strtok_n_tokens:
  "strtok_n n c s = Some ts \<Longrightarrow> no_nul s \<Longrightarrow> t \<in> set ts \<Longrightarrow> no_nul t \<and> t \<noteq> []"
proof (induction n c s arbitrary: ts rule: strtok_n.induct)
  case (2 n c s)
  then obtain u r us where u: "strtok c s = Some (u, r)" and r: "strtok_n n c r = Some us" and ts: "ts = u # us"
    by (auto split: option.splits)
  have "no_nul u \<and> no_nul r \<and> u \<noteq> []"
    using strtok_no_nul [OF u 2(3)] strtok_token(1) [OF u] by blast
  with 2(1) [OF u refl r] 2(4) ts show ?case by auto
qed simp

lemma device_of_fields_wf:
  assumes "device_of_fields esz f = Inr (Some d)" and "\<forall>ts. f = Some ts \<longrightarrow> (\<forall>t \<in> set ts. no_nul t \<and> t \<noteq> [])"
  shows "wf_device d \<and> inflight d = 0"
  using assms
proof (cases rule: device_of_fields.cases [of "(esz, f)"])
  case (1 esz' did ty profile prio en maxi sec eff capstr)
  with assms(1) obtain cs where
      cs: "parse_caps esz (snprintf_s MAX_FIELD_LEN did) [] (snprintf_s 512 capstr) = Inr cs"
    and d: "device_id d = snprintf_s MAX_FIELD_LEN did" "backend_profile d = snprintf_s MAX_FIELD_LEN profile"
      "inflight d = 0" "caps d = cs"
    by (auto split: sum.splits)
  have nn: "no_nul did" "did \<noteq> []" "no_nul profile" "no_nul capstr" using assms(2) 1 by auto
  have "list_all wf_capability cs \<and> length cs \<le> MAX_CAPS"
    by (rule parse_caps_wf [OF cs]) (use nn in simp_all)
  moreover have "snprintf_s MAX_FIELD_LEN did \<noteq> []"
    using nn(2) by (simp add: snprintf_s_def MAX_FIELD_LEN_def)
  ultimately show ?thesis using d nn by (simp add: wf_device_def)
qed (use assms in auto)

lemma parse_device_line_wf:
  assumes "parse_device_line esz line = Inr (Some d)" and "no_nul line"
  shows "wf_device d \<and> inflight d = 0"
proof -
  have "no_nul (chomp line)" using assms(2) by (simp add: chomp_def)
  then have "\<forall>ts. strtok_n 9 CHR '','' (chomp line) = Some ts \<longrightarrow> (\<forall>t \<in> set ts. no_nul t \<and> t \<noteq> [])"
    using strtok_n_tokens by blast
  moreover have "device_of_fields esz (strtok_n 9 CHR '','' (chomp line)) = Inr (Some d)"
    using assms(1) by (simp add: parse_device_line_def split: if_splits)
  ultimately show ?thesis by (rule device_of_fields_wf [rotated])
qed

text \<open>What holds of every device a line gives, holds of every device of the loaded table.\<close>

lemma load_lines_all:
  assumes "\<And>l d. l \<in> set ls \<Longrightarrow> parse_device_line esz l = Inr (Some d) \<Longrightarrow> P d"
    and "length reg \<le> MAX_DEVICES" and "\<forall>d \<in> set reg. P d"
  shows "length (fst (load_lines esz reg ls)) \<le> MAX_DEVICES \<and> (\<forall>d \<in> set (fst (load_lines esz reg ls)). P d)"
  using assms
proof (induction ls arbitrary: reg)
  case (Cons l ls)
  have IH: "length (fst (load_lines esz r ls)) \<le> MAX_DEVICES \<and> (\<forall>d \<in> set (fst (load_lines esz r ls)). P d)"
    if "length r \<le> MAX_DEVICES" "\<forall>d \<in> set r. P d" for r
    using Cons.IH Cons.prems(1) that by (meson list.set_intros(2))
  have "P d" if "parse_device_line esz l = Inr (Some d)" for d
    using Cons.prems(1) that by (meson list.set_intros(1))
  then show ?case
    using Cons.prems(2,3) IH [of reg] IH [of "reg @ [d]" for d]
    by (auto simp: registry_add_def split: sum.splits option.splits)
qed simp

lemma fgets_lines_no_nul: "l \<in> set (fgets_lines sz s) \<Longrightarrow> no_nul l"
proof (induction sz s rule: fgets_lines.induct)
  case (1 sz s)
  show ?case
  proof (cases "sz < 2 \<or> fgets sz s = None")
    case True
    with 1(2) show ?thesis by (auto simp: fgets_lines.simps [of sz s] split: if_splits)
  next
    case False
    then obtain line rest where f: "fgets sz s = Some (line, rest)" by auto
    with 1(2) False have "l = c_string line \<or> l \<in> set (fgets_lines sz rest)"
      by (simp add: fgets_lines.simps [of sz s])
    with 1(1) [OF _ f refl] False show ?thesis by auto
  qed
qed

lemma settings_line_fits:
  assumes "fits MAX_FIELD_LEN (gateway_pin st)" and "no_nul line"
  shows "fits MAX_FIELD_LEN (gateway_pin (settings_line st line))"
proof -
  have "no_nul (chomp line)" using assms(2) by (simp add: chomp_def)
  then have "strchr (chomp line) CHR ''='' = Some eq \<Longrightarrow> no_nul (drop 1 eq)" for eq
    by (auto simp: strchr_Some_iff)
  with assms(1) show ?thesis by (simp add: settings_line_def Let_def split: option.split)
qed

lemma settings_fits:
  "fits MAX_FIELD_LEN (gateway_pin st) \<Longrightarrow> \<forall>l \<in> set ls. no_nul l \<Longrightarrow>
     fits MAX_FIELD_LEN (gateway_pin (foldl settings_line st ls))"
  by (induction ls arbitrary: st) (auto simp: settings_line_fits)

subsection \<open>Writing a table\<close>

text \<open>The text of a device as the table files spell it.\<close>

fun join :: "char \<Rightarrow> cstring list \<Rightarrow> cstring" where
  "join d [] = []"
| "join d [t] = t"
| "join d (t # u # ts) = t @ d # join d (u # ts)"

definition mask_text :: "32 word \<Rightarrow> cstring" where
  "mask_text m = (if m = 2 then '':internal_index'' else if m = 4 then '':session_handle''
     else if m = 8 then '':external_key'' else if m = 16 then '':managed_key'' else [])"

definition cap_text :: "capability_t \<Rightarrow> cstring" where
  "cap_text c = domain_to_string (cap_domain c) @ CHR '':'' # action_to_string (cap_action c) @ CHR '':''
     # cap_algorithm c @ mask_text (key_source_mask c)"

definition device_fields :: "device_resource_t \<Rightarrow> cstring list" where
  "device_fields d =
     [device_id d, device_type_to_string (device_type d), backend_profile d, dec_int (priority d),
      if enabled d then ''1'' else ''0'', dec_int (max_inflight d), dec_int (security_score d),
      dec_int (efficiency_score d), join CHR ''|'' (map cap_text (caps d))]"

definition device_text :: "device_resource_t \<Rightarrow> cstring" where
  "device_text d = join CHR '','' (device_fields d)"

text \<open>Names without the separators of the format.\<close>

definition plain :: "cstring \<Rightarrow> bool" where
  "plain s \<longleftrightarrow> s \<noteq> [] \<and> list_all (\<lambda>c. c \<notin> {CHR '','', CHR ''|'', CHR '':'', CHR 0x0A, CHR 0x0D, CHR 0x00}) s"

definition writable_cap :: "capability_t \<Rightarrow> bool" where
  "writable_cap c \<longleftrightarrow> wf_capability c \<and> plain (cap_algorithm c) \<and> length (cap_text c) < 160
     \<and> key_source_mask c \<in> {2, 4, 8, 16, 0xffffffff}"

definition int32 :: "int \<Rightarrow> bool" where
  "int32 n \<longleftrightarrow> - (2 ^ 31) \<le> n \<and> n < 2 ^ 31"

definition writable_device :: "device_resource_t \<Rightarrow> bool" where
  "writable_device d \<longleftrightarrow> plain (device_id d) \<and> length (device_id d) < MAX_FIELD_LEN
     \<and> hd (device_id d) \<noteq> CHR ''#'' \<and> plain (backend_profile d)
     \<and> length (backend_profile d) < MAX_FIELD_LEN \<and> int32 (priority d) \<and> int32 (max_inflight d)
     \<and> int32 (security_score d) \<and> int32 (efficiency_score d) \<and> inflight d = 0
     \<and> caps d \<noteq> [] \<and> length (caps d) \<le> MAX_CAPS \<and> list_all writable_cap (caps d)
     \<and> length (join CHR ''|'' (map cap_text (caps d))) < 512 \<and> length (device_text d) < 1023"

lemma strtok_n_join:
  "ts \<noteq> [] \<Longrightarrow> \<forall>t \<in> set ts. t \<noteq> [] \<and> d \<notin> set t \<Longrightarrow> strtok_n (length ts) d (join d ts) = Some ts"
  by (induction d ts rule: join.induct) (auto simp: strtok_last strtok_plain)

lemma parse_caps_join:
  assumes "\<forall>c \<in> set cs. parse_capability (cap_text c) = Some c \<and> cap_text c \<noteq> [] \<and> CHR ''|'' \<notin> set (cap_text c)"
    and "length acc + length cs \<le> MAX_CAPS"
  shows "parse_caps esz did acc (join CHR ''|'' (map cap_text cs)) = Inr (acc @ cs)"
  using assms
proof (induction cs arbitrary: acc)
  case Nil
  then show ?case by (simp add: parse_caps.simps)
next
  case (Cons c cs)
  show ?case
  proof (cases cs)
    case Nil
    with Cons.prems show ?thesis
      by (subst parse_caps.simps) (simp add: strtok_last parse_caps.simps [of _ _ _ "[]"])
  next
    case (Cons c' cs')
    then have "join CHR ''|'' (map cap_text (c # cs)) = cap_text c @ CHR ''|'' # join CHR ''|'' (map cap_text cs)"
      by simp
    with Cons.prems Cons.IH [of "acc @ [c]"] show ?thesis
      by (subst parse_caps.simps) (simp add: strtok_plain)
  qed
qed

lemma name_chars:
  "\<forall>d. plain (domain_to_string d)" "\<forall>a. plain (action_to_string a)"
  by (intro allI, case_tac d, simp_all add: plain_def) (intro allI, case_tac a, simp_all add: plain_def)

lemma plain_type [simp]: "plain (device_type_to_string t)"
  by (cases t) (simp_all add: plain_def)

lemma mask_text_chars: "x \<in> {CHR '','', CHR ''|'', CHR 0x0A, CHR 0x0D, CHR 0x00} \<Longrightarrow> x \<notin> set (mask_text m)"
  by (auto simp: mask_text_def)

lemma plain_no_sep:
  assumes "plain s"
  shows "s \<noteq> []" "CHR '','' \<notin> set s" "CHR ''|'' \<notin> set s" "CHR '':'' \<notin> set s" "CHR 0x0A \<notin> set s"
    "CHR 0x0D \<notin> set s" "CHR 0x00 \<notin> set s"
  using assms by (auto simp: plain_def list_all_iff)

lemma split_colon_plain: "plain s \<Longrightarrow> split_colon (s @ CHR '':'' # t) = (s, Some t)"
  using plain_no_sep(4) [of s] by (simp add: split_colon_def)

lemma split_colon_end: "plain s \<Longrightarrow> split_colon s = (s, None)"
proof -
  assume "plain s"
  then have "\<forall>c \<in> set s. c \<noteq> CHR '':''" using plain_no_sep(4) [of s] by blast
  then have t: "takeWhile (\<lambda>c. c \<noteq> CHR '':'') s = s" and d: "dropWhile (\<lambda>c. c \<noteq> CHR '':'') s = []"
    by (simp_all add: takeWhile_eq_all_conv dropWhile_eq_Nil_conv)
  show ?thesis unfolding split_colon_def strchr_def t d by simp
qed

text \<open>The algorithm and the optional source, read back.\<close>

lemma split_colon_mask:
  assumes "plain alg" and "m \<in> {2, 4, 8, 16, 0xffffffff}"
  shows "\<exists>t. split_colon (alg @ mask_text m) = (alg, t)
    \<and> (case t of None \<Rightarrow> 0xffffffff | Some v \<Rightarrow> key_source_mask_for (Some v)) = m"
  using assms(2) split_colon_plain [OF assms(1)] split_colon_end [OF assms(1)]
  by (auto simp: mask_text_def key_source_mask_for_def)

lemma parse_capability_text:
  assumes "writable_cap c"
  shows "parse_capability (cap_text c) = Some c"
proof -
  have c: "wf_capability c" "plain (cap_algorithm c)" "length (cap_text c) < 160"
    "key_source_mask c \<in> {2, 4, 8, 16, 0xffffffff}"
    using assms by (auto simp: writable_cap_def)
  have d: "parse_domain (Some (domain_to_string (cap_domain c))) = cap_domain c"
    and a: "parse_action (Some (action_to_string (cap_action c))) = cap_action c"
    using c(1) dom_codec.parse_to_str act_codec.parse_to_str by (auto simp: wf_capability_def)
  obtain t where t: "split_colon (cap_algorithm c @ mask_text (key_source_mask c)) = (cap_algorithm c, t)"
    "(case t of None \<Rightarrow> 0xffffffff | Some v \<Rightarrow> key_source_mask_for (Some v)) = key_source_mask c"
    using split_colon_mask [OF c(2,4)] by blast
  have "key_source_mask c \<noteq> 0" using c(4) by auto
  then show ?thesis
    using c(1,3) d a t
      split_colon_plain [OF name_chars(1) [rule_format]] split_colon_plain [OF name_chars(2) [rule_format]]
    by (simp add: parse_capability_def cap_text_def wf_capability_def Let_def)
qed

lemma cap_text_chars:
  assumes "writable_cap c"
  shows "cap_text c \<noteq> [] \<and> (\<forall>x \<in> {CHR '','', CHR ''|'', CHR 0x0A, CHR 0x0D, CHR 0x00}. x \<notin> set (cap_text c))"
  using assms plain_no_sep [OF name_chars(1) [rule_format]] plain_no_sep [OF name_chars(2) [rule_format]]
    mask_text_chars plain_no_sep [of "cap_algorithm c"]
  by (simp add: writable_cap_def cap_text_def)

lemma join_chars: "c \<in> set (join d ts) \<Longrightarrow> c = d \<or> (\<exists>t \<in> set ts. c \<in> set t)"
  by (induction d ts rule: join.induct) auto

lemma join_nonempty: "ts \<noteq> [] \<Longrightarrow> \<forall>t \<in> set ts. t \<noteq> [] \<Longrightarrow> join d ts \<noteq> []"
  by (induction d ts rule: join.induct) auto

text \<open>A field of a line: not empty, without a comma, a line break or a NUL.\<close>

definition field_ok :: "cstring \<Rightarrow> bool" where
  "field_ok f \<longleftrightarrow> f \<noteq> [] \<and> CHR '','' \<notin> set f \<and> CHR 0x0A \<notin> set f \<and> CHR 0x0D \<notin> set f
     \<and> CHR 0x00 \<notin> set f"

lemma plain_field: "plain s \<Longrightarrow> field_ok s"
  using plain_no_sep [of s] by (simp add: field_ok_def)

lemma dec_int_field: "field_ok (dec_int n)"
proof -
  have "x \<notin> set (dec_int n)" if "\<not> is_digit x" "x \<noteq> CHR ''-''" for x
    using dec_int_chars [of x n] that by blast
  then show ?thesis by (simp add: field_ok_def)
qed

lemma caps_field:
  assumes "\<forall>c \<in> set cs. writable_cap c" "cs \<noteq> []"
  shows "field_ok (join CHR ''|'' (map cap_text cs))"
proof -
  have "join CHR ''|'' (map cap_text cs) \<noteq> []"
    using assms cap_text_chars by (intro join_nonempty) auto
  moreover have "x \<notin> set (join CHR ''|'' (map cap_text cs))" if "x \<in> {CHR '','', CHR 0x0A, CHR 0x0D, CHR 0x00}" for x
  proof
    assume "x \<in> set (join CHR ''|'' (map cap_text cs))"
    then have "x = CHR ''|'' \<or> (\<exists>c \<in> set cs. x \<in> set (cap_text c))"
      using join_chars [of x "CHR ''|''" "map cap_text cs"] by auto
    then show False using assms(1) cap_text_chars that by blast
  qed
  ultimately show ?thesis by (simp add: field_ok_def)
qed

lemma device_fields_ok:
  assumes "writable_device d"
  shows "list_all field_ok (device_fields d)"
proof -
  have "field_ok (join CHR ''|'' (map cap_text (caps d)))"
    using assms by (intro caps_field) (auto simp: writable_device_def list_all_iff)
  moreover have "field_ok ''1''" "field_ok ''0''" by (simp_all add: field_ok_def)
  moreover have "field_ok (device_id d)" "field_ok (backend_profile d)"
    using assms by (simp_all add: writable_device_def plain_field)
  ultimately show ?thesis
    by (simp add: device_fields_def dec_int_field plain_field)
qed

text \<open>The line of a device whose capability list \<open>capstr\<close> may be longer than its buffer takes.\<close>

definition line_with :: "device_resource_t \<Rightarrow> cstring \<Rightarrow> cstring" where
  "line_with d capstr = join CHR '','' (butlast (device_fields d) @ [capstr])"

lemma device_text_line: "device_text d = line_with d (join CHR ''|'' (map cap_text (caps d)))"
  by (simp add: line_with_def device_text_def device_fields_def)

lemma line_fields_ok:
  assumes "writable_device d" and "field_ok capstr" and "f \<in> set (butlast (device_fields d) @ [capstr])"
  shows "field_ok f"
  using device_fields_ok [OF assms(1)] assms(2,3) by (auto simp: list_all_iff dest: in_set_butlastD)

lemma line_with_chars:
  assumes "writable_device d" and "field_ok capstr" and "c \<in> set (line_with d capstr)"
  shows "c \<noteq> CHR 0x0D \<and> c \<noteq> CHR 0x0A \<and> c \<noteq> CHR 0x00"
proof -
  have "c = CHR '','' \<or> (\<exists>f \<in> set (butlast (device_fields d) @ [capstr]). c \<in> set f)"
    using join_chars assms(3) unfolding line_with_def by blast
  then show ?thesis using line_fields_ok [OF assms(1,2)] by (auto simp: field_ok_def)
qed

lemma writable_caps_field:
  "writable_device d \<Longrightarrow> field_ok (join CHR ''|'' (map cap_text (caps d)))"
  by (intro caps_field) (auto simp: writable_device_def list_all_iff)

lemma device_text_chars:
  "writable_device d \<Longrightarrow> c \<in> set (device_text d) \<Longrightarrow> c \<noteq> CHR 0x0D \<and> c \<noteq> CHR 0x0A \<and> c \<noteq> CHR 0x00"
  unfolding device_text_line by (rule line_with_chars [OF _ writable_caps_field])

lemma parse_device_line_with:
  assumes "writable_device d" and "field_ok capstr"
    and "snprintf_s 512 capstr = join CHR ''|'' (map cap_text (caps d))"
  shows "parse_device_line esz (line_with d capstr @ [CHR 0x0A]) = Inr (Some d)"
proof -
  let ?fs = "butlast (device_fields d) @ [capstr]"
  have "c \<noteq> CHR 0x0D \<and> c \<noteq> CHR 0x0A" if "c \<in> set (line_with d capstr)" for c
    using line_with_chars [OF assms(1,2) that] by blast
  then have chomp: "chomp (line_with d capstr @ [CHR 0x0A]) = line_with d capstr"
    unfolding chomp_def by (subst takeWhile_append2) auto
  obtain c rest where "device_id d = c # rest" "c \<noteq> CHR ''#''" "c \<noteq> CHR 0x0A"
    using assms plain_no_sep [of "device_id d"] by (cases "device_id d") (auto simp: writable_device_def)
  then have "\<not> starts_with_str (line_with d capstr @ [CHR 0x0A]) ''#''"
      "\<not> starts_with_str (line_with d capstr @ [CHR 0x0A]) [CHR 0x0A]"
    by (simp_all add: line_with_def device_fields_def starts_with_str_def)
  moreover have "strtok_n 9 CHR '','' (line_with d capstr) = Some ?fs"
  proof -
    have "length ?fs = 9" by (simp add: device_fields_def)
    then show ?thesis
      using strtok_n_join [of ?fs "CHR '',''"] line_fields_ok [OF assms(1,2)] by (simp add: line_with_def field_ok_def)
  qed
  moreover have "parse_caps esz (device_id d) [] (join CHR ''|'' (map cap_text (caps d))) = Inr (caps d)"
    using parse_caps_join [of "caps d" "[]"] assms(1) parse_capability_text cap_text_chars
    by (auto simp: writable_device_def list_all_iff)
  moreover have "parse_device_type (Some (device_type_to_string t)) = t" for t
    by (cases "t = DEV_UNKNOWN") (simp_all add: type_codec.parse_to_str, code_simp)
  ultimately show ?thesis
    using assms(1,3) unfolding parse_device_line_def chomp
    by (simp add: device_fields_def writable_device_def atoi_dec_int int32_def parse_bool_def)
qed

lemma parse_device_line_text:
  "writable_device d \<Longrightarrow> parse_device_line esz (device_text d @ [CHR 0x0A]) = Inr (Some d)"
  unfolding device_text_line
  by (rule parse_device_line_with [OF _ writable_caps_field]) (simp_all add: writable_device_def)

lemma fgets_lines_line:
  assumes "CHR 0x0A \<notin> set l" "length l + 1 < sz" "no_nul l"
  shows "fgets_lines sz (l @ CHR 0x0A # rest) = (l @ [CHR 0x0A]) # fgets_lines sz rest"
proof -
  have "fgets sz (l @ CHR 0x0A # rest) = Some (l @ [CHR 0x0A], rest)"
    using assms(1,2) by (simp add: fgets_def Let_def)
  then show ?thesis using assms(2,3) by (subst fgets_lines.simps) simp
qed

lemma fgets_lines_Nil [simp]: "fgets_lines sz [] = []"
  by (simp add: fgets_lines.simps fgets_def)

definition table_text :: "device_resource_t list \<Rightarrow> cstring" where
  "table_text ds = concat (map (\<lambda>d. device_text d @ [CHR 0x0A]) ds)"

lemma fgets_lines_table:
  "list_all writable_device ds \<Longrightarrow>
     fgets_lines 1024 (table_text ds) = map (\<lambda>d. device_text d @ [CHR 0x0A]) ds"
proof (induction ds)
  case (Cons d ds)
  have "CHR 0x0A \<notin> set (device_text d)" "no_nul (device_text d)"
    using Cons.prems device_text_chars [of d] by (auto simp: no_nul_def)
  moreover have "length (device_text d) + 1 < 1024" using Cons.prems by (simp add: writable_device_def)
  ultimately show ?case
    using Cons fgets_lines_line [of "device_text d" 1024 "table_text ds"] by (simp add: table_text_def)
qed (simp add: table_text_def)

lemma load_lines_table:
  "list_all writable_device ds \<Longrightarrow> length reg + length ds \<le> MAX_DEVICES \<Longrightarrow>
     load_lines esz reg (map (\<lambda>d. device_text d @ [CHR 0x0A]) ds) = (reg @ ds, Inr ())"
  by (induction ds arbitrary: reg) (simp_all add: parse_device_line_text registry_add_def)

subsection \<open>Properties\<close>

lemma loaded_registry:
  "length (fst (load_resources_from_file path contents [] esz)) \<le> MAX_DEVICES
   \<and> (\<forall>d \<in> set (fst (load_resources_from_file path contents [] esz)). wf_device d \<and> inflight d = 0)"
proof (cases contents)
  case (Some bs)
  have "wf_device d \<and> inflight d = 0"
    if "l \<in> set (fgets_lines 1024 bs)" "parse_device_line esz l = Inr (Some d)" for l d
    using parse_device_line_wf [OF that(2) fgets_lines_no_nul [OF that(1)]] .
  then show ?thesis
    unfolding load_resources_from_file_def Some option.case
    by (rule load_lines_all) simp_all
qed (simp add: load_resources_from_file_def)

text \<open>
  Property C30. Whatever bytes the configuration holds, and whether or not the loader
  succeeds, the registry it leaves has at most \<open>MAX_DEVICES\<close> devices, each with a name, at
  most \<open>MAX_CAPS\<close> capabilities of known domain and action with a normalised algorithm and a
  non-empty key source mask, and no call in flight.
\<close>

theorem load_resources_wf:
  "length (fst (load_resources_from_file path contents [] esz)) \<le> MAX_DEVICES
   \<and> (\<forall>d \<in> set (fst (load_resources_from_file path contents [] esz)). wf_device d \<and> inflight d = 0)"
  by (rule loaded_registry)

definition sample_entry :: device_resource_t where
  "sample_entry = \<lparr>device_id = ''dev0'', device_type = DEV_CLASSIC, backend_profile = ''gm3000'',
     priority = - 5, enabled = True, max_inflight = 4, inflight = 0, security_score = 80,
     efficiency_score = 60,
     caps = [\<lparr>cap_domain = DOMAIN_ASYM, cap_action = ACTION_SIGN, cap_algorithm = ''sm2'',
               key_source_mask = 2\<rparr>,
             \<lparr>cap_domain = DOMAIN_HASH, cap_action = ACTION_HASH, cap_algorithm = ''sm3'',
               key_source_mask = 0xffffffff\<rparr>]\<rparr>"

lemma dec_int_sample:
  "dec_int (- 5) = ''-5''" "dec_int 4 = ''4''" "dec_int 80 = ''80''" "dec_int 60 = ''60''"
  by code_simp+

lemma sample_entry_text:
  "device_text sample_entry = ''dev0,classic,gm3000,-5,1,4,80,60,asym:sign:sm2:internal_index|hash:hash:sm3''"
  by (simp add: device_text_def device_fields_def sample_entry_def dec_int_sample cap_text_def
      mask_text_def)

lemma sample_entry_writable: "writable_device sample_entry"
proof -
  have n: "normalize_algorithm_name (Some ''sm2'') MAX_FIELD_LEN = Some ''sm2''"
    "normalize_algorithm_name (Some ''sm3'') MAX_FIELD_LEN = Some ''sm3''" by code_simp+
  have "length (device_text sample_entry) < 1023" by (simp add: sample_entry_text)
  then show ?thesis
    using n by (simp add: writable_device_def sample_entry_def plain_def int32_def writable_cap_def
        wf_capability_def cap_text_def mask_text_def fits_def size_defs)
qed

theorem load_resources_wf_witness:
  "wf_device sample_entry \<and> fst (load_resources_from_file ''f'' (Some (table_text [sample_entry])) [] 64)
     = [sample_entry]"
proof -
  have l: "fst (load_resources_from_file ''f'' (Some (table_text [sample_entry])) [] 64) = [sample_entry]"
    using fgets_lines_table [of "[sample_entry]"] load_lines_table [of "[sample_entry]" "[]" 64]
      sample_entry_writable
    by (simp add: load_resources_from_file_def size_defs)
  with load_resources_wf [of "''f''" "Some (table_text [sample_entry])" 64] show ?thesis by simp
qed

text \<open>
  Property C22. A table of devices written in the file format is loaded back device for
  device, field for field, in order: names without the separators, numbers in the range of
  \<^verbatim>\<open>int\<close>, and each capability list within the 511 bytes its buffer takes.
\<close>

theorem load_resources_roundtrip:
  assumes "list_all writable_device ds" and "length ds \<le> MAX_DEVICES"
  shows "load_resources_from_file path (Some (table_text ds)) [] esz = (ds, Inr ())"
  using fgets_lines_table [OF assms(1)] load_lines_table [OF assms(1), of "[]" esz] assms(2)
  by (simp add: load_resources_from_file_def)

theorem load_resources_roundtrip_witness:
  "load_resources_from_file ''f'' (Some (table_text [sample_entry])) [] 64 = ([sample_entry], Inr ())"
  by (rule load_resources_roundtrip) (simp_all add: sample_entry_writable size_defs)

text \<open>
  A capability list longer than its 512-byte buffer is cut, not rejected: when
  the cut falls on a separator the device is loaded as if the rest had not been written.
\<close>

lemma capabilities_past_buffer_lost:
  assumes "length u = 511"
  shows "device_of_fields esz (Some [did, ty, profile, prio, en, maxi, sec, eff, u @ CHR ''|'' # v])
       = device_of_fields esz (Some [did, ty, profile, prio, en, maxi, sec, eff, u])"
proof -
  have "snprintf_s 512 (u @ CHR ''|'' # v) = u" "snprintf_s 512 u = u"
    using assms by (simp_all add: snprintf_s_def)
  then show ?thesis by simp
qed

text \<open>
  Settings that load have a non-empty PIN that fits its array, and the loader
  fails when no line sets one: the gateway never starts with an empty PIN.
\<close>

lemma load_gateway_settings_pin:
  "case load_gateway_settings path contents esz of
     Inr st \<Rightarrow> gateway_pin st \<noteq> [] \<and> fits MAX_FIELD_LEN (gateway_pin st)
   | Inl e \<Rightarrow> contents = None \<or> (\<exists>bs. contents = Some bs
       \<and> gateway_pin (foldl settings_line \<lparr>gateway_pin = []\<rparr> (fgets_lines 256 bs)) = [])"
proof (cases contents)
  case (Some bs)
  have "fits MAX_FIELD_LEN (gateway_pin (foldl settings_line \<lparr>gateway_pin = []\<rparr> (fgets_lines 256 bs)))"
    by (rule settings_fits) (auto simp: fgets_lines_no_nul)
  with Some show ?thesis by (simp add: load_gateway_settings_def Let_def)
qed (simp add: load_gateway_settings_def)

end
