(* ===== verification/Translator.thy ===== *)
theory Translator
  imports Protocol_Names Registry
begin

text \<open>
  \<^verbatim>\<open>src/server/service/translator.c\<close>: the table that maps a device profile, a domain, an
  action and an algorithm to the name of a backend call, and the construction of the
  translated call. The lemmas characterise the table search and the fields of the result.
\<close>

subsection \<open>The rule table\<close>

record translation_rule_t =
  rule_backend_profile :: cstring
  rule_type :: device_type_t
  rule_domain :: api_domain_t
  rule_action :: api_action_t
  rule_algorithm :: cstring
  rule_backend_call :: cstring

record translated_call_t =
  tc_call :: backend_call_t
  tc_backend_name :: cstring
  tc_backend_call_name :: cstring

definition rule ::
  "cstring \<Rightarrow> device_type_t \<Rightarrow> api_domain_t \<Rightarrow> api_action_t \<Rightarrow> cstring \<Rightarrow> cstring \<Rightarrow> translation_rule_t" where
  "rule profile ty dm act alg call = \<lparr>rule_backend_profile = profile, rule_type = ty,
     rule_domain = dm, rule_action = act, rule_algorithm = alg, rule_backend_call = call\<rparr>"

definition g_rules :: "translation_rule_t list" where
  "g_rules =
     [rule ''swsds-classic'' DEV_CLASSIC DOMAIN_DEVICE ACTION_GET_DEVICE_INFO ''auto'' ''SDF_GetDeviceInfo'',
      rule ''swsds-classic'' DEV_CLASSIC DOMAIN_DEVICE ACTION_GENERATE_RANDOM ''auto'' ''SDF_GenerateRandom'',
      rule ''swsds-classic'' DEV_CLASSIC DOMAIN_KEY ACTION_GET_PRIVATE_KEY_ACCESS ''auto'' ''SDF_GetPrivateKeyAccessRight'',
      rule ''swsds-classic'' DEV_CLASSIC DOMAIN_KEY ACTION_RELEASE_PRIVATE_KEY_ACCESS ''auto'' ''SDF_ReleasePrivateKeyAccessRight'',
      rule ''swsds-classic'' DEV_CLASSIC DOMAIN_KEY ACTION_GENERATE_KEY_PAIR ''rsa'' ''SDF_GenerateKeyPair_RSA'',
      rule ''swsds-classic'' DEV_CLASSIC DOMAIN_KEY ACTION_GENERATE_KEY_PAIR ''sm2'' ''SDF_GenerateKeyPair_ECC'',
      rule ''swsds-classic'' DEV_CLASSIC DOMAIN_KEY ACTION_EXPORT_PUBLIC_KEY ''rsa'' ''SDF_ExportSignPublicKey_RSA'',
      rule ''swsds-classic'' DEV_CLASSIC DOMAIN_KEY ACTION_EXPORT_PUBLIC_KEY ''sm2'' ''SDF_ExportSignPublicKey_ECC'',
      rule ''swsds-classic'' DEV_CLASSIC DOMAIN_KEY ACTION_IMPORT_KEY ''auto'' ''SDF_ImportKey'',
      rule ''swsds-classic'' DEV_CLASSIC DOMAIN_KEY ACTION_DESTROY_KEY ''auto'' ''SDF_DestroyKey'',
      rule ''softlib'' DEV_CLASSIC DOMAIN_ASYM ACTION_SIGN ''sm2'' ''SoftLib_SM2Sign'',
      rule ''swsds-classic'' DEV_CLASSIC DOMAIN_ASYM ACTION_SIGN ''sm2'' ''SDF_InternalSign_ECC_Ex'',
      rule ''swsds-classic'' DEV_CLASSIC DOMAIN_ASYM ACTION_VERIFY ''sm2'' ''SDF_InternalVerify_ECC_Ex'',
      rule ''swsds-classic'' DEV_CLASSIC DOMAIN_ASYM ACTION_ENCRYPT ''sm2'' ''SDF_InternalEncrypt_ECC'',
      rule ''swsds-classic'' DEV_CLASSIC DOMAIN_ASYM ACTION_DECRYPT ''sm2'' ''SDF_InternalDecrypt_ECC'',
      rule ''swsds-classic'' DEV_CLASSIC DOMAIN_ASYM ACTION_SIGN ''rsa'' ''SDF_InternalPrivateKeyOperation_RSA'',
      rule ''swsds-classic'' DEV_CLASSIC DOMAIN_ASYM ACTION_VERIFY ''rsa'' ''SDF_InternalPublicKeyOperation_RSA'',
      rule ''swsds-classic'' DEV_CLASSIC DOMAIN_SYM ACTION_ENCRYPT ''sm4-cbc'' ''SDF_Encrypt'',
      rule ''swsds-classic'' DEV_CLASSIC DOMAIN_SYM ACTION_DECRYPT ''sm4-cbc'' ''SDF_Decrypt'',
      rule ''swsds-classic'' DEV_CLASSIC DOMAIN_SYM ACTION_MAC ''sm4-mac'' ''SDF_CalculateMAC'',
      rule ''swsds-classic'' DEV_CLASSIC DOMAIN_HASH ACTION_HASH ''sm3'' ''SDF_HashInit/SDF_HashUpdate/SDF_HashFinal'',
      rule ''swsds-classic'' DEV_CLASSIC DOMAIN_FILE ACTION_CREATE_FILE ''auto'' ''SDF_CreateFile'',
      rule ''swsds-classic'' DEV_CLASSIC DOMAIN_FILE ACTION_READ_FILE ''auto'' ''SDF_ReadFile'',
      rule ''swsds-classic'' DEV_CLASSIC DOMAIN_FILE ACTION_WRITE_FILE ''auto'' ''SDF_WriteFile'',
      rule ''swsds-classic'' DEV_CLASSIC DOMAIN_FILE ACTION_DELETE_FILE ''auto'' ''SDF_DeleteFile'',
      rule ''gm3000-skf'' DEV_CLASSIC DOMAIN_DEVICE ACTION_GET_DEVICE_INFO ''auto'' ''SKF_GetDevInfo'',
      rule ''gm3000-skf'' DEV_CLASSIC DOMAIN_DEVICE ACTION_GENERATE_RANDOM ''auto'' ''SKF_GenRandom'',
      rule ''gm3000-skf'' DEV_CLASSIC DOMAIN_KEY ACTION_GET_PRIVATE_KEY_ACCESS ''auto'' ''SKF_VerifyPIN'',
      rule ''gm3000-skf'' DEV_CLASSIC DOMAIN_KEY ACTION_RELEASE_PRIVATE_KEY_ACCESS ''auto'' ''SKF_ClearSecureState'',
      rule ''gm3000-skf'' DEV_CLASSIC DOMAIN_KEY ACTION_GENERATE_KEY_PAIR ''sm2'' ''SKF_GenECCKeyPair'',
      rule ''gm3000-skf'' DEV_CLASSIC DOMAIN_KEY ACTION_GENERATE_KEY_PAIR ''rsa'' ''SKF_GenRSAKeyPair'',
      rule ''gm3000-skf'' DEV_CLASSIC DOMAIN_KEY ACTION_GENERATE_KEY_PAIR ''kyber768'' ''SKF_GenerateKeyPairKyber'',
      rule ''gm3000-skf'' DEV_CLASSIC DOMAIN_KEY ACTION_GENERATE_KEY_PAIR ''mlkem768'' ''SKF_GenerateKeyPairKyber'',
      rule ''gm3000-skf'' DEV_CLASSIC DOMAIN_KEY ACTION_GENERATE_KEY_PAIR ''dilithium3'' ''SKF_GenerateKeyPair_Dilithium'',
      rule ''gm3000-skf'' DEV_CLASSIC DOMAIN_KEY ACTION_EXPORT_PUBLIC_KEY ''sm2'' ''SKF_ExportPublicKey'',
      rule ''gm3000-skf'' DEV_CLASSIC DOMAIN_KEY ACTION_EXPORT_PUBLIC_KEY ''rsa'' ''SKF_ExportPublicKey'',
      rule ''gm3000-skf'' DEV_CLASSIC DOMAIN_KEY ACTION_IMPORT_KEY ''auto'' ''SKF_SetSymmKey'',
      rule ''gm3000-skf'' DEV_CLASSIC DOMAIN_KEY ACTION_DESTROY_KEY ''auto'' ''SKF_DeleteContainer'',
      rule ''gm3000-skf'' DEV_CLASSIC DOMAIN_ASYM ACTION_SIGN ''sm2'' ''SKF_ECCSignData'',
      rule ''gm3000-skf'' DEV_CLASSIC DOMAIN_ASYM ACTION_VERIFY ''sm2'' ''SKF_ECCVerify'',
      rule ''gm3000-skf'' DEV_CLASSIC DOMAIN_ASYM ACTION_ENCRYPT ''sm2'' ''SKF_ExtECCEncrypt'',
      rule ''gm3000-skf'' DEV_CLASSIC DOMAIN_ASYM ACTION_DECRYPT ''sm2'' ''SKF_ECCDecrypt'',
      rule ''gm3000-skf'' DEV_CLASSIC DOMAIN_ASYM ACTION_SIGN ''rsa'' ''SKF_RSASignData'',
      rule ''gm3000-skf'' DEV_CLASSIC DOMAIN_ASYM ACTION_VERIFY ''rsa'' ''SKF_RSAVerify'',
      rule ''gm3000-skf'' DEV_CLASSIC DOMAIN_ASYM ACTION_ENCRYPT ''rsa'' ''SKF_ExtRSAPubKeyOperation'',
      rule ''gm3000-skf'' DEV_CLASSIC DOMAIN_ASYM ACTION_DECRYPT ''rsa'' ''SKF_RSADecrypt'',
      rule ''gm3000-skf'' DEV_CLASSIC DOMAIN_SYM ACTION_ENCRYPT ''sm4-cbc'' ''SKF_Encrypt'',
      rule ''gm3000-skf'' DEV_CLASSIC DOMAIN_SYM ACTION_DECRYPT ''sm4-cbc'' ''SKF_Decrypt'',
      rule ''gm3000-skf'' DEV_CLASSIC DOMAIN_SYM ACTION_ENCRYPT ''sm4-ecb'' ''SKF_Encrypt'',
      rule ''gm3000-skf'' DEV_CLASSIC DOMAIN_SYM ACTION_DECRYPT ''sm4-ecb'' ''SKF_Decrypt'',
      rule ''gm3000-skf'' DEV_CLASSIC DOMAIN_SYM ACTION_MAC ''sm4-mac'' ''SKF_Mac'',
      rule ''gm3000-skf'' DEV_CLASSIC DOMAIN_HASH ACTION_HASH ''sm3'' ''SKF_Digest'',
      rule ''gm3000-skf'' DEV_CLASSIC DOMAIN_HASH ACTION_HASH ''sha256'' ''SKF_Digest'',
      rule ''gm3000-skf'' DEV_CLASSIC DOMAIN_FILE ACTION_CREATE_FILE ''auto'' ''SKF_CreateFile'',
      rule ''gm3000-skf'' DEV_CLASSIC DOMAIN_FILE ACTION_READ_FILE ''auto'' ''SKF_ReadFile'',
      rule ''gm3000-skf'' DEV_CLASSIC DOMAIN_FILE ACTION_WRITE_FILE ''auto'' ''SKF_WriteFile'',
      rule ''gm3000-skf'' DEV_CLASSIC DOMAIN_FILE ACTION_DELETE_FILE ''auto'' ''SKF_DeleteFile'',
      rule ''gm3000-skf'' DEV_CLASSIC DOMAIN_PQC ACTION_SIGN ''dilithium3'' ''SKF_Sign_Dilithium'',
      rule ''gm3000-skf'' DEV_CLASSIC DOMAIN_PQC ACTION_VERIFY ''dilithium3'' ''SKF_Verify_Dilithium'',
      rule ''gm3000-skf'' DEV_CLASSIC DOMAIN_PQC ACTION_KEM_ENCAP ''kyber768'' ''SKF_Encap_Kyber'',
      rule ''gm3000-skf'' DEV_CLASSIC DOMAIN_PQC ACTION_KEM_DECAP ''kyber768'' ''SKF_Decap_Kyber'',
      rule ''gm3000-skf'' DEV_CLASSIC DOMAIN_PQC ACTION_KEM_ENCAP ''mlkem768'' ''SKF_Encap_Kyber'',
      rule ''gm3000-skf'' DEV_CLASSIC DOMAIN_PQC ACTION_KEM_DECAP ''mlkem768'' ''SKF_Decap_Kyber'',
      rule ''swsds-pqc'' DEV_PQC DOMAIN_DEVICE ACTION_GET_DEVICE_INFO ''auto'' ''SDF_GetDeviceInfo'',
      rule ''swsds-pqc'' DEV_PQC DOMAIN_DEVICE ACTION_GENERATE_RANDOM ''auto'' ''SDF_GenerateRandom'',
      rule ''swsds-pqc'' DEV_PQC DOMAIN_KEY ACTION_GET_PRIVATE_KEY_ACCESS ''auto'' ''SDF_GetPrivateKeyAccessRight'',
      rule ''swsds-pqc'' DEV_PQC DOMAIN_KEY ACTION_RELEASE_PRIVATE_KEY_ACCESS ''auto'' ''SDF_ReleasePrivateKeyAccessRight'',
      rule ''swsds-pqc'' DEV_PQC DOMAIN_KEY ACTION_GENERATE_KEY_PAIR ''dilithium3'' ''SDF_GenerateKeyPair_Dilithium'',
      rule ''swsds-pqc'' DEV_PQC DOMAIN_KEY ACTION_GENERATE_KEY_PAIR ''kyber768'' ''SDF_GenerateKeyPairKyber'',
      rule ''swsds-pqc'' DEV_PQC DOMAIN_KEY ACTION_GENERATE_KEY_PAIR ''mlkem768'' ''SDF_GenerateKeyPairKyber'',
      rule ''swsds-pqc'' DEV_PQC DOMAIN_PQC ACTION_SIGN ''dilithium3'' ''SDF_Sign_Dilithium'',
      rule ''swsds-pqc'' DEV_PQC DOMAIN_PQC ACTION_VERIFY ''dilithium3'' ''SDF_Verify_Dilithium'',
      rule ''swsds-pqc'' DEV_PQC DOMAIN_PQC ACTION_KEM_ENCAP ''kyber768'' ''SDF_Encap_Kyber'',
      rule ''swsds-pqc'' DEV_PQC DOMAIN_PQC ACTION_KEM_DECAP ''kyber768'' ''SDF_Decap_Kyber'',
      rule ''swsds-pqc'' DEV_PQC DOMAIN_PQC ACTION_KEM_ENCAP ''mlkem768'' ''SDF_Encap_Kyber'',
      rule ''swsds-pqc'' DEV_PQC DOMAIN_PQC ACTION_KEM_DECAP ''mlkem768'' ''SDF_Decap_Kyber'',
      rule ''swsds-pqc'' DEV_PQC DOMAIN_HASH ACTION_HASH ''sm3'' ''SDF_HashInit/SDF_HashUpdate/SDF_HashFinal'',
      rule ''swsds-pqc'' DEV_PQC DOMAIN_FILE ACTION_CREATE_FILE ''auto'' ''SDF_CreateFile'',
      rule ''swsds-pqc'' DEV_PQC DOMAIN_FILE ACTION_READ_FILE ''auto'' ''SDF_ReadFile'',
      rule ''swsds-pqc'' DEV_PQC DOMAIN_FILE ACTION_WRITE_FILE ''auto'' ''SDF_WriteFile'',
      rule ''swsds-pqc'' DEV_PQC DOMAIN_FILE ACTION_DELETE_FILE ''auto'' ''SDF_DeleteFile'']"

subsection \<open>Translation\<close>

definition append_text :: "cstring \<Rightarrow> nat \<Rightarrow> cstring \<Rightarrow> cstring" where
  "append_text dst dst_sz src =
     (if dst_sz \<le> length dst then dst else dst @ take (dst_sz - 1 - length dst) src)"

text \<open>The test of the search loop on one rule.\<close>

definition rule_matches ::
  "device_resource_t \<Rightarrow> api_domain_t \<Rightarrow> api_action_t \<Rightarrow> cstring \<Rightarrow> translation_rule_t \<Rightarrow> bool" where
  "rule_matches d dm act alg r \<longleftrightarrow>
     (if rule_type r \<noteq> device_type d then False
      else if strcmp (rule_backend_profile r) (backend_profile d) \<noteq> 0 then False
      else if rule_domain r \<noteq> dm \<or> rule_action r \<noteq> act then False
      else strcmp (rule_algorithm r) alg = 0 \<or> strcmp (rule_algorithm r) ''auto'' = 0)"

definition find_rule ::
  "device_resource_t \<Rightarrow> api_domain_t \<Rightarrow> api_action_t \<Rightarrow> cstring \<Rightarrow> translation_rule_t option" where
  "find_rule d dm act alg = find (rule_matches d dm act alg) g_rules"

definition no_rule_text ::
  "device_resource_t \<Rightarrow> api_domain_t \<Rightarrow> api_action_t \<Rightarrow> cstring \<Rightarrow> cstring" where
  "no_rule_text d dm act alg =
     ''no translation rule for profile='' @ backend_profile d @ '' domain='' @ domain_to_string dm
     @ '' action='' @ action_to_string act @ '' alg='' @ alg"

text \<open>A \<^verbatim>\<open>NULL\<close> text argument is \<open>None\<close> and is copied as the empty string.\<close>

definition or_empty :: "cstring option \<Rightarrow> cstring" where
  "or_empty s = (case s of None \<Rightarrow> [] | Some t \<Rightarrow> t)"

definition translate_backend_call ::
  "api_domain_t \<Rightarrow> api_action_t \<Rightarrow> cstring \<Rightarrow> cstring option \<Rightarrow> cstring option \<Rightarrow> cstring option
     \<Rightarrow> device_resource_t \<Rightarrow> nat \<Rightarrow> cstring + translated_call_t" where
  "translate_backend_call dm act alg payload aux_payload key_ref d esz =
     (let call = \<lparr>call_domain = dm, call_action = act,
                  call_algorithm = snprintf_s MAX_FIELD_LEN alg,
                  call_key_ref = snprintf_s MAX_FIELD_LEN (or_empty key_ref),
                  call_payload = snprintf_s MAX_PAYLOAD_LEN (or_empty payload),
                  call_aux_payload = snprintf_s MAX_PAYLOAD_LEN (or_empty aux_payload)\<rparr>;
          name = append_text [] MAX_FIELD_LEN (device_type_to_string (device_type d));
          name = append_text name MAX_FIELD_LEN '':'';
          name = append_text name MAX_FIELD_LEN (backend_profile d)
      in
      case find_rule d dm act alg of
        None \<Rightarrow> Inl (snprintf_s esz (no_rule_text d dm act alg))
      | Some r \<Rightarrow> Inr \<lparr>tc_call = call, tc_backend_name = name,
                       tc_backend_call_name = snprintf_s MAX_FIELD_LEN (rule_backend_call r)\<rparr>)"

definition translate_request_for_device ::
  "request_t \<Rightarrow> device_resource_t \<Rightarrow> nat \<Rightarrow> cstring + translated_call_t" where
  "translate_request_for_device req d esz =
     translate_backend_call (req_domain req) (req_action req) (req_algorithm req)
       (Some (req_payload req)) (Some (req_aux_payload req)) (Some (req_key_ref req)) d esz"

subsection \<open>Lemmas\<close>

lemma append_text_fits: "0 < sz \<Longrightarrow> length dst < sz \<Longrightarrow> length (append_text dst sz src) < sz"
  by (simp add: append_text_def)

lemma append_text_whole: "length dst + length src < sz \<Longrightarrow> append_text dst sz src = dst @ src"
  by (simp add: append_text_def)

lemma append_text_no_nul: "no_nul dst \<Longrightarrow> no_nul src \<Longrightarrow> no_nul (append_text dst sz src)"
  by (simp add: append_text_def)

lemma rule_matches_iff:
  "rule_matches d dm act alg r \<longleftrightarrow> rule_type r = device_type d \<and> rule_backend_profile r = backend_profile d
     \<and> rule_domain r = dm \<and> rule_action r = act \<and> rule_algorithm r \<in> {alg, ''auto''}"
  by (auto simp: rule_matches_def)

lemma find_rule_Some:
  "find_rule d dm act alg = Some r \<Longrightarrow> r \<in> set g_rules \<and> rule_matches d dm act alg r"
  unfolding find_rule_def by (auto simp: find_Some_iff)

lemma find_rule_None:
  "find_rule d dm act alg = None \<longleftrightarrow> (\<forall>r \<in> set g_rules. \<not> rule_matches d dm act alg r)"
  unfolding find_rule_def by (auto simp: find_None_iff)

lemma translate_Inr:
  assumes "translate_backend_call dm act alg payload aux key_ref d esz = Inr t"
  obtains r where "r \<in> set g_rules" "rule_matches d dm act alg r"
    "tc_call t = \<lparr>call_domain = dm, call_action = act, call_algorithm = snprintf_s MAX_FIELD_LEN alg,
       call_key_ref = snprintf_s MAX_FIELD_LEN (or_empty key_ref),
       call_payload = snprintf_s MAX_PAYLOAD_LEN (or_empty payload),
       call_aux_payload = snprintf_s MAX_PAYLOAD_LEN (or_empty aux)\<rparr>"
    "tc_backend_call_name t = snprintf_s MAX_FIELD_LEN (rule_backend_call r)"
  using assms find_rule_Some [of d dm act alg]
  by (auto simp: translate_backend_call_def Let_def split: option.splits)

text \<open>A rule of the table names its domain and action, and its call fits its buffer.\<close>

definition rule_ok :: "translation_rule_t \<Rightarrow> bool" where
  "rule_ok r \<longleftrightarrow> rule_domain r \<notin> {DOMAIN_UNKNOWN, DOMAIN_AUTH} \<and> rule_action r \<noteq> ACTION_UNKNOWN
     \<and> rule_action r \<noteq> ACTION_CHECK_PIN \<and> rule_type r \<noteq> DEV_UNKNOWN
     \<and> rule_backend_call r \<noteq> [] \<and> length (rule_backend_call r) < 256"

lemma g_rules_ok: "list_all rule_ok g_rules"
  by (simp add: g_rules_def rule_def rule_ok_def)

text \<open>No two rules answer the same question, so the order of the table does not matter.\<close>

definition rules_disjoint :: "translation_rule_t \<Rightarrow> translation_rule_t \<Rightarrow> bool" where
  "rules_disjoint r s \<longleftrightarrow>
     rule_type r \<noteq> rule_type s \<or> rule_domain r \<noteq> rule_domain s \<or> rule_action r \<noteq> rule_action s
     \<or> rule_backend_profile r \<noteq> rule_backend_profile s
     \<or> (rule_algorithm r \<noteq> rule_algorithm s \<and> rule_algorithm r \<noteq> ''auto'' \<and> rule_algorithm s \<noteq> ''auto'')"

fun pairwise_list :: "('a \<Rightarrow> 'a \<Rightarrow> bool) \<Rightarrow> 'a list \<Rightarrow> bool" where
  "pairwise_list p [] = True"
| "pairwise_list p (x # xs) = (list_all (p x) xs \<and> pairwise_list p xs)"

lemma pairwise_listD:
  "pairwise_list p xs \<Longrightarrow> x \<in> set xs \<Longrightarrow> y \<in> set xs \<Longrightarrow> x = y \<or> p x y \<or> p y x"
  by (induction xs) (auto simp: list_all_iff)

lemma g_rules_disjoint: "pairwise_list rules_disjoint g_rules"
  by (simp add: g_rules_def rule_def rules_disjoint_def)

lemma rule_unique:
  assumes "r \<in> set g_rules" "s \<in> set g_rules" "rule_matches d dm act alg r" "rule_matches d dm act alg s"
  shows "r = s"
proof -
  have "\<not> rules_disjoint r s" "\<not> rules_disjoint s r"
    using assms(3,4) by (auto simp: rule_matches_iff rules_disjoint_def)
  with pairwise_listD [OF g_rules_disjoint assms(1,2)] show ?thesis by blast
qed

subsection \<open>Properties\<close>

text \<open>
  Property C25. A call is translated exactly when the table has a rule for the device's type
  and profile, the domain, the action and the algorithm (or any algorithm). The rule is
  unique, so the position of a rule in the table does not matter; the result carries its
  backend call, the type and profile of the device, and all of the call: domain, action, and
  the texts (algorithm, key reference, payload and second payload) cut to their buffers.
\<close>

theorem translate_backend_call_spec:
  "case translate_backend_call dm act alg payload aux key_ref d esz of
     Inr t \<Rightarrow>
       (\<exists>!r. r \<in> set g_rules \<and> rule_matches d dm act alg r)
       \<and> (\<exists>r \<in> set g_rules. rule_matches d dm act alg r \<and> tc_backend_call_name t = rule_backend_call r)
       \<and> tc_backend_name t = take 255 (device_type_to_string (device_type d) @ CHR '':'' # backend_profile d)
       \<and> tc_call t = \<lparr>call_domain = dm, call_action = act, call_algorithm = take 255 alg,
           call_key_ref = take 255 (or_empty key_ref), call_payload = take 1023 (or_empty payload),
           call_aux_payload = take 1023 (or_empty aux)\<rparr>
   | Inl e \<Rightarrow> (\<nexists>r. r \<in> set g_rules \<and> rule_matches d dm act alg r)
       \<and> e = snprintf_s esz (no_rule_text d dm act alg)"
proof (cases "translate_backend_call dm act alg payload aux key_ref d esz")
  case (Inl e)
  then have "find_rule d dm act alg = None" "e = snprintf_s esz (no_rule_text d dm act alg)"
    by (auto simp: translate_backend_call_def Let_def split: option.splits)
  then show ?thesis using Inl find_rule_None by auto
next
  case (Inr t)
  from translate_Inr [OF Inr] obtain r where
      r: "r \<in> set g_rules" "rule_matches d dm act alg r"
      "tc_backend_call_name t = snprintf_s MAX_FIELD_LEN (rule_backend_call r)"
    and c: "tc_call t = \<lparr>call_domain = dm, call_action = act, call_algorithm = snprintf_s MAX_FIELD_LEN alg,
       call_key_ref = snprintf_s MAX_FIELD_LEN (or_empty key_ref),
       call_payload = snprintf_s MAX_PAYLOAD_LEN (or_empty payload),
       call_aux_payload = snprintf_s MAX_PAYLOAD_LEN (or_empty aux)\<rparr>" by blast
  have "length (rule_backend_call r) < MAX_FIELD_LEN"
    using g_rules_ok r(1) by (auto simp: list_all_iff rule_ok_def MAX_FIELD_LEN_def)
  then have "tc_backend_call_name t = rule_backend_call r" using r(3) by simp
  moreover have "\<exists>!r. r \<in> set g_rules \<and> rule_matches d dm act alg r"
    using r(1,2) rule_unique by blast
  moreover have "tc_backend_name t = take 255 (device_type_to_string (device_type d) @ CHR '':'' # backend_profile d)"
    using Inr by (cases "device_type d")
      (auto simp: translate_backend_call_def Let_def append_text_def size_defs split: option.splits)
  ultimately show ?thesis
    using Inr r(1,2) c by (auto simp: snprintf_s_def size_defs)
qed

theorem translate_backend_call_spec_witness:
  "\<exists>t. translate_backend_call DOMAIN_HASH ACTION_HASH ''sm3'' (Some ''x'') (Some ''y'') None
      (sample_device ''d'' 1 \<lparr> backend_profile := ''gm3000-skf'' \<rparr>) 64 = Inr t
    \<and> call_payload (tc_call t) = ''x'' \<and> call_aux_payload (tc_call t) = ''y''"
proof -
  let ?d = "sample_device ''d'' 1 \<lparr> backend_profile := ''gm3000-skf'' \<rparr>"
  have "rule_matches ?d DOMAIN_HASH ACTION_HASH ''sm3''
      (rule ''gm3000-skf'' DEV_CLASSIC DOMAIN_HASH ACTION_HASH ''sm3'' ''SKF_Digest'')"
    by (simp add: rule_matches_iff rule_def sample_device_def)
  moreover have "rule ''gm3000-skf'' DEV_CLASSIC DOMAIN_HASH ACTION_HASH ''sm3'' ''SKF_Digest'' \<in> set g_rules"
    by (simp add: g_rules_def)
  ultimately show ?thesis
    using translate_backend_call_spec [where dm = DOMAIN_HASH and act = ACTION_HASH and alg = "''sm3''"
        and payload = "Some ''x''" and aux = "Some ''y''" and key_ref = None and d = ?d and esz = 64]
    by (cases "translate_backend_call DOMAIN_HASH ACTION_HASH ''sm3'' (Some ''x'') (Some ''y'') None ?d 64")
      (auto simp: or_empty_def)
qed

end
