(* ===== verification/Drivers.thy ===== *)
theory Drivers
  imports Translator
begin

text \<open>
  \<^verbatim>\<open>src/server/driver/driver_dispatch.c\<close>, \<^verbatim>\<open>driver_classic.c\<close> and \<^verbatim>\<open>driver_pqc.c\<close>:
  the adapter interface, the dispatch by domain and the two built-in adapters. A handler
  gets the device, the call, the response to fill, the size of \<^verbatim>\<open>errbuf\<close> and the state \<open>'w\<close>
  of the libraries outside the program; it returns \<open>Inl\<close> the text left in \<^verbatim>\<open>errbuf\<close> (return
  value \<open>-1\<close>) or \<open>Inr ()\<close>, the response as it leaves it, and the new outside state. The
  locale \<open>adapter\<close> is the contract of a handler, \<open>adapter_family\<close> that of a whole
  \<^verbatim>\<open>driver_ops_t\<close>; both built-in adapters interpret it.
\<close>

named_theorems handler_defs "definitions of the adapter handlers"

subsection \<open>Handlers and dispatch\<close>

type_synonym 'w adapter_handler =
  "device_resource_t \<Rightarrow> translated_call_t \<Rightarrow> response_t \<Rightarrow> nat \<Rightarrow> 'w
     \<Rightarrow> (cstring + unit) \<times> response_t \<times> 'w"

text \<open>\<open>None\<close> is the null pointer.\<close>

record 'w driver_ops_t =
  device_manage :: "'w adapter_handler option"
  key_manage :: "'w adapter_handler option"
  asym_crypto :: "'w adapter_handler option"
  sym_crypto :: "'w adapter_handler option"
  hash_ops :: "'w adapter_handler option"
  file_ops :: "'w adapter_handler option"
  pqc_ops :: "'w adapter_handler option"

fun handler_for :: "'w driver_ops_t \<Rightarrow> api_domain_t \<Rightarrow> 'w adapter_handler option" where
  "handler_for ops DOMAIN_DEVICE = device_manage ops"
| "handler_for ops DOMAIN_KEY = key_manage ops"
| "handler_for ops DOMAIN_ASYM = asym_crypto ops"
| "handler_for ops DOMAIN_SYM = sym_crypto ops"
| "handler_for ops DOMAIN_HASH = hash_ops ops"
| "handler_for ops DOMAIN_FILE = file_ops ops"
| "handler_for ops DOMAIN_PQC = pqc_ops ops"
| "handler_for ops _ = None"

definition driver_dispatch :: "'w driver_ops_t \<Rightarrow> api_domain_t \<Rightarrow> 'w adapter_handler" where
  "driver_dispatch ops dm d call resp esz w =
     (if dm = DOMAIN_UNKNOWN \<or> dm = DOMAIN_AUTH
      then (Inl (snprintf_s esz (''unsupported dispatch domain='' @ domain_to_string dm)), resp, w)
      else case handler_for ops dm of
        None \<Rightarrow> (Inl (snprintf_s esz (''adapter missing handler for domain='' @ domain_to_string dm)), resp, w)
      | Some fn \<Rightarrow> fn d call resp esz w)"

definition fill_common :: "device_resource_t \<Rightarrow> translated_call_t \<Rightarrow> response_t \<Rightarrow> response_t" where
  "fill_common d call resp = resp \<lparr>
     resp_selected_device := snprintf_s MAX_RESPONSE_LEN (device_id d),
     resp_backend_name := snprintf_s MAX_RESPONSE_LEN (tc_backend_name call),
     resp_backend_call := snprintf_s MAX_RESPONSE_LEN (tc_backend_call_name call) \<rparr>"

text \<open>The formats \<^verbatim>\<open>"name(%s)"\<close> and \<^verbatim>\<open>"name(%s,%s)"\<close>, and a successful return.\<close>

definition text1 :: "cstring \<Rightarrow> cstring \<Rightarrow> cstring" where
  "text1 name a = name @ ''('' @ a @ '')''"

definition text2 :: "cstring \<Rightarrow> cstring \<Rightarrow> cstring \<Rightarrow> cstring" where
  "text2 name a b = name @ ''('' @ a @ '','' @ b @ '')''"

definition adapter_ok :: "cstring \<Rightarrow> response_t \<Rightarrow> 'w \<Rightarrow> (cstring + unit) \<times> response_t \<times> 'w" where
  "adapter_ok s resp w = (Inr (), resp \<lparr> resp_result := snprintf_s MAX_RESPONSE_LEN s \<rparr>, w)"

definition unsupported_text :: "cstring \<Rightarrow> translated_call_t \<Rightarrow> cstring" where
  "unsupported_text who call =
     who @ '' adapter does not support domain='' @ domain_to_string (call_domain (tc_call call))
     @ '' action='' @ action_to_string (call_action (tc_call call))
     @ '' alg='' @ call_algorithm (tc_call call)"

subsection \<open>The classic adapter\<close>

definition classic_not_supported :: "'w adapter_handler" where
  "classic_not_supported d call resp esz w =
     (Inl (snprintf_s esz (unsupported_text ''classic'' call)), resp, w)"

definition classic_device_manage :: "'w adapter_handler" where
  "classic_device_manage d call resp esz w =
     (let resp = fill_common d call resp in
      case call_action (tc_call call) of
        ACTION_GET_DEVICE_INFO \<Rightarrow>
            adapter_ok (text1 ''classic-device-info'' (device_id d)) resp w
      | ACTION_GENERATE_RANDOM \<Rightarrow>
            adapter_ok (text1 ''classic-random''
              (if call_payload (tc_call call) = [] then ''16'' else call_payload (tc_call call))) resp w
      | _ \<Rightarrow> classic_not_supported d call resp esz w)"

definition classic_key_manage :: "'w adapter_handler" where
  "classic_key_manage d call resp esz w =
     (let resp = fill_common d call resp in
      case call_action (tc_call call) of
        ACTION_GET_PRIVATE_KEY_ACCESS \<Rightarrow>
            adapter_ok (text1 ''classic-key-access-ok'' (call_key_ref (tc_call call))) resp w
      | ACTION_RELEASE_PRIVATE_KEY_ACCESS \<Rightarrow>
            adapter_ok (text1 ''classic-key-access-released'' (call_key_ref (tc_call call))) resp w
      | ACTION_GENERATE_KEY_PAIR \<Rightarrow>
            adapter_ok (text2 ''classic-keypair'' (call_algorithm (tc_call call)) (call_key_ref (tc_call call))) resp w
      | ACTION_EXPORT_PUBLIC_KEY \<Rightarrow>
            adapter_ok (text2 ''classic-export-pub'' (call_algorithm (tc_call call)) (call_key_ref (tc_call call))) resp w
      | ACTION_IMPORT_KEY \<Rightarrow>
            adapter_ok (text1 ''classic-import-key'' (call_key_ref (tc_call call))) resp w
      | ACTION_DESTROY_KEY \<Rightarrow>
            adapter_ok (text1 ''classic-destroy-key'' (call_key_ref (tc_call call))) resp w
      | _ \<Rightarrow> classic_not_supported d call resp esz w)"

definition classic_asym :: "'w adapter_handler" where
  "classic_asym d call resp esz w =
     (let resp = fill_common d call resp in
      case call_action (tc_call call) of
        ACTION_SIGN \<Rightarrow>
            adapter_ok (text2 ''classic-signature'' (call_algorithm (tc_call call)) (call_payload (tc_call call))) resp w
      | ACTION_VERIFY \<Rightarrow>
            adapter_ok (text2 ''classic-verify-ok'' (call_algorithm (tc_call call)) (call_payload (tc_call call))) resp w
      | ACTION_ENCRYPT \<Rightarrow>
            adapter_ok (text2 ''classic-cipher'' (call_algorithm (tc_call call)) (call_payload (tc_call call))) resp w
      | ACTION_DECRYPT \<Rightarrow>
            adapter_ok (text2 ''classic-plain'' (call_algorithm (tc_call call)) (call_payload (tc_call call))) resp w
      | _ \<Rightarrow> classic_not_supported d call resp esz w)"

definition classic_sym :: "'w adapter_handler" where
  "classic_sym d call resp esz w =
     (let resp = fill_common d call resp in
      case call_action (tc_call call) of
        ACTION_ENCRYPT \<Rightarrow>
            adapter_ok (text2 ''classic-sym-enc'' (call_algorithm (tc_call call)) (call_payload (tc_call call))) resp w
      | ACTION_DECRYPT \<Rightarrow>
            adapter_ok (text2 ''classic-sym-dec'' (call_algorithm (tc_call call)) (call_payload (tc_call call))) resp w
      | ACTION_MAC \<Rightarrow>
            adapter_ok (text2 ''classic-mac'' (call_algorithm (tc_call call)) (call_payload (tc_call call))) resp w
      | _ \<Rightarrow> classic_not_supported d call resp esz w)"

definition classic_hash :: "'w adapter_handler" where
  "classic_hash d call resp esz w =
     (let resp = fill_common d call resp in
      case call_action (tc_call call) of
        ACTION_HASH \<Rightarrow>
            adapter_ok (text2 ''classic-hash'' (call_algorithm (tc_call call)) (call_payload (tc_call call))) resp w
      | _ \<Rightarrow> classic_not_supported d call resp esz w)"

definition classic_file :: "'w adapter_handler" where
  "classic_file d call resp esz w =
     (let resp = fill_common d call resp in
      case call_action (tc_call call) of
        ACTION_CREATE_FILE \<Rightarrow>
            adapter_ok (text1 ''classic-create-file'' (call_key_ref (tc_call call))) resp w
      | ACTION_READ_FILE \<Rightarrow>
            adapter_ok (text1 ''classic-read-file'' (call_key_ref (tc_call call))) resp w
      | ACTION_WRITE_FILE \<Rightarrow>
            adapter_ok (text1 ''classic-write-file'' (call_key_ref (tc_call call))) resp w
      | ACTION_DELETE_FILE \<Rightarrow>
            adapter_ok (text1 ''classic-delete-file'' (call_key_ref (tc_call call))) resp w
      | _ \<Rightarrow> classic_not_supported d call resp esz w)"

definition classic_driver_ops :: "'w driver_ops_t" where
  "classic_driver_ops = \<lparr>device_manage = Some classic_device_manage, key_manage = Some classic_key_manage,
     asym_crypto = Some classic_asym, sym_crypto = Some classic_sym, hash_ops = Some classic_hash,
     file_ops = Some classic_file, pqc_ops = Some classic_not_supported\<rparr>"

subsection \<open>The post-quantum adapter\<close>

definition pqc_not_supported :: "'w adapter_handler" where
  "pqc_not_supported d call resp esz w =
     (Inl (snprintf_s esz (unsupported_text ''pqc'' call)), resp, w)"

definition pqc_device_manage :: "'w adapter_handler" where
  "pqc_device_manage d call resp esz w =
     (let resp = fill_common d call resp in
      case call_action (tc_call call) of
        ACTION_GET_DEVICE_INFO \<Rightarrow>
            adapter_ok (text1 ''pqc-device-info'' (device_id d)) resp w
      | ACTION_GENERATE_RANDOM \<Rightarrow>
            adapter_ok (text1 ''pqc-random''
              (if call_payload (tc_call call) = [] then ''16'' else call_payload (tc_call call))) resp w
      | _ \<Rightarrow> pqc_not_supported d call resp esz w)"

definition pqc_key_manage :: "'w adapter_handler" where
  "pqc_key_manage d call resp esz w =
     (let resp = fill_common d call resp in
      case call_action (tc_call call) of
        ACTION_GET_PRIVATE_KEY_ACCESS \<Rightarrow>
            adapter_ok (text1 ''pqc-key-access-ok'' (call_key_ref (tc_call call))) resp w
      | ACTION_RELEASE_PRIVATE_KEY_ACCESS \<Rightarrow>
            adapter_ok (text1 ''pqc-key-access-released'' (call_key_ref (tc_call call))) resp w
      | ACTION_GENERATE_KEY_PAIR \<Rightarrow>
            adapter_ok (text2 ''pqc-keypair'' (call_algorithm (tc_call call)) (call_key_ref (tc_call call))) resp w
      | _ \<Rightarrow> pqc_not_supported d call resp esz w)"

definition pqc_hash :: "'w adapter_handler" where
  "pqc_hash d call resp esz w =
     (let resp = fill_common d call resp in
      case call_action (tc_call call) of
        ACTION_HASH \<Rightarrow>
            adapter_ok (text2 ''pqc-hash'' (call_algorithm (tc_call call)) (call_payload (tc_call call))) resp w
      | _ \<Rightarrow> pqc_not_supported d call resp esz w)"

definition pqc_file :: "'w adapter_handler" where
  "pqc_file d call resp esz w =
     (let resp = fill_common d call resp in
      case call_action (tc_call call) of
        ACTION_CREATE_FILE \<Rightarrow>
            adapter_ok (text1 ''pqc-create-file'' (call_key_ref (tc_call call))) resp w
      | ACTION_READ_FILE \<Rightarrow>
            adapter_ok (text1 ''pqc-read-file'' (call_key_ref (tc_call call))) resp w
      | ACTION_WRITE_FILE \<Rightarrow>
            adapter_ok (text1 ''pqc-write-file'' (call_key_ref (tc_call call))) resp w
      | ACTION_DELETE_FILE \<Rightarrow>
            adapter_ok (text1 ''pqc-delete-file'' (call_key_ref (tc_call call))) resp w
      | _ \<Rightarrow> pqc_not_supported d call resp esz w)"

definition pqc_ops_impl :: "'w adapter_handler" where
  "pqc_ops_impl d call resp esz w =
     (let resp = fill_common d call resp in
      case call_action (tc_call call) of
        ACTION_SIGN \<Rightarrow>
            adapter_ok (text2 ''pqc-signature'' (call_algorithm (tc_call call)) (call_payload (tc_call call))) resp w
      | ACTION_VERIFY \<Rightarrow>
            adapter_ok (text2 ''pqc-verify-ok'' (call_algorithm (tc_call call)) (call_payload (tc_call call))) resp w
      | ACTION_KEM_ENCAP \<Rightarrow>
            adapter_ok (text2 ''pqc-kem-ct'' (call_algorithm (tc_call call)) (call_payload (tc_call call))) resp w
      | ACTION_KEM_DECAP \<Rightarrow>
            adapter_ok (text2 ''pqc-kem-ss'' (call_algorithm (tc_call call)) (call_payload (tc_call call))) resp w
      | _ \<Rightarrow> pqc_not_supported d call resp esz w)"

definition pqc_driver_ops :: "'w driver_ops_t" where
  "pqc_driver_ops = \<lparr>device_manage = Some pqc_device_manage, key_manage = Some pqc_key_manage,
     asym_crypto = Some pqc_not_supported, sym_crypto = Some pqc_not_supported,
     hash_ops = Some pqc_hash, file_ops = Some pqc_file, pqc_ops = Some pqc_ops_impl\<rparr>"

declare
  classic_not_supported_def [handler_defs] classic_device_manage_def [handler_defs] classic_key_manage_def [handler_defs] classic_asym_def [handler_defs] classic_sym_def [handler_defs] classic_hash_def [handler_defs] classic_file_def [handler_defs] pqc_not_supported_def [handler_defs] pqc_device_manage_def [handler_defs] pqc_key_manage_def [handler_defs] pqc_hash_def [handler_defs] pqc_file_def [handler_defs] pqc_ops_impl_def [handler_defs]

subsection \<open>The contract of a handler\<close>

text \<open>
  On success the response names the device, the backend and the backend call; a handler never
  touches the request id, the status or the trace, and an error text fits \<^verbatim>\<open>errbuf\<close>.
\<close>

locale adapter =
  fixes h :: "'w adapter_handler"
  assumes success: "h d call resp esz w = (Inr (), resp', w') \<Longrightarrow>
      resp_selected_device resp' = snprintf_s MAX_RESPONSE_LEN (device_id d)
      \<and> resp_backend_name resp' = snprintf_s MAX_RESPONSE_LEN (tc_backend_name call)
      \<and> resp_backend_call resp' = snprintf_s MAX_RESPONSE_LEN (tc_backend_call_name call)"
    and frame: "h d call resp esz w = (res, resp', w') \<Longrightarrow>
      resp_request_id resp' = resp_request_id resp \<and> resp_status resp' = resp_status resp
      \<and> resp_trace resp' = resp_trace resp"
    and result_fits: "h d call resp esz w = (Inr (), resp', w') \<Longrightarrow> length (resp_result resp') < MAX_RESPONSE_LEN"
    and failure: "h d call resp esz w = (Inl e, resp', w') \<Longrightarrow> \<exists>m. e = snprintf_s esz m"
begin

lemma success_names:
  assumes "h d call resp esz w = (Inr (), resp', w')" and "length (device_id d) < MAX_RESPONSE_LEN"
  shows "resp_selected_device resp' = device_id d"
  using success [OF assms(1)] assms(2) by simp

lemma failure_fits:
  "h d call resp esz w = (Inl e, resp', w') \<Longrightarrow> 0 < esz \<Longrightarrow> length e < esz"
  using failure length_snprintf_s by metis

end

locale adapter_family =
  fixes ops :: "'w driver_ops_t"
  assumes handlers: "handler_for ops dm = Some h \<Longrightarrow> adapter h"
begin

lemma dispatch_adapter: "adapter (driver_dispatch ops dm)"
proof (cases "dm = DOMAIN_UNKNOWN \<or> dm = DOMAIN_AUTH")
  case True
  show ?thesis
    by unfold_locales (use True in \<open>auto simp: driver_dispatch_def\<close>)
next
  case False
  show ?thesis
  proof (cases "handler_for ops dm")
    case None
    show ?thesis
      by unfold_locales (use False None in \<open>auto simp: driver_dispatch_def\<close>)
  next
    case (Some h)
    have "driver_dispatch ops dm = h"
      using False Some by (intro ext) (simp add: driver_dispatch_def)
    with handlers [OF Some] show ?thesis by simp
  qed
qed

end

lemma adapter_okI:
  assumes "\<And>d call resp esz w.
      (\<exists>s. h d call resp esz w = adapter_ok s (fill_common d call resp) w) \<or>
      (\<exists>r m. h d call resp esz w = (Inl (snprintf_s esz m), r, w)
         \<and> (r = resp \<or> r = fill_common d call resp))"
  shows "adapter h"
proof unfold_locales
  fix d :: device_resource_t and call resp esz w res resp' w'
  show "resp_request_id resp' = resp_request_id resp \<and> resp_status resp' = resp_status resp
      \<and> resp_trace resp' = resp_trace resp" if "h d call resp esz w = (res, resp', w')"
    using assms [of d call resp esz w] that by (auto simp: adapter_ok_def fill_common_def)
  assume a: "h d call resp esz w = (Inr (), resp', w')"
  show "resp_selected_device resp' = snprintf_s MAX_RESPONSE_LEN (device_id d)
      \<and> resp_backend_name resp' = snprintf_s MAX_RESPONSE_LEN (tc_backend_name call)
      \<and> resp_backend_call resp' = snprintf_s MAX_RESPONSE_LEN (tc_backend_call_name call)"
    using assms [of d call resp esz w] a by (auto simp: adapter_ok_def fill_common_def)
  show "length (resp_result resp') < MAX_RESPONSE_LEN"
    using assms [of d call resp esz w] a by (auto simp: adapter_ok_def length_snprintf_s)
next
  fix d :: device_resource_t and call resp esz w e resp' w'
  assume "h d call resp esz w = (Inl e, resp', w')"
  then show "\<exists>m. e = snprintf_s esz m"
    using assms [of d call resp esz w] by (auto simp: adapter_ok_def)
qed

lemma adapter_classic_not_supported: "adapter classic_not_supported"
  by (rule adapter_okI) (simp add: handler_defs Let_def split: api_action_t.split, blast?)

lemma adapter_classic_device_manage: "adapter classic_device_manage"
  by (rule adapter_okI) (simp add: handler_defs Let_def split: api_action_t.split, blast?)

lemma adapter_classic_key_manage: "adapter classic_key_manage"
  by (rule adapter_okI) (simp add: handler_defs Let_def split: api_action_t.split, blast?)

lemma adapter_classic_asym: "adapter classic_asym"
  by (rule adapter_okI) (simp add: handler_defs Let_def split: api_action_t.split, blast?)

lemma adapter_classic_sym: "adapter classic_sym"
  by (rule adapter_okI) (simp add: handler_defs Let_def split: api_action_t.split, blast?)

lemma adapter_classic_hash: "adapter classic_hash"
  by (rule adapter_okI) (simp add: handler_defs Let_def split: api_action_t.split, blast?)

lemma adapter_classic_file: "adapter classic_file"
  by (rule adapter_okI) (simp add: handler_defs Let_def split: api_action_t.split, blast?)

lemma adapter_pqc_not_supported: "adapter pqc_not_supported"
  by (rule adapter_okI) (simp add: handler_defs Let_def split: api_action_t.split, blast?)

lemma adapter_pqc_device_manage: "adapter pqc_device_manage"
  by (rule adapter_okI) (simp add: handler_defs Let_def split: api_action_t.split, blast?)

lemma adapter_pqc_key_manage: "adapter pqc_key_manage"
  by (rule adapter_okI) (simp add: handler_defs Let_def split: api_action_t.split, blast?)

lemma adapter_pqc_hash: "adapter pqc_hash"
  by (rule adapter_okI) (simp add: handler_defs Let_def split: api_action_t.split, blast?)

lemma adapter_pqc_file: "adapter pqc_file"
  by (rule adapter_okI) (simp add: handler_defs Let_def split: api_action_t.split, blast?)

lemma adapter_pqc_ops_impl: "adapter pqc_ops_impl"
  by (rule adapter_okI) (simp add: handler_defs Let_def split: api_action_t.split, blast?)

interpretation classic: adapter_family "classic_driver_ops :: 'w driver_ops_t"
proof (rule adapter_family.intro)
  fix dm and h :: "'w adapter_handler"
  assume "handler_for (classic_driver_ops :: 'w driver_ops_t) dm = Some h"
  then show "adapter h"
    by (cases dm) (auto simp: classic_driver_ops_def adapter_classic_device_manage
        adapter_classic_key_manage adapter_classic_asym adapter_classic_sym adapter_classic_hash
        adapter_classic_file adapter_classic_not_supported)
qed

interpretation pqc: adapter_family "pqc_driver_ops :: 'w driver_ops_t"
proof (rule adapter_family.intro)
  fix dm and h :: "'w adapter_handler"
  assume "handler_for (pqc_driver_ops :: 'w driver_ops_t) dm = Some h"
  then show "adapter h"
    by (cases dm) (auto simp: pqc_driver_ops_def adapter_pqc_device_manage
        adapter_pqc_key_manage adapter_pqc_hash adapter_pqc_file adapter_pqc_ops_impl
        adapter_pqc_not_supported)
qed

subsection \<open>Properties\<close>

text \<open>A rule whose calls the built-in adapter of its device type carries out.\<close>

definition rule_served :: "translation_rule_t \<Rightarrow> 'w itself \<Rightarrow> bool" where
  "rule_served r ty \<longleftrightarrow>
     (\<forall>d call resp esz (w :: 'w). call_action (tc_call call) = rule_action r \<longrightarrow>
        (\<exists>s. driver_dispatch (if rule_type r = DEV_CLASSIC then classic_driver_ops else pqc_driver_ops)
            (rule_domain r) d call resp esz w = adapter_ok s (fill_common d call resp) w))"

lemma g_rules_served:
  "list_all (\<lambda>r. rule_backend_profile r = ''gm3000-skf'' \<or> rule_served r ty) g_rules"
  by (simp add: g_rules_def rule_def rule_served_def driver_dispatch_def classic_driver_ops_def
      pqc_driver_ops_def handler_defs Let_def) blast?

lemma served_dispatch:
  assumes "translate_backend_call dm act alg payload aux key_ref d esz = Inr t"
    and "backend_profile d \<noteq> ''gm3000-skf''"
  shows "\<exists>s. driver_dispatch (if device_type d = DEV_CLASSIC then classic_driver_ops else pqc_driver_ops)
      dm d t resp esz' w
    = (Inr (), (fill_common d t resp) \<lparr> resp_result := snprintf_s MAX_RESPONSE_LEN s \<rparr>, w)"
proof -
  from translate_Inr [OF assms(1)] obtain r where
      r: "r \<in> set g_rules" "rule_matches d dm act alg r" and act: "call_action (tc_call t) = act"
    by (metis backend_call_t.select_convs(2))
  then have "rule_served r TYPE('a)"
    using g_rules_served [of "TYPE('a)"] assms(2) by (auto simp: list_all_iff rule_matches_iff)
  with r(2) act show ?thesis by (auto simp: rule_served_def rule_matches_iff adapter_ok_def)
qed

text \<open>
  Property C23. The rule table and the built-in adapters agree: a call that has been
  translated for a device of a built-in profile is carried out by the adapter of the device's
  type. It never ends in an "adapter does not support" error, the response names the device
  and the backend call, and nothing outside the program changes.
\<close>

theorem translated_call_is_served:
  assumes "translate_backend_call dm act alg payload aux key_ref d esz = Inr t"
    and "backend_profile d \<noteq> ''gm3000-skf''"
  shows "\<exists>s. driver_dispatch (if device_type d = DEV_CLASSIC then classic_driver_ops else pqc_driver_ops)
      dm d t resp esz' w
    = (Inr (), (fill_common d t resp) \<lparr> resp_result := snprintf_s MAX_RESPONSE_LEN s \<rparr>, w)"
  using assms by (rule served_dispatch)

theorem translated_call_is_served_witness:
  "\<exists>t s. translate_backend_call DOMAIN_HASH ACTION_HASH ''sm3'' (Some ''x'') None None
      (sample_device ''d'' 1 \<lparr> backend_profile := ''swsds-classic'' \<rparr>) 64 = Inr t
    \<and> driver_dispatch classic_driver_ops DOMAIN_HASH
        (sample_device ''d'' 1 \<lparr> backend_profile := ''swsds-classic'' \<rparr>) t zero_response 64 ()
      = (Inr (), (fill_common (sample_device ''d'' 1 \<lparr> backend_profile := ''swsds-classic'' \<rparr>) t zero_response)
           \<lparr> resp_result := snprintf_s MAX_RESPONSE_LEN s \<rparr>, ())"
proof -
  let ?d = "sample_device ''d'' 1 \<lparr> backend_profile := ''swsds-classic'' \<rparr>"
  have "find_rule ?d DOMAIN_HASH ACTION_HASH ''sm3'' \<noteq> None"
    unfolding find_rule_None
    by (simp add: g_rules_def rule_def rule_matches_iff sample_device_def)
  then obtain t where t: "translate_backend_call DOMAIN_HASH ACTION_HASH ''sm3'' (Some ''x'') None None ?d 64 = Inr t"
    by (auto simp: translate_backend_call_def Let_def)
  have p: "backend_profile ?d \<noteq> ''gm3000-skf''" by simp
  have "device_type ?d = DEV_CLASSIC" by (simp add: sample_device_def)
  with translated_call_is_served [OF t p, of zero_response 64 "()"] t show ?thesis by auto
qed

end
