(* ===== verification/Scheduler.thy ===== *)
theory Scheduler
  imports Drivers
begin

text \<open>
  \<^verbatim>\<open>src/server/service/scheduler.c\<close>: the PIN check, the choice of the device for a key
  reference, one step on a device, sequences of steps, and the execution of a request. The
  state is the registry and the outside state \<open>'w\<close> of the device libraries; \<open>skf\<close> stands for
  \<^verbatim>\<open>skf_driver_ops()\<close>. \<^verbatim>\<open>errbuf\<close> has 256 bytes here. One call runs on its own; the
  interleaving of several workers on the registry is the lease pool of \<open>Registry\<close>.
\<close>

subsection \<open>State and helpers\<close>

record sequence_step_t =
  step_domain :: api_domain_t
  step_action :: api_action_t
  step_preferred_type :: device_type_t
  step_algorithm :: cstring

type_synonym 'w gateway_state = "resource_registry_t \<times> 'w"

definition build_error_response :: "request_t \<Rightarrow> status_code_t \<Rightarrow> cstring \<Rightarrow> response_t" where
  "build_error_response req status msg = zero_response \<lparr>
     resp_request_id := snprintf_s MAX_ID_LEN (req_request_id req),
     resp_status := status,
     resp_result := snprintf_s MAX_RESPONSE_LEN msg \<rparr>"

definition append_with_sep :: "cstring \<Rightarrow> nat \<Rightarrow> cstring \<Rightarrow> cstring \<Rightarrow> cstring" where
  "append_with_sep dst dst_sz value sep =
     (if value = [] then dst
      else let dst = (if dst \<noteq> [] then strncat dst sep (dst_sz - length dst - 1) else dst)
           in strncat dst value (dst_sz - length dst - 1))"

text \<open>The return value \<open>1\<close>, \<open>-1\<close> (both with the response filled) or \<open>0\<close>.\<close>

datatype pin_check = Pin_Answered response_t | Pin_Refused response_t | Pin_Passed

definition validate_gateway_pin :: "gateway_settings_t option \<Rightarrow> request_t \<Rightarrow> pin_check" where
  "validate_gateway_pin settings req =
     (case settings of None \<Rightarrow> Pin_Passed
      | Some st \<Rightarrow>
          if gateway_pin st = [] then Pin_Passed
          else if req_action req = ACTION_CHECK_PIN \<and> req_domain req = DOMAIN_AUTH
          then (if strcmp (req_user_pin req) (gateway_pin st) = 0
                then Pin_Answered (zero_response \<lparr>
                   resp_request_id := snprintf_s MAX_ID_LEN (req_request_id req),
                   resp_status := STATUS_OK,
                   resp_backend_name := snprintf_s MAX_RESPONSE_LEN ''gateway-auth'',
                   resp_backend_call := snprintf_s MAX_RESPONSE_LEN ''check_pin'',
                   resp_result := snprintf_s MAX_RESPONSE_LEN ''pin_ok'' \<rparr>)
                else Pin_Refused (build_error_response req STATUS_UNAUTHORIZED ''invalid gateway pin''))
          else if strcmp (req_user_pin req) (gateway_pin st) \<noteq> 0
          then Pin_Refused (build_error_response req STATUS_UNAUTHORIZED ''gateway pin check failed'')
          else Pin_Passed)"

definition build_order :: "preference_t \<Rightarrow> device_type_t \<Rightarrow> device_type_t list" where
  "build_order pref explicit_type =
     (if explicit_type \<noteq> DEV_UNKNOWN then [explicit_type]
      else case pref of
        PREF_PQC_FIRST \<Rightarrow> [DEV_PQC, DEV_CLASSIC]
      | PREF_SECURE \<Rightarrow> [DEV_PQC, DEV_CLASSIC]
      | _ \<Rightarrow> [DEV_CLASSIC, DEV_PQC])"

subsection \<open>Key references\<close>

text \<open>The loop over the tokens of a key reference; \<open>None\<close> is the return value \<open>-1\<close>.\<close>

function find_token :: "cstring \<Rightarrow> nat \<Rightarrow> cstring \<Rightarrow> cstring option" where
  "find_token name out_sz rest =
     (case strtok CHR '';'' rest of
        None \<Rightarrow> None
      | Some (tok, rest') \<Rightarrow>
          if starts_with_str tok name \<and> starts_with_str (drop (length name) tok) ''=''
          then (let out = snprintf_s out_sz (drop (length name + 1) tok) in
                if out = [] then None else Some out)
          else find_token name out_sz rest')"
  by pat_completeness auto

termination
  by (relation "measure (\<lambda>(name, sz, rest). length rest)") (auto dest: strtok_shorter)

declare find_token.simps [simp del]

definition key_ref_get_token :: "cstring \<Rightarrow> cstring \<Rightarrow> nat \<Rightarrow> cstring option" where
  "key_ref_get_token key_ref name out_sz =
     (if out_sz = 0 then None
      else if key_ref = [] \<or> name = [] then None
      else find_token name out_sz (snprintf_s MAX_FIELD_LEN key_ref))"

definition key_ref_is_internal_index :: "cstring \<Rightarrow> bool" where
  "key_ref_is_internal_index key_ref =
     (case key_ref_get_token key_ref ''source'' MAX_FIELD_LEN of
        None \<Rightarrow> False
      | Some source \<Rightarrow> strcmp source ''1'' = 0 \<or> strcmp source ''internal_index'' = 0)"

definition key_ref_source_value :: "cstring \<Rightarrow> nat" where
  "key_ref_source_value key_ref =
     (case key_ref_get_token key_ref ''source'' MAX_FIELD_LEN of
        None \<Rightarrow> 0
      | Some source \<Rightarrow>
          if strcmp source ''internal_index'' = 0 then 1
          else if strcmp source ''session_handle'' = 0 then 2
          else if strcmp source ''external_key'' = 0 then 3
          else if strcmp source ''managed_key'' = 0 then 4
          else if strcmp source ''1'' = 0 then 1
          else if strcmp source ''2'' = 0 then 2
          else if strcmp source ''3'' = 0 then 3
          else if strcmp source ''4'' = 0 then 4
          else 0)"

definition resolve_device_hint_from_key_ref ::
  "request_t \<Rightarrow> cstring \<Rightarrow> nat \<Rightarrow> nat \<Rightarrow> cstring + cstring" where
  "resolve_device_hint_from_key_ref req key_ref hint_sz esz =
     (let hint = (if req_device_hint req \<noteq> [] then snprintf_s hint_sz (req_device_hint req) else []) in
      if \<not> key_ref_is_internal_index key_ref then Inr hint
      else case key_ref_get_token key_ref ''device_id'' MAX_FIELD_LEN of
        Some did \<Rightarrow>
          if hint \<noteq> [] \<and> strcmp hint did \<noteq> 0
          then Inl (snprintf_s esz ''internal_index key device_id conflicts with device_hint'')
          else Inr (snprintf_s hint_sz did)
      | None \<Rightarrow>
          if hint \<noteq> [] then Inr hint
          else Inl (snprintf_s esz ''internal_index key requires device_id or device_hint''))"

subsection \<open>One step\<close>

definition step_query ::
  "request_t \<Rightarrow> api_domain_t \<Rightarrow> api_action_t \<Rightarrow> cstring \<Rightarrow> cstring \<Rightarrow> device_type_t \<Rightarrow> cstring
     \<Rightarrow> acquire_query_t" where
  "step_query req dm act alg key_ref explicit_type hint =
     \<lparr>aq_domain = dm, aq_action = act, aq_algorithm = alg,
      aq_device_hint = (if hint \<noteq> [] then hint
                        else if explicit_type = DEV_UNKNOWN then req_device_hint req else []),
      aq_key_source = key_ref_source_value key_ref,
      aq_preference = req_preference req,
      aq_fallback_order = build_order (req_preference req) explicit_type\<rparr>"

definition ops_for :: "'w driver_ops_t \<Rightarrow> device_resource_t \<Rightarrow> 'w driver_ops_t" where
  "ops_for skf d =
     (if strcmp (backend_profile d) ''gm3000-skf'' = 0 then skf
      else if device_type d = DEV_CLASSIC then classic_driver_ops else pqc_driver_ops)"

definition no_device_text :: "api_domain_t \<Rightarrow> api_action_t \<Rightarrow> cstring \<Rightarrow> cstring" where
  "no_device_text dm act alg =
     ''no available device matches domain='' @ domain_to_string dm @ '' action='' @ action_to_string act
     @ '' alg='' @ alg"

definition execute_single_step ::
  "'w driver_ops_t \<Rightarrow> request_t \<Rightarrow> api_domain_t \<Rightarrow> api_action_t \<Rightarrow> cstring \<Rightarrow> cstring \<Rightarrow> cstring
     \<Rightarrow> cstring \<Rightarrow> device_type_t \<Rightarrow> response_t \<Rightarrow> nat \<Rightarrow> 'w gateway_state
     \<Rightarrow> (cstring + unit) \<times> response_t \<times> 'w gateway_state" where
  "execute_single_step skf req dm act alg payload aux key_ref explicit_type resp esz = (\<lambda>(reg, w).
     (case resolve_device_hint_from_key_ref req key_ref MAX_FIELD_LEN esz of
        Inl e \<Rightarrow> (Inl e, resp, (reg, w))
      | Inr hint \<Rightarrow>
     (case registry_acquire_candidate reg (step_query req dm act alg key_ref explicit_type hint) of
        None \<Rightarrow> (Inl (snprintf_s esz (no_device_text dm act alg)), resp, (reg, w))
      | Some (reg, i) \<Rightarrow>
     (let d = reg ! i in
      case translate_backend_call dm act alg (Some payload) (Some aux) (Some key_ref) d esz of
        Inl e \<Rightarrow> (Inl e, resp, (registry_release reg (device_id d), w))
      | Inr translated \<Rightarrow>
     (let (res, resp, w) = driver_dispatch (ops_for skf d) dm d translated resp esz w in
      (res, resp, (registry_release reg (device_id d), w)))))))"

subsection \<open>Sequences\<close>

definition parse_step :: "nat \<Rightarrow> cstring \<Rightarrow> cstring + sequence_step_t" where
  "parse_step esz token =
     (let invalid = Inl (snprintf_s esz (''invalid sequence token: '' @ token)) in
      case strtok CHR '':'' (snprintf_s MAX_FIELD_LEN token) of
        None \<Rightarrow> invalid
      | Some (part1, rest) \<Rightarrow>
     (case strtok CHR '':'' rest of
        None \<Rightarrow> Inl (snprintf_s esz (''missing sequence action in '' @ token))
      | Some (part2, rest) \<Rightarrow>
     (case strtok CHR '':'' rest of
        None \<Rightarrow> Inl (snprintf_s esz (''missing sequence type in '' @ token))
      | Some (part3, rest) \<Rightarrow>
     (case (case strtok CHR '':'' rest of None \<Rightarrow> None
            | Some (part4, rest) \<Rightarrow> normalize_algorithm_name (Some part4) MAX_FIELD_LEN) of
        None \<Rightarrow> Inl (snprintf_s esz (''invalid sequence algorithm in '' @ token))
      | Some alg \<Rightarrow>
          if parse_domain (Some part1) = DOMAIN_UNKNOWN \<or> parse_action (Some part2) = ACTION_UNKNOWN
            \<or> parse_device_type (Some part3) = DEV_UNKNOWN
          then invalid
          else Inr \<lparr>step_domain = parse_domain (Some part1), step_action = parse_action (Some part2),
                    step_preferred_type = parse_device_type (Some part3), step_algorithm = alg\<rparr>))))"

text \<open>The outer loop; \<open>acc\<close> holds the steps parsed so far.\<close>

function parse_steps :: "nat \<Rightarrow> sequence_step_t list \<Rightarrow> cstring \<Rightarrow> cstring + sequence_step_t list" where
  "parse_steps esz acc rest =
     (case strtok CHR ''>'' rest of
        None \<Rightarrow> Inr acc
      | Some (token, rest') \<Rightarrow>
          if MAX_SEQUENCE_STEPS \<le> length acc
          then Inl (snprintf_s esz ''too many sequence steps'')
          else (case parse_step esz token of
                  Inl e \<Rightarrow> Inl e
                | Inr step \<Rightarrow> parse_steps esz (acc @ [step]) rest'))"
  by pat_completeness auto

termination
  by (relation "measure (\<lambda>(esz, acc, rest). length rest)") (auto dest: strtok_shorter)

declare parse_steps.simps [simp del]

definition parse_sequence :: "request_t \<Rightarrow> nat \<Rightarrow> cstring + sequence_step_t list" where
  "parse_sequence req esz =
     (if req_sequence req = [] then Inr []
      else parse_steps esz [] (snprintf_s MAX_PAYLOAD_LEN (req_sequence req)))"

text \<open>What a step adds to the response of the sequence.\<close>

definition absorb_step :: "response_t \<Rightarrow> response_t \<Rightarrow> response_t" where
  "absorb_step resp step_resp = resp \<lparr>
     resp_selected_device := append_with_sep (resp_selected_device resp) MAX_RESPONSE_LEN
       (resp_selected_device step_resp) ''>'',
     resp_backend_name := append_with_sep (resp_backend_name resp) MAX_RESPONSE_LEN
       (resp_backend_name step_resp) ''>'',
     resp_backend_call := append_with_sep (resp_backend_call resp) MAX_RESPONSE_LEN
       (resp_backend_call step_resp) ''>'',
     resp_trace := append_with_sep (resp_trace resp) MAX_RESPONSE_LEN
       (resp_result step_resp) '' => '' \<rparr>"

text \<open>One iteration of the loop over the steps.\<close>

definition run_step ::
  "'w driver_ops_t \<Rightarrow> request_t \<Rightarrow> sequence_step_t \<Rightarrow> cstring \<Rightarrow> 'w gateway_state
     \<Rightarrow> (cstring + unit) \<times> response_t \<times> 'w gateway_state" where
  "run_step skf req step payload st =
     execute_single_step skf req (step_domain step) (step_action step) (step_algorithm step)
       payload (req_aux_payload req) (req_key_ref req) (step_preferred_type step) zero_response 256 st"

text \<open>
  The loop; \<open>payload\<close> is \<^verbatim>\<open>current_payload\<close>. The first component is the return value:
  \<open>False\<close> for \<open>-1\<close>.
\<close>

fun run_steps ::
  "'w driver_ops_t \<Rightarrow> request_t \<Rightarrow> sequence_step_t list \<Rightarrow> cstring \<Rightarrow> response_t \<Rightarrow> 'w gateway_state
     \<Rightarrow> bool \<times> response_t \<times> 'w gateway_state" where
  "run_steps skf req [] payload resp st =
     (True, resp \<lparr> resp_result := snprintf_s MAX_RESPONSE_LEN payload, resp_status := STATUS_OK \<rparr>, st)"
| "run_steps skf req (step # steps) payload resp st =
     (case run_step skf req step payload st of
        (Inl e, step_resp, st) \<Rightarrow> (False, build_error_response req STATUS_BACKEND_FAIL e, st)
      | (Inr _, step_resp, st) \<Rightarrow>
          run_steps skf req steps (snprintf_s MAX_RESPONSE_LEN (resp_result step_resp))
            (absorb_step resp step_resp) st)"

definition execute_sequence ::
  "'w driver_ops_t \<Rightarrow> request_t \<Rightarrow> response_t \<Rightarrow> 'w gateway_state
     \<Rightarrow> bool \<times> response_t \<times> 'w gateway_state" where
  "execute_sequence skf req resp st =
     (case parse_sequence req 256 of
        Inl e \<Rightarrow> (False, build_error_response req STATUS_BAD_REQUEST e, st)
      | Inr steps \<Rightarrow>
          if steps = [] then (True, resp, st)
          else run_steps skf req steps (snprintf_s MAX_RESPONSE_LEN (req_payload req)) resp st)"

subsection \<open>Requests\<close>

text \<open>The trace and the status of a single step that succeeded.\<close>

definition finish_response :: "response_t \<Rightarrow> response_t" where
  "finish_response resp =
     (let t = append_with_sep [] MAX_RESPONSE_LEN (resp_selected_device resp) '':'';
          t = append_with_sep t MAX_RESPONSE_LEN (resp_backend_call resp) '':'';
          t = append_with_sep t MAX_RESPONSE_LEN (resp_result resp) '':''
      in resp \<lparr> resp_trace := t, resp_status := STATUS_OK \<rparr>)"

definition scheduler_execute ::
  "'w driver_ops_t \<Rightarrow> gateway_settings_t option \<Rightarrow> request_t \<Rightarrow> 'w gateway_state
     \<Rightarrow> bool \<times> response_t \<times> 'w gateway_state" where
  "scheduler_execute skf settings req st =
     (let resp = zero_response \<lparr> resp_request_id := snprintf_s MAX_ID_LEN (req_request_id req) \<rparr> in
      case validate_gateway_pin settings req of
        Pin_Answered r \<Rightarrow> (True, r, st)
      | Pin_Refused r \<Rightarrow> (False, r, st)
      | Pin_Passed \<Rightarrow>
          if req_sequence req \<noteq> [] then execute_sequence skf req resp st
          else (case execute_single_step skf req (req_domain req) (req_action req) (req_algorithm req)
                       (req_payload req) (req_aux_payload req) (req_key_ref req) DEV_UNKNOWN resp 256 st of
                  (Inl e, resp, st) \<Rightarrow> (False, build_error_response req STATUS_NO_RESOURCE e, st)
                | (Inr _, resp, st) \<Rightarrow> (True, finish_response resp, st)))"

subsection \<open>Lemmas on one step\<close>

lemma key_ref_source_value_bound: "key_ref_source_value key_ref \<le> 4"
  by (simp add: key_ref_source_value_def split: option.split)

lemma internal_index_source:
  "key_ref_is_internal_index key_ref \<Longrightarrow> key_ref_source_value key_ref = 1"
  by (auto simp: key_ref_is_internal_index_def key_ref_source_value_def split: option.splits)

lemma device_id_bump: "device_id (bump reg i ! j) = device_id (reg ! j)"
  by (cases "i < length reg") (auto simp: bump_def nth_list_update list_update_beyond)

text \<open>Every path through a step gives its device back.\<close>

lemma step_registry:
  assumes "execute_single_step skf req dm act alg payload aux key_ref ty resp esz (reg, w) = (res, resp', (reg', w'))"
    and "wf_registry reg"
  shows "reg' = reg"
proof -
  let ?q = "\<lambda>hint. step_query req dm act alg key_ref ty hint"
  have given_back: "registry_release r (device_id (r ! i)) = reg"
    if "registry_acquire_candidate reg (?q hint) = Some (r, i)" for r i hint
  proof -
    have "r = bump reg i" using acquire_Some [OF that] by blast
    then show ?thesis using acquire_release [OF assms(2) that] by (simp add: device_id_bump)
  qed
  show ?thesis
    using assms(1) given_back unfolding execute_single_step_def Let_def
    by (auto split: sum.splits option.splits prod.splits)
qed

text \<open>A step that fails before the adapter is called leaves the outside state alone.\<close>

lemma step_Inr:
  assumes "execute_single_step skf req dm act alg payload aux key_ref ty resp esz (reg, w) = (Inr (), resp', (reg', w'))"
  obtains hint i t where
    "resolve_device_hint_from_key_ref req key_ref MAX_FIELD_LEN esz = Inr hint"
    "registry_acquire_candidate reg (step_query req dm act alg key_ref ty hint) = Some (bump reg i, i)"
    "translate_backend_call dm act alg (Some payload) (Some aux) (Some key_ref) (bump reg i ! i) esz = Inr t"
    "driver_dispatch (ops_for skf (bump reg i ! i)) dm (bump reg i ! i) t resp esz w = (Inr (), resp', w')"
proof -
  obtain hint where h: "resolve_device_hint_from_key_ref req key_ref MAX_FIELD_LEN esz = Inr hint"
    using assms unfolding execute_single_step_def by (auto split: sum.splits)
  obtain r i where a: "registry_acquire_candidate reg (step_query req dm act alg key_ref ty hint) = Some (r, i)"
    using assms h unfolding execute_single_step_def by (auto split: option.splits)
  have r: "r = bump reg i" using acquire_Some [OF a] by blast
  obtain t where t: "translate_backend_call dm act alg (Some payload) (Some aux) (Some key_ref) (r ! i) esz = Inr t"
    using assms h a unfolding execute_single_step_def by (auto simp: Let_def split: sum.splits)
  have "driver_dispatch (ops_for skf (r ! i)) dm (r ! i) t resp esz w = (Inr (), resp', w')"
    using assms h a t unfolding execute_single_step_def by (auto simp: Let_def split: prod.splits)
  with that h a t r show thesis by blast
qed

lemma step_acquired_device:
  assumes "registry_acquire_candidate reg (step_query req dm act alg key_ref ty hint) = Some (r, i)" "hint \<noteq> []"
  shows "i < length reg \<and> device_id (reg ! i) = hint \<and> enabled (reg ! i)
    \<and> device_supports (reg ! i) dm act alg (key_ref_source_value key_ref)"
  using acquire_Some [OF assms(1)] assms(2) by (simp add: step_query_def)

lemma find_token_Some: "find_token n sz rest = Some out \<Longrightarrow> out \<noteq> [] \<and> snprintf_s sz out = out"
proof (induction n sz rest rule: find_token.induct)
  case (1 n sz rest)
  show ?case
  proof (cases "strtok CHR '';'' rest")
    case None
    with 1(2) show ?thesis by (simp add: find_token.simps [of n sz rest])
  next
    case (Some p)
    obtain tok rest' where p: "p = (tok, rest')" by fastforce
    show ?thesis
    proof (cases "starts_with_str tok n \<and> starts_with_str (drop (length n) tok) ''=''")
      case True
      with 1(2) Some p show ?thesis
        by (auto simp: find_token.simps [of n sz rest] Let_def split: if_splits)
    next
      case False
      with 1(2) Some p have "find_token n sz rest' = Some out"
        by (simp add: find_token.simps [of n sz rest] if_not_P del: de_Morgan_conj)
      then show ?thesis using 1(1) [OF Some p [symmetric] False] by blast
    qed
  qed
qed

lemma key_ref_get_token_Some:
  "key_ref_get_token key_ref n sz = Some out \<Longrightarrow> out \<noteq> [] \<and> snprintf_s sz out = out"
  by (auto simp: key_ref_get_token_def dest: find_token_Some split: if_splits)

lemma resolve_internal_index:
  assumes "resolve_device_hint_from_key_ref req key_ref MAX_FIELD_LEN esz = Inr hint"
    and "key_ref_is_internal_index key_ref" and "length (req_device_hint req) < MAX_FIELD_LEN"
  shows "hint \<noteq> [] \<and> (req_device_hint req \<noteq> [] \<longrightarrow> hint = req_device_hint req)
    \<and> hint = (case key_ref_get_token key_ref ''device_id'' MAX_FIELD_LEN of Some did \<Rightarrow> did | None \<Rightarrow> req_device_hint req)"
proof -
  have "out \<noteq> [] \<and> snprintf_s MAX_FIELD_LEN out = out"
    if "key_ref_get_token key_ref ''device_id'' MAX_FIELD_LEN = Some out" for out
    using that by (rule key_ref_get_token_Some)
  then show ?thesis
    using assms
    by (auto simp: resolve_device_hint_from_key_ref_def Let_def split: option.splits if_splits)
qed

text \<open>With a hint the device types of the query are not looked at.\<close>

lemma acquire_hint_order:
  "aq_device_hint q \<noteq> [] \<Longrightarrow>
     registry_acquire_candidate reg (q \<lparr> aq_fallback_order := tys \<rparr>) = registry_acquire_candidate reg q"
proof -
  assume "aq_device_hint q \<noteq> []"
  moreover have "hint_usable (q \<lparr> aq_fallback_order := tys \<rparr>) = hint_usable q"
    by (intro ext) (simp add: hint_usable_def)
  ultimately show ?thesis by (simp add: registry_acquire_candidate_def)
qed

lemma resolve_hint_nonempty:
  assumes "resolve_device_hint_from_key_ref req key_ref MAX_FIELD_LEN esz = Inr hint"
    and "req_device_hint req \<noteq> []"
  shows "hint \<noteq> []"
proof -
  have "snprintf_s MAX_FIELD_LEN s \<noteq> []" if "s \<noteq> []" for s
    using that by (simp add: snprintf_s_def MAX_FIELD_LEN_def)
  moreover have "key_ref_get_token key_ref n sz \<noteq> Some []" for n sz
    using key_ref_get_token_Some [of key_ref n sz "[]"] by blast
  ultimately show ?thesis
    using assms
    by (auto simp: resolve_device_hint_from_key_ref_def Let_def split: option.splits if_splits)
qed

subsection \<open>Lemmas on sequences\<close>

definition wf_step :: "sequence_step_t \<Rightarrow> bool" where
  "wf_step s \<longleftrightarrow> step_domain s \<noteq> DOMAIN_UNKNOWN \<and> step_action s \<noteq> ACTION_UNKNOWN
     \<and> step_preferred_type s \<noteq> DEV_UNKNOWN
     \<and> normalize_algorithm_name (Some (step_algorithm s)) MAX_FIELD_LEN = Some (step_algorithm s)"

lemma parse_step_wf: "parse_step esz token = Inr s \<Longrightarrow> wf_step s"
  unfolding parse_step_def Let_def
  by (auto simp: wf_step_def normalize_algorithm_name_idem split: option.splits if_splits)

lemma parse_steps_wf:
  "parse_steps esz acc rest = Inr steps \<Longrightarrow> list_all wf_step acc \<Longrightarrow> length acc \<le> MAX_SEQUENCE_STEPS \<Longrightarrow>
     list_all wf_step steps \<and> length steps \<le> MAX_SEQUENCE_STEPS"
proof (induction esz acc rest rule: parse_steps.induct)
  case (1 esz acc rest)
  show ?case
  proof (cases "strtok CHR ''>'' rest")
    case None
    with 1(2-) show ?thesis by (simp add: parse_steps.simps [of esz acc rest])
  next
    case (Some p)
    obtain tok rest' where p: "(tok, rest') = p" by (metis surj_pair)
    from 1(2) Some p have room: "\<not> MAX_SEQUENCE_STEPS \<le> length acc"
      by (auto simp: parse_steps.simps [of esz acc rest])
    with 1(2) Some p obtain st where st: "parse_step esz tok = Inr st"
      and r: "parse_steps esz (acc @ [st]) rest' = Inr steps"
      by (auto simp: parse_steps.simps [of esz acc rest] split: sum.splits)
    from 1(1) [OF Some p room st r] 1(3) room parse_step_wf [OF st] show ?thesis by simp
  qed
qed

lemma run_steps_cases:
  assumes "run_steps skf req (step # steps) payload resp st = (ok, resp', st')"
  obtains (fails) e r where "run_step skf req step payload st = (Inl e, r, st')" "\<not> ok"
      "resp' = build_error_response req STATUS_BACKEND_FAIL e"
    | (runs) r st1 where "run_step skf req step payload st = (Inr (), r, st1)"
      "run_steps skf req steps (snprintf_s MAX_RESPONSE_LEN (resp_result r)) (absorb_step resp r) st1
         = (ok, resp', st')"
proof -
  obtain res r st1 where e: "run_step skf req step payload st = (res, r, st1)" by (metis surj_pair)
  show thesis
  proof (cases res)
    case (Inl err)
    with assms e have "\<not> ok" "resp' = build_error_response req STATUS_BACKEND_FAIL err" "st' = st1" by auto
    with e Inl show thesis by (intro fails) simp_all
  next
    case (Inr u)
    then have "res = Inr ()" by simp
    with assms e have "run_steps skf req steps (snprintf_s MAX_RESPONSE_LEN (resp_result r))
        (absorb_step resp r) st1 = (ok, resp', st')" by simp
    with e Inr show thesis by (intro runs) simp_all
  qed
qed

lemma run_step_registry:
  "run_step skf req step payload (reg, w) = (res, r, (reg', w')) \<Longrightarrow> wf_registry reg \<Longrightarrow> reg' = reg"
  unfolding run_step_def by (rule step_registry)

lemma run_steps_registry:
  assumes "run_steps skf req steps payload resp (reg, w) = (ok, resp', (reg', w'))" and "wf_registry reg"
  shows "reg' = reg"
  using assms(1)
proof (induction steps arbitrary: payload resp w)
  case (Cons step steps)
  from Cons.prems show ?case
  proof (cases rule: run_steps_cases)
    case (fails e r)
    from run_step_registry [OF fails(1) assms(2)] show ?thesis .
  next
    case (runs r st1)
    obtain reg1 w1 where st1: "st1 = (reg1, w1)" by fastforce
    have "reg1 = reg" using run_step_registry [OF runs(1) [unfolded st1] assms(2)] .
    then show ?thesis using Cons.IH runs(2) st1 by blast
  qed
qed simp

lemma execute_sequence_registry:
  assumes "execute_sequence skf req resp (reg, w) = (ok, resp', (reg', w'))" and "wf_registry reg"
  shows "reg' = reg"
proof (cases "parse_sequence req 256")
  case (Inl e)
  with assms(1) show ?thesis by (simp add: execute_sequence_def)
next
  case (Inr steps)
  with assms show ?thesis
    by (cases "steps = []") (auto simp: execute_sequence_def dest: run_steps_registry)
qed

text \<open>The paths of \<^verbatim>\<open>scheduler_execute\<close>.\<close>

definition start_response :: "request_t \<Rightarrow> response_t" where
  "start_response req = zero_response \<lparr> resp_request_id := snprintf_s MAX_ID_LEN (req_request_id req) \<rparr>"

lemma scheduler_execute_cases:
  assumes "scheduler_execute skf settings req st = (ok, resp, st')"
  obtains (answered) "validate_gateway_pin settings req = Pin_Answered resp" "ok" "st' = st"
    | (refused) "validate_gateway_pin settings req = Pin_Refused resp" "\<not> ok" "st' = st"
    | (sequence) "validate_gateway_pin settings req = Pin_Passed" "req_sequence req \<noteq> []"
      "execute_sequence skf req (start_response req) st = (ok, resp, st')"
    | (single) res r where "validate_gateway_pin settings req = Pin_Passed" "req_sequence req = []"
      "execute_single_step skf req (req_domain req) (req_action req) (req_algorithm req)
         (req_payload req) (req_aux_payload req) (req_key_ref req) DEV_UNKNOWN (start_response req) 256 st
         = (res, r, st')" "ok = (res = Inr ())"
      "resp_status resp = (if ok then STATUS_OK else STATUS_NO_RESOURCE)"
      "ok \<Longrightarrow> resp_result resp = resp_result r \<and> resp_selected_device resp = resp_selected_device r
         \<and> resp_request_id resp = resp_request_id r"
      "\<not> ok \<Longrightarrow> \<exists>e. res = Inl e \<and> resp = build_error_response req STATUS_NO_RESOURCE e"
proof -
  obtain res r st1 where e: "execute_single_step skf req (req_domain req) (req_action req) (req_algorithm req)
      (req_payload req) (req_aux_payload req) (req_key_ref req) DEV_UNKNOWN (start_response req) 256 st
      = (res, r, st1)" by (metis surj_pair)
  show thesis
  proof (cases "validate_gateway_pin settings req")
    case Pin_Passed
    show thesis
    proof (cases "req_sequence req = []")
      case True
      show thesis
      proof (cases res)
        case (Inl err)
        have "ok = False" "resp = build_error_response req STATUS_NO_RESOURCE err" "st' = st1"
          using assms e Pin_Passed True Inl
          unfolding scheduler_execute_def Let_def start_response_def [symmetric] by auto
        with e Pin_Passed True Inl show thesis
          by (intro single [of res r]) (simp_all add: build_error_response_def)
      next
        case (Inr u)
        then have "res = Inr ()" by simp
        with assms e Pin_Passed True have r: "ok = True" "st' = st1" "resp = finish_response r"
          unfolding scheduler_execute_def Let_def start_response_def [symmetric] by simp_all
        show thesis
          using e Pin_Passed True \<open>res = Inr ()\<close>
          by (intro single [of res r]) (simp_all add: r finish_response_def Let_def)
      qed
    next
      case False
      with assms Pin_Passed sequence show thesis
        unfolding scheduler_execute_def Let_def start_response_def [symmetric] by simp
    qed
  qed (use assms answered refused in \<open>auto simp: scheduler_execute_def Let_def\<close>)
qed

lemma execute_registry:
  assumes "scheduler_execute skf settings req (reg, w) = (ok, resp, (reg', w'))" and "wf_registry reg"
  shows "reg' = reg"
  using assms(1)
proof (cases rule: scheduler_execute_cases)
  case sequence
  from execute_sequence_registry [OF sequence(3) assms(2)] show ?thesis .
next
  case (single res r)
  from step_registry [OF single(3) assms(2)] show ?thesis .
qed auto

lemma run_steps_status:
  "run_steps skf req steps payload resp st = (ok, resp', st') \<Longrightarrow> ok = (resp_status resp' = STATUS_OK)"
proof (induction steps arbitrary: payload resp st)
  case (Cons step steps)
  from Cons.prems show ?case
    by (cases rule: run_steps_cases) (auto simp: build_error_response_def dest: Cons.IH)
qed auto

text \<open>
  The chain of the steps that were run: each takes the result of the one before (cut to its
  buffer) as its payload, and all succeed.
\<close>

inductive chain ::
  "'w driver_ops_t \<Rightarrow> request_t \<Rightarrow> sequence_step_t list \<Rightarrow> cstring \<Rightarrow> 'w gateway_state
     \<Rightarrow> response_t list \<Rightarrow> 'w gateway_state \<Rightarrow> bool" for skf req where
  finished: "chain skf req [] payload st [] st"
| step: "run_step skf req s payload st = (Inr (), r, st1) \<Longrightarrow>
         chain skf req ss (snprintf_s MAX_RESPONSE_LEN (resp_result r)) st1 rs st2 \<Longrightarrow>
         chain skf req (s # ss) payload st (r # rs) st2"

lemma run_steps_chain:
  assumes "run_steps skf req steps payload resp st = (True, resp', st')"
  shows "\<exists>rs. chain skf req steps payload st rs st'
    \<and> resp_result resp' = snprintf_s MAX_RESPONSE_LEN (if rs = [] then payload else resp_result (last rs))
    \<and> resp_trace resp' = foldl (\<lambda>t r. append_with_sep t MAX_RESPONSE_LEN (resp_result r) '' => '') (resp_trace resp) rs"
  using assms
proof (induction steps arbitrary: payload resp st)
  case Nil
  then have "resp_result resp' = snprintf_s MAX_RESPONSE_LEN payload" "resp_trace resp' = resp_trace resp" "st' = st"
    by auto
  then show ?case using chain.finished [of skf req payload st] by (intro exI [of _ "[]"]) simp
next
  case (Cons s ss)
  from Cons.prems show ?case
  proof (cases rule: run_steps_cases)
    case (runs r st1)
    from Cons.IH [OF runs(2)] obtain rs where
      c: "chain skf req ss (snprintf_s MAX_RESPONSE_LEN (resp_result r)) st1 rs st'"
        "resp_result resp' = snprintf_s MAX_RESPONSE_LEN
           (if rs = [] then snprintf_s MAX_RESPONSE_LEN (resp_result r) else resp_result (last rs))"
        "resp_trace resp' = foldl (\<lambda>t r. append_with_sep t MAX_RESPONSE_LEN (resp_result r) '' => '')
           (resp_trace (absorb_step resp r)) rs" by blast
    have "chain skf req (s # ss) payload st (r # rs) st'" using chain.step [OF runs(1) c(1)] .
    moreover have "resp_result resp' = snprintf_s MAX_RESPONSE_LEN (resp_result (last (r # rs)))"
      using c(2) by (cases "rs = []") simp_all
    ultimately show ?thesis using c(3) by (intro exI [of _ "r # rs"]) (simp add: absorb_step_def)
  qed simp
qed

lemma chain_length: "chain skf req steps payload st rs st' \<Longrightarrow> length rs = length steps"
  by (induction rule: chain.induct) auto

text \<open>The PIN check comes first, for sequences and for \<^verbatim>\<open>check_pin\<close> too.\<close>

lemma mismatched_pin_check:
  assumes "gateway_pin st \<noteq> []" and "req_user_pin req \<noteq> gateway_pin st"
  shows "\<exists>msg. validate_gateway_pin (Some st) req =
    Pin_Refused (build_error_response req STATUS_UNAUTHORIZED msg)"
  using assms by (auto simp: validate_gateway_pin_def)

lemma mismatched_pin:
  assumes "gateway_pin st \<noteq> []" and "req_user_pin req \<noteq> gateway_pin st"
  shows "\<exists>msg. scheduler_execute skf (Some st) req state =
    (False, build_error_response req STATUS_UNAUTHORIZED msg, state)"
  using mismatched_pin_check [OF assms] by (auto simp: scheduler_execute_def Let_def)

subsection \<open>Properties\<close>

text \<open>
  Property C1. No request passes without the PIN. With a configured PIN, a request that does
  not carry it is answered with status 401 and its own request id, and neither the registry
  nor any device is touched, whatever the request asks for (a PIN check, a single call or a
  sequence) and whatever the state.
\<close>

theorem wrong_pin_is_refused:
  assumes "gateway_pin st \<noteq> []" and "req_user_pin req \<noteq> gateway_pin st"
  shows "\<exists>msg. scheduler_execute skf (Some st) req state =
    (False, build_error_response req STATUS_UNAUTHORIZED msg, state)"
  using assms by (rule mismatched_pin)

definition sample_request :: request_t where
  "sample_request = zero_request \<lparr> req_request_id := ''r1'', req_domain := DOMAIN_HASH,
     req_action := ACTION_HASH, req_algorithm := ''sm3'', req_payload := ''abc'', req_user_pin := ''1234'' \<rparr>"

definition sample_settings :: gateway_settings_t where
  "sample_settings = \<lparr>gateway_pin = ''1234''\<rparr>"

definition sample_registry :: resource_registry_t where
  "sample_registry = [sample_device ''d1'' 1 \<lparr> backend_profile := ''swsds-classic'' \<rparr>]"

theorem wrong_pin_is_refused_witness:
  "\<exists>msg. scheduler_execute classic_driver_ops (Some sample_settings)
      (sample_request \<lparr> req_user_pin := ''0000'' \<rparr>) (sample_registry, ()) =
    (False, build_error_response (sample_request \<lparr> req_user_pin := ''0000'' \<rparr>) STATUS_UNAUTHORIZED msg,
     (sample_registry, ()))"
  by (rule wrong_pin_is_refused) (simp_all add: sample_settings_def)

text \<open>
  Property C2. Every lease is given back, in a table that does not name a device twice.
  Whatever happens to a request (refused, answered, a step that finds no device, no rule or
  fails in its adapter, a sequence that stops half way), the registry is exactly what it was
  before; this holds for any behaviour of the adapters. The code does not look for repeated
  names when it loads a table, and with one the release can miss its device
  (\<open>duplicate_name_leak\<close>); the rest of \<open>wf_registry\<close>, at most 32 devices and no negative counter,
  holds of every table it loads.
\<close>

theorem scheduler_gives_devices_back:
  assumes "wf_registry reg"
  shows "fst (snd (snd (scheduler_execute skf settings req (reg, w)))) = reg"
proof -
  obtain ok resp reg' w' where e: "scheduler_execute skf settings req (reg, w) = (ok, resp, (reg', w'))"
    by (metis surj_pair)
  from execute_registry [OF e assms] e show ?thesis by simp
qed

lemma sample_registry_wf: "wf_registry sample_registry"
  by (simp add: wf_registry_def sample_registry_def sample_device_def size_defs)

theorem scheduler_gives_devices_back_witness:
  "fst (snd (snd (scheduler_execute classic_driver_ops (Some sample_settings) sample_request
     (sample_registry, ())))) = sample_registry"
  by (rule scheduler_gives_devices_back [OF sample_registry_wf])

text \<open>
  The status tells the outcome: \<^verbatim>\<open>scheduler_execute\<close> returns 0 exactly when the
  response it fills has status 0, on every path.
\<close>

lemma status_is_outcome:
  "fst (scheduler_execute skf settings req state) \<longleftrightarrow>
     resp_status (fst (snd (scheduler_execute skf settings req state))) = STATUS_OK"
proof -
  obtain ok resp st' where e: "scheduler_execute skf settings req state = (ok, resp, st')" by (metis surj_pair)
  have "ok \<longleftrightarrow> resp_status resp = STATUS_OK"
    using e
  proof (cases rule: scheduler_execute_cases)
    case answered
    then show ?thesis by (auto simp: validate_gateway_pin_def split: option.splits if_splits)
  next
    case refused
    then show ?thesis
      by (auto simp: validate_gateway_pin_def build_error_response_def split: option.splits if_splits)
  next
    case sequence
    then show ?thesis
      by (auto simp: execute_sequence_def build_error_response_def start_response_def zero_response_def
          dest: run_steps_status split: sum.splits if_splits)
  next
    case (single res r)
    then show ?thesis by simp
  qed
  with e show ?thesis by simp
qed

text \<open>
  Property C19. A key on a device stays on its device. A step whose key reference has the
  source \<^verbatim>\<open>internal_index\<close> and that succeeds has run on a device that is named: by the reference,
  or by the hint when the reference has no \<^verbatim>\<open>device_id\<close>. The device is enabled and allows that
  key source. So a step for which neither names a device, or both and not the same, never
  succeeds.
\<close>

theorem internal_index_stays_on_device:
  assumes "key_ref_is_internal_index key_ref" and "wf_request req"
    and "execute_single_step skf req dm act alg payload aux key_ref ty resp esz (reg, w) = (Inr (), resp', state')"
  shows "\<exists>i t. i < length reg \<and> enabled (reg ! i) \<and> device_supports (reg ! i) dm act alg 1
    \<and> device_id (reg ! i) \<noteq> []
    \<and> device_id (reg ! i) = (case key_ref_get_token key_ref ''device_id'' MAX_FIELD_LEN of
        Some did \<Rightarrow> did | None \<Rightarrow> req_device_hint req)
    \<and> (req_device_hint req \<noteq> [] \<longrightarrow> device_id (reg ! i) = req_device_hint req)
    \<and> driver_dispatch (ops_for skf (bump reg i ! i)) dm (bump reg i ! i) t resp esz w = (Inr (), resp', snd state')"
proof -
  obtain reg' w' where st: "state' = (reg', w')" by fastforce
  from assms(3) [unfolded st] show ?thesis
  proof (rule step_Inr)
    fix hint i t
    assume h: "resolve_device_hint_from_key_ref req key_ref MAX_FIELD_LEN esz = Inr hint"
      and a: "registry_acquire_candidate reg (step_query req dm act alg key_ref ty hint) = Some (bump reg i, i)"
      and d: "driver_dispatch (ops_for skf (bump reg i ! i)) dm (bump reg i ! i) t resp esz w = (Inr (), resp', w')"
    have "length (req_device_hint req) < MAX_FIELD_LEN" using assms(2) by (simp add: wf_request_def fits_def)
    from resolve_internal_index [OF h assms(1) this]
    have hint: "hint \<noteq> []" "req_device_hint req \<noteq> [] \<longrightarrow> hint = req_device_hint req"
      "hint = (case key_ref_get_token key_ref ''device_id'' MAX_FIELD_LEN of Some did \<Rightarrow> did | None \<Rightarrow> req_device_hint req)"
      by blast+
    from step_acquired_device [OF a hint(1)] hint d internal_index_source [OF assms(1)] st
    show ?thesis by (intro exI [of _ i] exI [of _ t]) simp
  qed
qed

definition sample_key_ref :: cstring where
  "sample_key_ref = ''source=1;device_id=d1;index=3''"

lemma sample_step:
  assumes "resolve_device_hint_from_key_ref req key_ref MAX_FIELD_LEN 256 = Inr hint"
    and "registry_acquire_candidate sample_registry (step_query req DOMAIN_HASH ACTION_HASH ''sm3'' key_ref ty hint)
      = Some (bump sample_registry 0, 0)"
  shows "\<exists>r. execute_single_step classic_driver_ops req DOMAIN_HASH ACTION_HASH ''sm3'' payload aux
     key_ref ty resp 256 (sample_registry, ()) = (Inr (), r, (sample_registry, ()))"
proof -
  let ?d = "bump sample_registry 0 ! 0"
  have d: "backend_profile ?d = ''swsds-classic''" "device_type ?d = DEV_CLASSIC"
    by (simp_all add: bump_def sample_registry_def sample_device_def)
  let ?rule = "rule ''swsds-classic'' DEV_CLASSIC DOMAIN_HASH ACTION_HASH ''sm3''
      ''SDF_HashInit/SDF_HashUpdate/SDF_HashFinal''"
  have "?rule \<in> set g_rules" by (simp add: g_rules_def)
  moreover have "rule_matches ?d DOMAIN_HASH ACTION_HASH ''sm3'' ?rule"
    unfolding rule_matches_iff d by (simp add: rule_def)
  ultimately have "find_rule ?d DOMAIN_HASH ACTION_HASH ''sm3'' \<noteq> None"
    unfolding find_rule_None by blast
  then obtain t where t: "translate_backend_call DOMAIN_HASH ACTION_HASH ''sm3'' (Some payload) (Some aux)
      (Some key_ref) ?d 256 = Inr t" by (auto simp: translate_backend_call_def Let_def)
  have ops: "ops_for classic_driver_ops ?d = (classic_driver_ops :: unit driver_ops_t)" using d by (simp add: ops_for_def)
  obtain s where s: "driver_dispatch classic_driver_ops DOMAIN_HASH ?d t resp 256 ()
      = (Inr (), (fill_common ?d t resp) \<lparr> resp_result := s \<rparr>, ())"
    using served_dispatch [OF t, of resp 256 "()"] d by auto
  have "registry_release (bump sample_registry 0) (device_id ?d) = sample_registry"
    by (simp add: bump_def sample_registry_def sample_device_def)
  then show ?thesis
    using assms t s ops by (auto simp: execute_single_step_def Let_def)
qed

lemma sample_supports:
  assumes "k \<le> 4"
  shows "device_supports (sample_device ''d1'' 1 \<lparr> backend_profile := p \<rparr>) DOMAIN_HASH ACTION_HASH ''sm3'' k"
proof -
  have "(0xFFFF :: 32 word) = mask 16" by (simp add: mask_eq_exp_minus_1)
  then have "k = 0 \<or> bit (0xFFFF :: 32 word) k" using assms by (simp only: bit_mask_iff) simp
  then show ?thesis by (simp add: sample_device_def device_supports_iff capability_matches_iff)
qed

lemma sample_acquire_step:
  assumes "hint = ''d1'' \<or> (hint = [] \<and> req_device_hint req = [] \<and> ty = DEV_CLASSIC)"
  shows "registry_acquire_candidate sample_registry (step_query req DOMAIN_HASH ACTION_HASH ''sm3'' key_ref ty hint)
    = Some (bump sample_registry 0, 0)"
proof -
  let ?d = "sample_device ''d1'' 1 \<lparr> backend_profile := ''swsds-classic'' \<rparr>"
  have d: "device_id ?d = ''d1''" "enabled ?d" "inflight ?d < max_inflight ?d" "device_type ?d = DEV_CLASSIC"
    by (simp_all add: sample_device_def)
  note sup = sample_supports [OF key_ref_source_value_bound, of "''swsds-classic''" key_ref]
  from assms show ?thesis
  proof
    assume h: "hint = ''d1''"
    have "hint_usable (step_query req DOMAIN_HASH ACTION_HASH ''sm3'' key_ref ty hint) ?d"
      using sup d h by (simp add: hint_usable_def step_query_def)
    then show ?thesis using h by (simp add: registry_acquire_candidate_def sample_registry_def step_query_def)
  next
    assume h: "hint = [] \<and> req_device_hint req = [] \<and> ty = DEV_CLASSIC"
    have "usable (step_query req DOMAIN_HASH ACTION_HASH ''sm3'' key_ref ty hint) DEV_CLASSIC ?d"
      using sup d h by (simp add: usable_iff step_query_def)
    then show ?thesis using h
      by (simp add: registry_acquire_candidate_def sample_registry_def step_query_def build_order_def)
  qed
qed

theorem internal_index_stays_on_device_witness:
  "key_ref_is_internal_index sample_key_ref
   \<and> (\<exists>i. i < length sample_registry \<and> device_id (sample_registry ! i) = ''d1'')"
proof -
  have k: "key_ref_is_internal_index sample_key_ref" by code_simp
  have t: "key_ref_get_token sample_key_ref ''device_id'' MAX_FIELD_LEN = Some ''d1''" by code_simp
  have w: "wf_request sample_request"
    by (simp add: wf_request_def sample_request_def zero_request_def fits_def size_defs)
  have h: "resolve_device_hint_from_key_ref sample_request sample_key_ref MAX_FIELD_LEN 256 = Inr ''d1''"
    by code_simp
  obtain r where
    e: "execute_single_step classic_driver_ops sample_request DOMAIN_HASH ACTION_HASH ''sm3'' ''abc'' []
      sample_key_ref DEV_UNKNOWN zero_response 256 (sample_registry, ()) = (Inr (), r, (sample_registry, ()))"
    using sample_step [OF h sample_acquire_step] by blast
  from internal_index_stays_on_device [OF k w e] k t show ?thesis by auto
qed

text \<open>
  The device type a sequence step asks for is dropped as soon as the request has
  a device hint: the step behaves the same for every type, so a step written for a
  post-quantum device runs on a classic one.
\<close>

lemma hint_overrides_step_type:
  assumes "req_device_hint req \<noteq> []"
  shows "execute_single_step skf req dm act alg payload aux key_ref ty resp esz state
       = execute_single_step skf req dm act alg payload aux key_ref ty' resp esz state"
proof -
  obtain reg w where st: "state = (reg, w)" by fastforce
  have q: "registry_acquire_candidate reg (step_query req dm act alg key_ref ty hint)
      = registry_acquire_candidate reg (step_query req dm act alg key_ref ty' hint)" if "hint \<noteq> []" for hint
    using acquire_hint_order [of "step_query req dm act alg key_ref ty' hint" reg
        "build_order (req_preference req) ty"] that
    by (simp add: step_query_def)
  show ?thesis
    unfolding st execute_single_step_def
    using q resolve_hint_nonempty [OF _ assms] by (auto split: sum.split)
qed


definition sample_sequence :: request_t where
  "sample_sequence = sample_request \<lparr> req_sequence := ''hash:hash:classic:sm3'' \<rparr>"

lemma sample_parse_sequence:
  "parse_sequence sample_sequence 256 =
     Inr [\<lparr>step_domain = DOMAIN_HASH, step_action = ACTION_HASH, step_preferred_type = DEV_CLASSIC,
           step_algorithm = ''sm3''\<rparr>]"
  by code_simp


text \<open>
  A sequence text of separators only has no step: the request is answered with
  status 0, an empty result and no device used.
\<close>

lemma empty_sequence_succeeds:
  assumes "req_sequence req \<noteq> []" and "set (req_sequence req) \<subseteq> {CHR ''>''}"
    and "validate_gateway_pin settings req = Pin_Passed"
  shows "scheduler_execute skf settings req state = (True, start_response req, state)"
proof -
  have "set (snprintf_s MAX_PAYLOAD_LEN (req_sequence req)) \<subseteq> {CHR ''>''}"
    using assms(2) by (auto simp: snprintf_s_def dest: in_set_takeD)
  then have "strtok CHR ''>'' (snprintf_s MAX_PAYLOAD_LEN (req_sequence req)) = None"
    by (simp add: strtok_None_iff)
  then have "parse_sequence req 256 = Inr []"
    using assms(1) by (simp add: parse_sequence_def parse_steps.simps)
  then show ?thesis
    using assms(1,3) by (simp add: scheduler_execute_def execute_sequence_def start_response_def Let_def)
qed

text \<open>
  A step sees at most the first 1023 bytes of its payload: in a sequence, the
  rest of a longer intermediate result is lost without an error.
\<close>

lemma step_payload_is_cut:
  "execute_single_step skf req dm act alg payload aux key_ref ty resp esz state
   = execute_single_step skf req dm act alg (take 1023 payload) aux key_ref ty resp esz state"
proof -
  have "translate_backend_call dm act alg (Some payload) (Some aux) (Some key_ref) d esz
      = translate_backend_call dm act alg (Some (take 1023 payload)) (Some aux) (Some key_ref) d esz" for d
    by (simp add: translate_backend_call_def or_empty_def snprintf_s_def size_defs)
  then show ?thesis unfolding execute_single_step_def by (simp only:)
qed

text \<open>
  A malformed sequence (a bad step, or more than four) is answered with status
  400 before any step has run: no device and nothing outside is touched.
\<close>

lemma malformed_sequence_runs_nothing:
  assumes "parse_sequence req 256 = Inl e" and "req_sequence req \<noteq> []"
    and "validate_gateway_pin settings req = Pin_Passed"
  shows "scheduler_execute skf settings req state = (False, build_error_response req STATUS_BAD_REQUEST e, state)"
  using assms by (simp add: scheduler_execute_def execute_sequence_def Let_def)

end
