(* ===== verification/Gateway_Server.thy ===== *)
theory Gateway_Server
  imports Protocol_Request Protocol_Response Scheduler
begin

text \<open>
  \<^verbatim>\<open>src/server/gateway/server.c\<close>: reading a request line and answering a connection. A
  descriptor is modelled by the results its \<^verbatim>\<open>read\<close> and \<^verbatim>\<open>write\<close> calls give, in order. The threads
  of the server are in \<open>Server_Threads\<close>.
\<close>

subsection \<open>Reading and writing\<close>

datatype read_event = Byte char | Eof | Read_interrupted | Read_error

text \<open>
  \<open>n = buf_sz - 1 - i\<close> bytes are left. \<open>None\<close> is the return value \<open>-1\<close>. When no event is
  left the peer has closed.
\<close>

fun read_line :: "nat \<Rightarrow> read_event list \<Rightarrow> string option" where
  "read_line n [] = Some []"
| "read_line n (e # evs) =
     (if n = 0 then Some []
      else case e of
        Eof \<Rightarrow> Some []
      | Read_interrupted \<Rightarrow> read_line n evs
      | Read_error \<Rightarrow> None
      | Byte c \<Rightarrow> if c = CHR 0x0A then Some [] else map_option (Cons c) (read_line (n - 1) evs))"

datatype write_event = Wrote nat | Write_interrupted | Write_error

text \<open>
  The bytes that reached the peer, and whether the return value is \<open>0\<close>. A \<^verbatim>\<open>write\<close> takes
  between 0 and all of the bytes it is given; 0 ends the loop with \<open>-1\<close>.
\<close>

fun write_all :: "cstring \<Rightarrow> write_event list \<Rightarrow> cstring \<times> bool" where
  "write_all buf [] = ([], buf = [])"
| "write_all buf (e # evs) =
     (if buf = [] then ([], True)
      else case e of
        Write_interrupted \<Rightarrow> write_all buf evs
      | Write_error \<Rightarrow> ([], False)
      | Wrote k \<Rightarrow>
          if k = 0 then ([], False)
          else apfst (append (take k buf)) (write_all (drop k buf) evs))"

text \<open>What \<^verbatim>\<open>write_response_and_close\<close> hands to \<^verbatim>\<open>write_all\<close>, before it closes the descriptor.\<close>

definition response_bytes :: "response_t \<Rightarrow> cstring" where
  "response_bytes resp =
     (case response_to_json resp (MAX_RESPONSE_LEN + 512) of
        None \<Rightarrow> []
      | Some t \<Rightarrow> if 0 < length t then t @ [CHR 0x0A] else [])"

definition plain_response :: "cstring \<Rightarrow> status_code_t \<Rightarrow> cstring \<Rightarrow> response_t" where
  "plain_response rid status msg = zero_response \<lparr>
     resp_request_id := snprintf_s MAX_ID_LEN rid,
     resp_status := status,
     resp_result := snprintf_s MAX_RESPONSE_LEN msg \<rparr>"

text \<open>
  The accepting thread on one connection: an immediate answer, or a request for the queue.
\<close>

definition accept_line :: "read_event list \<Rightarrow> response_t + request_t" where
  "accept_line evs =
     (case read_line 2047 evs of
        None \<Rightarrow> Inl (plain_response ''unknown'' STATUS_BAD_REQUEST ''empty request'')
      | Some line \<Rightarrow>
          if line = [] then Inl (plain_response ''unknown'' STATUS_BAD_REQUEST ''empty request'')
          else (case parse_request_json (c_string line) 256 of
                  Inl e \<Rightarrow> Inl (plain_response ''unknown'' STATUS_BAD_REQUEST e)
                | Inr req \<Rightarrow> Inr req))"

definition queue_stopped_response :: "request_t \<Rightarrow> response_t" where
  "queue_stopped_response req =
     plain_response (req_request_id req) STATUS_BACKEND_FAIL ''queue stopped''"

subsection \<open>Lemmas on one connection\<close>

lemma read_line_bound: "read_line n evs = Some l \<Longrightarrow> length l \<le> n \<and> CHR 0x0A \<notin> set l"
proof (induction evs arbitrary: n l)
  case (Cons e evs)
  show ?case
  proof (cases e)
    case (Byte c)
    with Cons.prems consider "l = []" | l' where "0 < n" "c \<noteq> CHR 0x0A" "read_line (n - 1) evs = Some l'" "l = c # l'"
      by (auto split: if_splits)
    then show ?thesis
    proof cases
      case 2
      with Cons.IH [OF 2(3)] show ?thesis by auto
    qed simp
  qed (use Cons in \<open>auto split: if_splits\<close>)
qed auto

lemma read_line_bytes:
  "CHR 0x0A \<notin> set l \<Longrightarrow> read_line n (map Byte l @ Byte CHR 0x0A # evs) = Some (take n l)"
proof (induction l arbitrary: n)
  case (Cons c l)
  then show ?case by (cases n) auto
qed simp

lemma write_all_prefix:
  "write_all buf evs = (sent, ok) \<Longrightarrow> \<exists>rest. buf = sent @ rest \<and> (ok \<longleftrightarrow> rest = [])"
proof (induction evs arbitrary: buf sent)
  case (Cons e evs)
  show ?case
  proof (cases "buf = []")
    case False
    show ?thesis
    proof (cases e)
      case (Wrote k)
      show ?thesis
      proof (cases "k = 0")
        case k: False
        with Cons.prems False Wrote obtain sent' where s: "write_all (drop k buf) evs = (sent', ok)"
            "sent = take k buf @ sent'"
          by (cases "write_all (drop k buf) evs") auto
        from Cons.IH [OF s(1)] obtain rest where "drop k buf = sent' @ rest" "ok \<longleftrightarrow> rest = []" by blast
        then show ?thesis using s(2) by (metis append.assoc append_take_drop_id)
      qed (use Cons.prems False Wrote in auto)
    qed (use Cons False in auto)
  qed (use Cons.prems in auto)
qed auto

lemma response_bytes_eq:
  "response_bytes r = (if length (render_response r) < 2560 then render_response r @ [CHR 0x0A] else [])"
proof -
  have "render_response r \<noteq> []" using length_render_response_ge [of r] by force
  then show ?thesis by (simp add: response_bytes_def response_to_json_eq MAX_RESPONSE_LEN_def)
qed

lemma extract_absent: "strstr json (snprintf_s 128 (quoted k)) = None \<Longrightarrow> extract_json_string json k sz = Inl (- 1)"
  by (simp add: extract_json_string_def Let_def)

subsection \<open>Properties\<close>

text \<open>
  Property C32. A response is sent as one complete line or not at all. Texts of at most 408
  bytes are always answered; from 2453 bytes on the connection is closed without a single
  byte, although the texts of a \<^verbatim>\<open>response_t\<close> may hold five times 2047.
\<close>

theorem response_sent_whole_or_not_at_all:
  "response_bytes r \<in> {[], render_response r @ [CHR 0x0A]}
   \<and> (text_size r \<le> 408 \<longrightarrow> response_bytes r = render_response r @ [CHR 0x0A])
   \<and> (2453 \<le> text_size r \<longrightarrow> response_bytes r = [])"
  using length_render_response_ge [of r] length_render_response_le [of r]
  by (auto simp: response_bytes_eq)

theorem response_sent_whole_or_not_at_all_witness:
  "response_bytes zero_response = render_response zero_response @ [CHR 0x0A]
   \<and> response_bytes (zero_response \<lparr> resp_result := replicate 2453 CHR ''a'' \<rparr>) = []"
proof -
  have "text_size zero_response \<le> 408" by (simp add: text_size_def zero_response_def)
  moreover have "2453 \<le> text_size (zero_response \<lparr> resp_result := replicate 2453 CHR ''a'' \<rparr>)"
    by (simp add: text_size_def zero_response_def del: replicate.simps)
  ultimately show ?thesis using response_sent_whole_or_not_at_all by blast
qed

text \<open>
  End to end: a request line without a \<^verbatim>\<open>user_pin\<close> key that the gateway accepts
  is answered with status 401 and its own request id when a PIN is configured, and touches no
  device. Lines that are not accepted get an immediate answer and never reach the scheduler.
\<close>

lemma request_without_pin_is_refused:
  assumes "accept_line (map Byte line @ Byte CHR 0x0A # evs) = Inr req"
    and "CHR 0x0A \<notin> set line" and "gateway_pin st \<noteq> []"
    and "strstr (c_string (take 2047 line)) (snprintf_s 128 (quoted ''user_pin'')) = None"
  shows "\<exists>msg. scheduler_execute skf (Some st) req state =
    (False, build_error_response req STATUS_UNAUTHORIZED msg, state)"
proof -
  have p: "parse_request_json (c_string (take 2047 line)) 256 = Inr req"
    using assms(1,2) by (auto simp: accept_line_def read_line_bytes split: if_splits sum.splits)
  have "req_user_pin req = []"
    using p
  proof (cases rule: parse_request_json_Inr)
    case (1 rid dm act alg)
    then show ?thesis using assms(4) by (simp add: optional_member_def extract_absent)
  qed
  then show ?thesis using mismatched_pin [OF assms(3), of req] assms(3) by simp
qed

end
