(* ===== verification/Execution.thy ===== *)
theory Execution
  imports Scheduler "HOL-Library.Multiset"
begin

text \<open>
  \<^verbatim>\<open>scheduler_execute\<close> (\<^verbatim>\<open>src/server/service/scheduler.c\<close>) as the steps another worker can come
  between: the critical sections of the registry and the call of the adapter. What a worker
  computes between them touches no shared state and belongs to the step before. An adapter
  call is one step: the handlers of two workers on different devices do not interleave here.
  The main lemma is that a worker that is not disturbed reaches what \<open>scheduler_execute\<close> of
  \<open>Scheduler\<close> returns.
\<close>

subsection \<open>Where an execution stands\<close>

text \<open>The arguments of \<^verbatim>\<open>execute_single_step\<close> that differ from call to call.\<close>

record call_args =
  ca_domain :: api_domain_t
  ca_action :: api_action_t
  ca_algorithm :: cstring
  ca_payload :: cstring
  ca_type :: device_type_t
  ca_resp :: response_t

text \<open>What follows the call: the end of the request, or the rest of a sequence.\<close>

datatype continuation = After_single | After_step response_t "sequence_step_t list"

text \<open>
  \<open>To_Acquire\<close>: no device is held. \<open>To_Call\<close>: the device with the index is held and the call
  is still to be made. \<open>To_Release\<close>: it is held, and the adapter or the translation has
  returned.
\<close>

datatype exec_pc =
    To_Acquire call_args continuation
  | To_Call call_args continuation nat
  | To_Release continuation nat "cstring + unit" response_t
  | Finished bool response_t

fun is_finished :: "exec_pc \<Rightarrow> bool" where
  "is_finished (Finished ok resp) = True"
| "is_finished _ = False"

definition step_args :: "sequence_step_t \<Rightarrow> cstring \<Rightarrow> call_args" where
  "step_args step payload = \<lparr>ca_domain = step_domain step, ca_action = step_action step,
     ca_algorithm = step_algorithm step, ca_payload = payload, ca_type = step_preferred_type step,
     ca_resp = zero_response\<rparr>"

text \<open>The head of the loop over the steps.\<close>

fun next_step :: "sequence_step_t list \<Rightarrow> cstring \<Rightarrow> response_t \<Rightarrow> exec_pc" where
  "next_step [] payload resp =
     Finished True (resp \<lparr> resp_result := snprintf_s MAX_RESPONSE_LEN payload, resp_status := STATUS_OK \<rparr>)"
| "next_step (step # steps) payload resp = To_Acquire (step_args step payload) (After_step resp steps)"

text \<open>After the return of \<^verbatim>\<open>execute_single_step\<close>.\<close>

fun after_call :: "request_t \<Rightarrow> continuation \<Rightarrow> cstring + unit \<Rightarrow> response_t \<Rightarrow> exec_pc" where
  "after_call req After_single (Inl e) resp = Finished False (build_error_response req STATUS_NO_RESOURCE e)"
| "after_call req After_single (Inr _) resp = Finished True (finish_response resp)"
| "after_call req (After_step acc steps) (Inl e) resp =
     Finished False (build_error_response req STATUS_BACKEND_FAIL e)"
| "after_call req (After_step acc steps) (Inr _) resp =
     next_step steps (snprintf_s MAX_RESPONSE_LEN (resp_result resp)) (absorb_step acc resp)"

text \<open>Up to the first critical section.\<close>

definition begin_execution :: "gateway_settings_t option \<Rightarrow> request_t \<Rightarrow> exec_pc" where
  "begin_execution settings req =
     (let resp = zero_response \<lparr> resp_request_id := snprintf_s MAX_ID_LEN (req_request_id req) \<rparr> in
      case validate_gateway_pin settings req of
        Pin_Answered r \<Rightarrow> Finished True r
      | Pin_Refused r \<Rightarrow> Finished False r
      | Pin_Passed \<Rightarrow>
          if req_sequence req \<noteq> []
          then (case parse_sequence req 256 of
                  Inl e \<Rightarrow> Finished False (build_error_response req STATUS_BAD_REQUEST e)
                | Inr steps \<Rightarrow>
                    if steps = [] then Finished True resp
                    else next_step steps (snprintf_s MAX_RESPONSE_LEN (req_payload req)) resp)
          else To_Acquire \<lparr>ca_domain = req_domain req, ca_action = req_action req,
                 ca_algorithm = req_algorithm req, ca_payload = req_payload req, ca_type = DEV_UNKNOWN,
                 ca_resp = resp\<rparr> After_single)"

subsection \<open>Steps\<close>

definition acquire_step ::
  "request_t \<Rightarrow> call_args \<Rightarrow> continuation \<Rightarrow> resource_registry_t \<Rightarrow> exec_pc \<times> resource_registry_t" where
  "acquire_step req a k reg =
     (case resolve_device_hint_from_key_ref req (req_key_ref req) MAX_FIELD_LEN 256 of
        Inl e \<Rightarrow> (after_call req k (Inl e) (ca_resp a), reg)
      | Inr hint \<Rightarrow>
          (case registry_acquire_candidate reg
                  (step_query req (ca_domain a) (ca_action a) (ca_algorithm a) (req_key_ref req) (ca_type a) hint) of
             None \<Rightarrow> (after_call req k
                 (Inl (snprintf_s 256 (no_device_text (ca_domain a) (ca_action a) (ca_algorithm a)))) (ca_resp a), reg)
           | Some (reg', i) \<Rightarrow> (To_Call a k i, reg')))"

definition call_step ::
  "'w driver_ops_t \<Rightarrow> request_t \<Rightarrow> call_args \<Rightarrow> continuation \<Rightarrow> nat \<Rightarrow> device_resource_t \<Rightarrow> 'w
     \<Rightarrow> exec_pc \<times> 'w" where
  "call_step skf req a k i d w =
     (case translate_backend_call (ca_domain a) (ca_action a) (ca_algorithm a) (Some (ca_payload a))
             (Some (req_aux_payload req)) (Some (req_key_ref req)) d 256 of
        Inl e \<Rightarrow> (To_Release k i (Inl e) (ca_resp a), w)
      | Inr t \<Rightarrow>
          (let (res, resp, w) = driver_dispatch (ops_for skf d) (ca_domain a) d t (ca_resp a) 256 w in
           (To_Release k i res resp, w)))"

fun exec_step ::
  "'w driver_ops_t \<Rightarrow> request_t \<Rightarrow> exec_pc \<times> 'w gateway_state \<Rightarrow> exec_pc \<times> 'w gateway_state" where
  "exec_step skf req (To_Acquire a k, (reg, w)) =
     (let (pc, reg) = acquire_step req a k reg in (pc, (reg, w)))"
| "exec_step skf req (To_Call a k i, (reg, w)) =
     (let (pc, w) = call_step skf req a k i (reg ! i) w in (pc, (reg, w)))"
| "exec_step skf req (To_Release k i res resp, (reg, w)) =
     (after_call req k res resp, (registry_release reg (device_id (reg ! i)), w))"
| "exec_step skf req (Finished ok resp, st) = (Finished ok resp, st)"

text \<open>How many steps an execution still has, and the device it holds.\<close>

fun continuation_work :: "continuation \<Rightarrow> nat" where
  "continuation_work After_single = 0"
| "continuation_work (After_step acc steps) = 3 * length steps"

fun exec_work :: "exec_pc \<Rightarrow> nat" where
  "exec_work (To_Acquire a k) = 3 + continuation_work k"
| "exec_work (To_Call a k i) = 2 + continuation_work k"
| "exec_work (To_Release k i res resp) = 1 + continuation_work k"
| "exec_work (Finished ok resp) = 0"

fun held_device :: "exec_pc \<Rightarrow> nat multiset" where
  "held_device (To_Call a k i) = {#i#}"
| "held_device (To_Release k i res resp) = {#i#}"
| "held_device _ = {#}"

lemma parse_sequence_length:
  "parse_sequence req esz = Inr steps \<Longrightarrow> length steps \<le> MAX_SEQUENCE_STEPS"
  using parse_steps_wf [of esz "[]"] by (auto simp: parse_sequence_def split: if_splits)

lemma next_step_work: "exec_work (next_step steps payload resp) = 3 * length steps"
  by (cases steps) auto

lemma next_step_holds_nothing: "held_device (next_step steps payload resp) = {#}"
  by (cases steps) auto

lemma after_call_work: "exec_work (after_call req k res resp) \<le> continuation_work k"
  by (cases "(req, k, res, resp)" rule: after_call.cases) (auto simp: next_step_work)

lemma after_call_holds_nothing: "held_device (after_call req k res resp) = {#}"
  by (cases "(req, k, res, resp)" rule: after_call.cases) (auto simp: next_step_holds_nothing)

lemma begin_execution_work: "exec_work (begin_execution settings req) \<le> 12"
proof (cases "parse_sequence req 256")
  case (Inr steps)
  with parse_sequence_length [OF Inr] show ?thesis
    by (simp add: begin_execution_def Let_def next_step_work MAX_SEQUENCE_STEPS_def split: pin_check.split)
qed (simp add: begin_execution_def Let_def split: pin_check.split)

lemma begin_execution_holds_nothing: "held_device (begin_execution settings req) = {#}"
  by (simp add: begin_execution_def Let_def next_step_holds_nothing split: pin_check.split sum.split)

lemma exec_step_work:
  assumes "exec_step skf req (pc, st) = (pc', st')" and "\<not> is_finished pc"
  shows "exec_work pc' < exec_work pc"
  using assms
  by (cases "(skf, req, pc, st)" rule: exec_step.cases)
    (auto simp: acquire_step_def call_step_def Let_def intro: le_less_trans [OF after_call_work]
      split: sum.splits option.splits prod.splits)

lemma call_step_releases: "\<exists>res resp w'. call_step skf req a k i d w = (To_Release k i res resp, w')"
  by (auto simp: call_step_def Let_def split: sum.split prod.split)

text \<open>What a step does to the registry and the device the worker holds.\<close>

lemma exec_step_cases [consumes 1, case_names keeps acquires releases]:
  assumes "exec_step skf req (pc, (reg, w)) = (pc', (reg', w'))"
  obtains "reg' = reg" "held_device pc' = held_device pc"
  | q i where "registry_acquire_candidate reg q = Some (reg', i)" "held_device pc = {#}"
      "held_device pc' = {#i#}" "w' = w"
  | i where "reg' = release_index reg i" "held_device pc = {#i#}" "held_device pc' = {#}" "w' = w"
proof (cases pc)
  case (To_Acquire a k)
  with assms that(1,2) after_call_holds_nothing [of req k] show thesis
    by (auto simp: acquire_step_def split: sum.splits option.splits)
next
  case (To_Call a k i)
  with assms that(1) show thesis
    by (auto simp: call_step_def Let_def split: sum.splits prod.splits)
next
  case (To_Release k i res resp)
  with assms that(3) after_call_holds_nothing [of req k] show thesis
    by (auto simp: release_index_def)
next
  case (Finished ok resp)
  with assms that(1) show thesis by simp
qed

subsection \<open>An undisturbed execution\<close>

text \<open>A single call takes one step when it finds no device and three otherwise.\<close>

lemma exec_single_step:
  assumes "execute_single_step skf req (ca_domain a) (ca_action a) (ca_algorithm a) (ca_payload a)
      (req_aux_payload req) (req_key_ref req) (ca_type a) (ca_resp a) 256 (reg, w) = (res, resp, st')"
  shows "\<exists>n \<le> 3. (exec_step skf req ^^ n) (To_Acquire a k, (reg, w)) = (after_call req k res resp, st')"
proof -
  have one: "\<exists>n \<le> 3. (exec_step skf req ^^ n) x = y" if "exec_step skf req x = y" for x y
    using that by (intro exI [of _ 1]) simp
  show ?thesis
  proof (cases "resolve_device_hint_from_key_ref req (req_key_ref req) MAX_FIELD_LEN 256")
    case (Inl e)
    with assms have "res = Inl e" "resp = ca_resp a" "st' = (reg, w)"
      by (auto simp: execute_single_step_def)
    with Inl show ?thesis by (intro one) (simp add: acquire_step_def)
  next
    case (Inr hint)
    let ?q = "step_query req (ca_domain a) (ca_action a) (ca_algorithm a) (req_key_ref req) (ca_type a) hint"
    show ?thesis
    proof (cases "registry_acquire_candidate reg ?q")
      case None
      with Inr assms have
        "res = Inl (snprintf_s 256 (no_device_text (ca_domain a) (ca_action a) (ca_algorithm a)))"
        "resp = ca_resp a" "st' = (reg, w)"
        by (auto simp: execute_single_step_def)
      with Inr None show ?thesis by (intro one) (simp add: acquire_step_def)
    next
      case (Some ri)
      obtain reg' i where ri: "ri = (reg', i)" by fastforce
      have 1: "exec_step skf req (To_Acquire a k, (reg, w)) = (To_Call a k i, (reg', w))"
        using Inr Some ri by (simp add: acquire_step_def)
      have "\<exists>r w'. exec_step skf req (To_Call a k i, (reg', w)) = (To_Release k i res r, (reg', w'))
          \<and> after_call req k res r = after_call req k res resp
          \<and> st' = (registry_release reg' (device_id (reg' ! i)), w')"
        using assms Inr Some ri
        by (auto simp: execute_single_step_def call_step_def Let_def split: sum.splits prod.splits)
      then obtain r w' where 2: "exec_step skf req (To_Call a k i, (reg', w)) = (To_Release k i res r, (reg', w'))"
        and 3: "after_call req k res r = after_call req k res resp"
          "st' = (registry_release reg' (device_id (reg' ! i)), w')" by blast
      have "(exec_step skf req ^^ 3) (To_Acquire a k, (reg, w)) = (after_call req k res resp, st')"
        using 1 2 3 by (simp add: numeral_3_eq_3 del: exec_step.simps(1,2))
      then show ?thesis by blast
    qed
  qed
qed

lemma exec_run_steps:
  assumes "run_steps skf req steps payload resp st = (ok, resp', st')"
  shows "\<exists>n \<le> 3 * length steps. (exec_step skf req ^^ n) (next_step steps payload resp, st) = (Finished ok resp', st')"
  using assms
proof (induction steps arbitrary: payload resp st)
  case Nil
  then show ?case by simp
next
  case (Cons step steps)
  obtain reg w where st: "st = (reg, w)" by fastforce
  have call: "\<exists>n \<le> 3. (exec_step skf req ^^ n) (next_step (step # steps) payload resp, st)
      = (after_call req (After_step resp steps) res r, st1)"
    if "run_step skf req step payload st = (res, r, st1)" for res r st1
    using exec_single_step [of skf req "step_args step payload" reg w res r st1 "After_step resp steps"] that
    by (simp add: run_step_def step_args_def st)
  from Cons.prems show ?case
  proof (cases rule: run_steps_cases)
    case (fails e r)
    from call [OF fails(1)] obtain n where "n \<le> 3"
      "(exec_step skf req ^^ n) (next_step (step # steps) payload resp, st) = (Finished ok resp', st')"
      using fails(2,3) by auto
    then show ?thesis by (intro exI [of _ n]) simp
  next
    case (runs r st1)
    from call [OF runs(1)] obtain n where n: "n \<le> 3"
      "(exec_step skf req ^^ n) (next_step (step # steps) payload resp, st)
        = (next_step steps (snprintf_s MAX_RESPONSE_LEN (resp_result r)) (absorb_step resp r), st1)" by auto
    from Cons.IH [OF runs(2)] obtain m where m: "m \<le> 3 * length steps"
      "(exec_step skf req ^^ m) (next_step steps (snprintf_s MAX_RESPONSE_LEN (resp_result r)) (absorb_step resp r), st1)
        = (Finished ok resp', st')" by blast
    have "(exec_step skf req ^^ (m + n)) (next_step (step # steps) payload resp, st) = (Finished ok resp', st')"
      using n(2) m(2) by (simp add: funpow_add)
    with n(1) m(1) show ?thesis by (intro exI [of _ "m + n"]) simp
  qed
qed

lemma execution_completes:
  assumes "scheduler_execute skf settings req st = (ok, resp, st')"
  shows "\<exists>n \<le> 12. (exec_step skf req ^^ n) (begin_execution settings req, st) = (Finished ok resp, st')"
  using assms
proof (cases "validate_gateway_pin settings req")
  case Pin_Passed
  let ?r0 = "zero_response \<lparr> resp_request_id := snprintf_s MAX_ID_LEN (req_request_id req) \<rparr>"
  show ?thesis
  proof (cases "req_sequence req = []")
    case True
    obtain reg w where st: "st = (reg, w)" by fastforce
    let ?a = "\<lparr>ca_domain = req_domain req, ca_action = req_action req, ca_algorithm = req_algorithm req,
        ca_payload = req_payload req, ca_type = DEV_UNKNOWN, ca_resp = ?r0\<rparr>"
    obtain res r st1 where e: "execute_single_step skf req (req_domain req) (req_action req) (req_algorithm req)
        (req_payload req) (req_aux_payload req) (req_key_ref req) DEV_UNKNOWN ?r0 256 (reg, w) = (res, r, st1)"
      by (metis surj_pair)
    have a: "Finished ok resp = after_call req After_single res r" "st' = st1"
      using assms e Pin_Passed True st by (cases res; auto simp: scheduler_execute_def Let_def)+
    have b: "begin_execution settings req = To_Acquire ?a After_single"
      using Pin_Passed True by (simp add: begin_execution_def)
    from exec_single_step [of skf req ?a reg w res r st1 After_single] e obtain n where "n \<le> 3"
      "(exec_step skf req ^^ n) (To_Acquire ?a After_single, (reg, w)) = (after_call req After_single res r, st1)"
      by auto
    then show ?thesis unfolding a b st by (intro exI [of _ n]) simp
  next
    case False
    show ?thesis
    proof (cases "parse_sequence req 256")
      case (Inl e)
      with assms Pin_Passed False show ?thesis
        by (intro exI [of _ 0]) (simp add: scheduler_execute_def execute_sequence_def begin_execution_def)
    next
      case (Inr steps)
      show ?thesis
      proof (cases "steps = []")
        case True
        with assms Pin_Passed False Inr show ?thesis
          by (intro exI [of _ 0]) (simp add: scheduler_execute_def execute_sequence_def begin_execution_def)
      next
        case ne: False
        have "run_steps skf req steps (snprintf_s MAX_RESPONSE_LEN (req_payload req)) ?r0 st = (ok, resp, st')"
          using assms Pin_Passed False Inr ne by (simp add: scheduler_execute_def execute_sequence_def)
        from exec_run_steps [OF this] obtain n where n: "n \<le> 3 * length steps"
          "(exec_step skf req ^^ n) (next_step steps (snprintf_s MAX_RESPONSE_LEN (req_payload req)) ?r0, st)
            = (Finished ok resp, st')" by blast
        have "n \<le> 12" using n(1) parse_sequence_length [OF Inr] by (simp add: MAX_SEQUENCE_STEPS_def)
        with n(2) Pin_Passed False Inr ne show ?thesis
          by (intro exI [of _ n]) (simp add: begin_execution_def)
      qed
    qed
  qed
qed (use assms in \<open>auto intro!: exI [of _ 0] simp: scheduler_execute_def begin_execution_def\<close>)

lemma exec_step_finished: "(exec_step skf req ^^ n) (Finished ok resp, st) = (Finished ok resp, st)"
  by (induction n) simp_all

text \<open>A finished execution is the one of \<open>scheduler_execute\<close>, however many steps it took.\<close>

lemma finished_execution:
  assumes "(exec_step skf req ^^ k) (begin_execution settings req, st) = (Finished ok resp, st')"
  shows "scheduler_execute skf settings req st = (ok, resp, st')"
proof -
  obtain ok1 resp1 st1 where e: "scheduler_execute skf settings req st = (ok1, resp1, st1)"
    by (metis surj_pair)
  from execution_completes [OF e] obtain n where n:
    "(exec_step skf req ^^ n) (begin_execution settings req, st) = (Finished ok1 resp1, st1)" by blast
  have "(exec_step skf req ^^ (n + k)) (begin_execution settings req, st) = (Finished ok resp, st')"
    using assms by (simp add: funpow_add exec_step_finished)
  moreover have "(exec_step skf req ^^ (k + n)) (begin_execution settings req, st) = (Finished ok1 resp1, st1)"
    using n by (simp add: funpow_add exec_step_finished)
  ultimately show ?thesis using e by (simp add: add.commute)
qed

subsection \<open>Properties\<close>

text \<open>
  Property C26. A worker that no other worker disturbs computes \<^verbatim>\<open>scheduler_execute\<close>: at most
  twelve critical sections and adapter calls lead from the beginning of the execution to its
  end, with the return value, the response, the registry and the outside state of the
  function.
\<close>

theorem undisturbed_execution:
  assumes "scheduler_execute skf settings req st = (ok, resp, st')"
  shows "\<exists>n \<le> 12. (exec_step skf req ^^ n) (begin_execution settings req, st) = (Finished ok resp, st')"
  using assms by (rule execution_completes)

theorem undisturbed_execution_witness:
  "\<exists>ok resp st'. scheduler_execute classic_driver_ops (Some sample_settings) sample_request (sample_registry, ()) = (ok, resp, st')
    \<and> (\<exists>n \<le> 12. (exec_step classic_driver_ops sample_request ^^ n)
         (begin_execution (Some sample_settings) sample_request, (sample_registry, ())) = (Finished ok resp, st'))"
proof -
  obtain ok resp st' where e:
    "scheduler_execute classic_driver_ops (Some sample_settings) sample_request (sample_registry, ()) = (ok, resp, st')"
    by (metis surj_pair)
  from undisturbed_execution [OF this] e show ?thesis by blast
qed

end
