(* ===== verification/Server_Threads.thy ===== *)
theory Server_Threads
  imports Gateway_Server Job_Queue Execution
begin

text \<open>
  \<^verbatim>\<open>src/server/gateway/server.c\<close>: the system of the accepting thread and the workers around the
  job queue, the registry and the adapters. A step is a critical section of the queue or of
  the registry, or one call of an adapter, so that the executions of the workers interleave; a
  sleeping thread may wake at any time (the wake-ups themselves are in \<open>Queue_Monitor\<close>).
\<close>

subsection \<open>The threads of the server\<close>

datatype acceptor_pc =
    Accepting | Reading int "read_event list" | Handing job_t | Hand_Asleep job_t | Stopping | Joining | Returned_0

datatype worker_pc = W_Popping | W_Asleep | W_Running job_t exec_pc | W_Exited

text \<open>
  \<open>s_accepted\<close> and \<open>s_answered\<close> record the descriptors accepted so far and the answers
  given, in order.
\<close>

record 'w server_t =
  s_queue :: job_queue_t
  s_acceptor :: acceptor_pc
  s_workers :: "worker_pc list"
  s_state :: "'w gateway_state"
  s_accepted :: "int list"
  s_answered :: "(int \<times> cstring) list"

definition server_start :: "nat \<Rightarrow> 'w gateway_state \<Rightarrow> 'w server_t" where
  "server_start worker_count st =
     \<lparr>s_queue = queue_init, s_acceptor = Accepting,
      s_workers = replicate (min worker_count DEFAULT_WORKERS) W_Popping,
      s_state = st, s_accepted = [], s_answered = []\<rparr>"

definition answer :: "int \<Rightarrow> response_t \<Rightarrow> 'w server_t \<Rightarrow> 'w server_t" where
  "answer fd resp s = s \<lparr> s_answered := s_answered s @ [(fd, response_bytes resp)] \<rparr>"

fun wake_worker :: "worker_pc \<Rightarrow> worker_pc" where
  "wake_worker W_Asleep = W_Popping" | "wake_worker w = w"

inductive server_step ::
  "'w driver_ops_t \<Rightarrow> gateway_settings_t option \<Rightarrow> 'w server_t \<Rightarrow> 'w server_t \<Rightarrow> bool"
  for skf settings where
  accept: "s_acceptor s = Accepting \<Longrightarrow>
    server_step skf settings s (s \<lparr> s_acceptor := Reading fd evs, s_accepted := s_accepted s @ [fd] \<rparr>)"
| leave: "s_acceptor s = Accepting \<Longrightarrow> server_step skf settings s (s \<lparr> s_acceptor := Stopping \<rparr>)"
| reject: "s_acceptor s = Reading fd evs \<Longrightarrow> accept_line evs = Inl resp \<Longrightarrow>
    server_step skf settings s (answer fd resp (s \<lparr> s_acceptor := Accepting \<rparr>))"
| parsed: "s_acceptor s = Reading fd evs \<Longrightarrow> accept_line evs = Inr req \<Longrightarrow>
    server_step skf settings s (s \<lparr> s_acceptor := Handing \<lparr>job_client_fd = fd, job_request = req\<rparr> \<rparr>)"
| push_wait: "s_acceptor s = Handing j \<Longrightarrow> queue_push (s_queue s) j = Wait \<Longrightarrow>
    server_step skf settings s (s \<lparr> s_acceptor := Hand_Asleep j \<rparr>)"
| push_woken: "s_acceptor s = Hand_Asleep j \<Longrightarrow>
    server_step skf settings s (s \<lparr> s_acceptor := Handing j \<rparr>)"
| push_stopped: "s_acceptor s = Handing j \<Longrightarrow> queue_push (s_queue s) j = Stopped \<Longrightarrow>
    server_step skf settings s
      (answer (job_client_fd j) (queue_stopped_response (job_request j)) (s \<lparr> s_acceptor := Accepting \<rparr>))"
| pushed: "s_acceptor s = Handing j \<Longrightarrow> queue_push (s_queue s) j = Returned q \<Longrightarrow>
    server_step skf settings s (s \<lparr> s_acceptor := Accepting, s_queue := q \<rparr>)"
| stop: "s_acceptor s = Stopping \<Longrightarrow>
    server_step skf settings s (s \<lparr> s_acceptor := Joining, s_queue := queue_stop (s_queue s),
      s_workers := map wake_worker (s_workers s) \<rparr>)"
| join: "s_acceptor s = Joining \<Longrightarrow> set (s_workers s) \<subseteq> {W_Exited} \<Longrightarrow>
    server_step skf settings s (s \<lparr> s_acceptor := Returned_0 \<rparr>)"
| pop_wait: "i < length (s_workers s) \<Longrightarrow> s_workers s ! i = W_Popping \<Longrightarrow> queue_pop (s_queue s) = Wait \<Longrightarrow>
    server_step skf settings s (s \<lparr> s_workers := (s_workers s)[i := W_Asleep] \<rparr>)"
| pop_woken: "i < length (s_workers s) \<Longrightarrow> s_workers s ! i = W_Asleep \<Longrightarrow>
    server_step skf settings s (s \<lparr> s_workers := (s_workers s)[i := W_Popping] \<rparr>)"
| pop_stopped: "i < length (s_workers s) \<Longrightarrow> s_workers s ! i = W_Popping \<Longrightarrow> queue_pop (s_queue s) = Stopped \<Longrightarrow>
    server_step skf settings s (s \<lparr> s_workers := (s_workers s)[i := W_Exited] \<rparr>)"
| popped: "i < length (s_workers s) \<Longrightarrow> s_workers s ! i = W_Popping \<Longrightarrow>
    queue_pop (s_queue s) = Returned (j, q) \<Longrightarrow>
    server_step skf settings s (s \<lparr> s_workers := (s_workers s)[i := W_Running j (begin_execution settings (job_request j))],
      s_queue := q \<rparr>)"
| advance: "i < length (s_workers s) \<Longrightarrow> s_workers s ! i = W_Running j pc \<Longrightarrow> \<not> is_finished pc \<Longrightarrow>
    exec_step skf (job_request j) (pc, s_state s) = (pc', st') \<Longrightarrow>
    server_step skf settings s (s \<lparr> s_workers := (s_workers s)[i := W_Running j pc'], s_state := st' \<rparr>)"
| answered: "i < length (s_workers s) \<Longrightarrow> s_workers s ! i = W_Running j (Finished ok resp) \<Longrightarrow>
    server_step skf settings s
      (answer (job_client_fd j) resp (s \<lparr> s_workers := (s_workers s)[i := W_Popping] \<rparr>))"

inductive server_reachable ::
  "'w driver_ops_t \<Rightarrow> gateway_settings_t option \<Rightarrow> nat \<Rightarrow> 'w gateway_state \<Rightarrow> 'w server_t \<Rightarrow> bool"
  for skf settings n st0 where
  start: "server_reachable skf settings n st0 (server_start n st0)"
| step: "server_reachable skf settings n st0 s \<Longrightarrow> server_step skf settings s s' \<Longrightarrow>
    server_reachable skf settings n st0 s'"

subsection \<open>Where a connection is\<close>

fun acceptor_fds :: "acceptor_pc \<Rightarrow> int multiset" where
  "acceptor_fds (Reading fd evs) = {#fd#}"
| "acceptor_fds (Handing j) = {#job_client_fd j#}"
| "acceptor_fds (Hand_Asleep j) = {#job_client_fd j#}"
| "acceptor_fds _ = {#}"

fun worker_fds :: "worker_pc \<Rightarrow> int multiset" where
  "worker_fds (W_Running j pc) = {#job_client_fd j#}"
| "worker_fds _ = {#}"

definition queued_fds :: "job_queue_t \<Rightarrow> int multiset" where
  "queued_fds q = mset (map job_client_fd (queue_contents q))"

definition working_fds :: "worker_pc list \<Rightarrow> int multiset" where
  "working_fds ws = sum_list (map worker_fds ws)"

definition server_inv :: "'w server_t \<Rightarrow> bool" where
  "server_inv s \<longleftrightarrow> wf_queue (s_queue s)
     \<and> mset (s_accepted s) = mset (map fst (s_answered s)) + acceptor_fds (s_acceptor s)
         + queued_fds (s_queue s) + working_fds (s_workers s)
     \<and> (q_stop (s_queue s) \<longleftrightarrow> s_acceptor s \<in> {Joining, Returned_0})
     \<and> (W_Exited \<in> set (s_workers s) \<longrightarrow> q_stop (s_queue s) \<and> queue_contents (s_queue s) = [])
     \<and> (s_acceptor s = Returned_0 \<longrightarrow> set (s_workers s) \<subseteq> {W_Exited})"

lemma working_fds_update:
  "i < length ws \<Longrightarrow> working_fds (ws[i := w]) + worker_fds (ws ! i) = working_fds ws + worker_fds w"
  unfolding working_fds_def by (rule sum_list_map_update)

lemma working_fds_same:
  "i < length ws \<Longrightarrow> worker_fds w = worker_fds (ws ! i) \<Longrightarrow> working_fds (ws[i := w]) = working_fds ws"
  using working_fds_update [of i ws w] by simp

lemma working_fds_wake [simp]: "working_fds (map wake_worker ws) = working_fds ws"
proof -
  have "worker_fds (wake_worker w) = worker_fds w" for w by (cases w) auto
  then show ?thesis by (simp add: working_fds_def comp_def)
qed

lemma exited_wake [simp]: "W_Exited \<in> wake_worker ` set ws \<longleftrightarrow> W_Exited \<in> set ws"
proof -
  have "W_Exited = wake_worker w \<longleftrightarrow> w = W_Exited" for w by (cases w) auto
  then show ?thesis by (simp add: image_iff)
qed

lemma exited_update:
  "W_Exited \<in> set (ws[i := w]) \<Longrightarrow> w \<noteq> W_Exited \<Longrightarrow> W_Exited \<in> set ws"
  using set_update_subset_insert [of ws i w] by auto

lemma queued_push: "queue_push q j = Returned q' \<Longrightarrow> wf_queue q \<Longrightarrow>
    queued_fds q' = queued_fds q + {#job_client_fd j#}"
  by (simp add: queued_fds_def queue_push_contents)

lemma queued_pop: "queue_pop q = Returned (j, q') \<Longrightarrow> wf_queue q \<Longrightarrow>
    queued_fds q = queued_fds q' + {#job_client_fd j#}"
  by (simp add: queued_fds_def queue_pop_contents)

lemma pop_stop: "queue_pop q = Returned (j, q') \<Longrightarrow> q_stop q' = q_stop q"
  by (auto simp: queue_pop_def split: if_splits)

lemma push_stop: "queue_push q j = Returned q' \<Longrightarrow> q_stop q' = q_stop q"
  by (auto simp: queue_push_def split: if_splits)

lemma server_inv_start: "server_inv (server_start n st)"
proof -
  have "working_fds (replicate k W_Popping) = {#}" for k by (induction k) (simp_all add: working_fds_def)
  then show ?thesis
    by (simp add: server_inv_def server_start_def wf_queue_init queued_fds_def queue_init_contents)
      (simp add: queue_init_def)
qed

lemma server_inv_running:
  "server_inv s \<Longrightarrow> i < length (s_workers s) \<Longrightarrow> s_workers s ! i \<noteq> W_Exited \<Longrightarrow> s_acceptor s \<noteq> Returned_0"
  unfolding server_inv_def using nth_mem by blast

lemma server_inv_step:
  assumes "server_step skf settings s s'" and "server_inv s"
  shows "server_inv s'"
  using assms
proof (induction rule: server_step.induct)
  case (pushed s j q)
  then have "\<not> q_stop (s_queue s)" by (auto simp: queue_push_def split: if_splits)
  with pushed show ?case
    using queued_push [OF pushed(2)] queue_push_wf [OF pushed(2)] push_stop [OF pushed(2)]
    by (auto simp: server_inv_def)
next
  case (push_stopped s j)
  then have "q_stop (s_queue s)" by (auto simp: queue_push_def split: if_splits)
  with push_stopped show ?case by (simp add: server_inv_def)
next
  case (stop s)
  have "queued_fds (queue_stop q) = queued_fds q" for q by (simp add: queued_fds_def queue_stop_contents)
  with stop show ?case
    by (simp add: server_inv_def wf_queue_stop queue_stop_contents) (simp add: queue_stop_def)
next
  case (pop_wait i s)
  then have "worker_fds W_Asleep = worker_fds (s_workers s ! i)" by simp
  with pop_wait show ?case
    using server_inv_running [OF pop_wait(4) pop_wait(1)] working_fds_same [OF pop_wait(1)] exited_update [of "s_workers s" i W_Asleep]
    by (auto simp: server_inv_def)
next
  case (pop_woken i s)
  then have "worker_fds W_Popping = worker_fds (s_workers s ! i)" by simp
  with pop_woken show ?case
    using server_inv_running [OF pop_woken(3) pop_woken(1)] working_fds_same [OF pop_woken(1)] exited_update [of "s_workers s" i W_Popping]
    by (auto simp: server_inv_def)
next
  case (pop_stopped i s)
  then have "worker_fds W_Exited = worker_fds (s_workers s ! i)" "q_stop (s_queue s)"
      "queue_contents (s_queue s) = []"
    by (auto simp: queue_pop_def queue_contents_def split: if_splits)
  with pop_stopped show ?case
    using server_inv_running [OF pop_stopped(4) pop_stopped(1)] working_fds_same [OF pop_stopped(1)] by (auto simp: server_inv_def)
next
  case (popped i s j q)
  let ?w = "W_Running j (begin_execution settings (job_request j))"
  have u: "working_fds ((s_workers s)[i := ?w]) = working_fds (s_workers s) + {#job_client_fd j#}"
    using working_fds_update [OF popped(1), of ?w] popped(2) by simp
  have ne: "queue_contents (s_queue s) \<noteq> []"
    using queue_pop_contents [OF popped(3)] popped(4) by (simp add: server_inv_def)
  with popped show ?case
    using server_inv_running [OF popped(4) popped(1)] u queued_pop [OF popped(3)] queue_pop_wf [OF popped(3)] pop_stop [OF popped(3)]
      exited_update [of "s_workers s" i ?w]
    by (auto simp: server_inv_def)
next
  case (advance i s j pc pc' st')
  then have "worker_fds (W_Running j pc') = worker_fds (s_workers s ! i)" by simp
  with advance show ?case
    using server_inv_running [OF advance(5) advance(1)] working_fds_same [OF advance(1)] exited_update [of "s_workers s" i "W_Running j pc'"]
    by (auto simp: server_inv_def)
next
  case (answered i s j ok resp)
  have u: "working_fds (s_workers s) = working_fds ((s_workers s)[i := W_Popping]) + {#job_client_fd j#}"
    using working_fds_update [OF answered(1), of W_Popping] answered(2) by simp
  with answered show ?case
    using server_inv_running [OF answered(3) answered(1)] exited_update [of "s_workers s" i W_Popping] by (auto simp: server_inv_def answer_def)
next
  case (join s)
  then show ?case by (simp add: server_inv_def)
qed (auto simp: server_inv_def answer_def)

lemma server_reachable_inv: "server_reachable skf settings n st0 s \<Longrightarrow> server_inv s"
  by (induction rule: server_reachable.induct) (blast intro: server_inv_start server_inv_step)+

lemma server_workers:
  "server_reachable skf settings n st0 s \<Longrightarrow> length (s_workers s) = min n DEFAULT_WORKERS"
proof (induction rule: server_reachable.induct)
  case start
  then show ?case by (simp add: server_start_def)
next
  case (step s s')
  from step(2) have "length (s_workers s') = length (s_workers s)"
    by (cases rule: server_step.cases) (auto simp: answer_def)
  with step show ?case by simp
qed

subsection \<open>Invariants of the executions\<close>

text \<open>
  What holds of a job when its execution begins and is kept by its own steps, in whatever
  state of those the server can be in the other workers leave things, holds of every job a
  worker runs.
\<close>

locale execution_invariant =
  fixes skf :: "'w driver_ops_t" and settings :: "gateway_settings_t option"
    and S :: "'w gateway_state \<Rightarrow> bool"
    and P :: "job_t \<Rightarrow> exec_pc \<Rightarrow> bool"
  assumes begin_law: "P j (begin_execution settings (job_request j))"
    and step_law: "P j pc \<Longrightarrow> \<not> is_finished pc \<Longrightarrow> S st \<Longrightarrow>
      exec_step skf (job_request j) (pc, st) = (pc', st') \<Longrightarrow> P j pc'"
begin

definition running_ok :: "worker_pc \<Rightarrow> bool" where
  "running_ok v \<longleftrightarrow> (\<forall>j pc. v = W_Running j pc \<longrightarrow> P j pc)"

lemma running_ok_simps [simp]:
  "running_ok W_Popping" "running_ok W_Asleep" "running_ok W_Exited" "running_ok (W_Running j pc) \<longleftrightarrow> P j pc"
  by (simp_all add: running_ok_def)

lemma running_ok_wake: "list_all running_ok ws \<Longrightarrow> list_all running_ok (map wake_worker ws)"
proof (induction ws)
  case (Cons v ws)
  then show ?case by (cases v) auto
qed simp

lemma running_ok_update: "list_all running_ok ws \<Longrightarrow> running_ok u \<Longrightarrow> list_all running_ok (ws[i := u])"
  using set_update_subset_insert [of ws i u] by (auto simp: list_all_iff)

lemma step_keeps:
  assumes "server_step skf settings s s'" and "S (s_state s)" and ok: "list_all running_ok (s_workers s)"
  shows "list_all running_ok (s_workers s')"
  using assms(1)
proof (cases rule: server_step.cases)
  case (advance i j pc pc' st')
  then have "P j pc" using ok nth_mem by (fastforce simp: list_all_iff)
  with advance show ?thesis using step_law [OF _ advance(4) assms(2) advance(5)] by (simp add: running_ok_update [OF ok])
qed (simp_all add: answer_def ok running_ok_wake running_ok_update begin_law)

lemma reachable_running:
  assumes "server_reachable skf settings n st0 s" and "W_Running j pc \<in> set (s_workers s)"
    and "\<And>s. server_reachable skf settings n st0 s \<Longrightarrow> S (s_state s)"
  shows "P j pc"
proof -
  have "list_all running_ok (s_workers s)" using assms(1)
  proof (induction rule: server_reachable.induct)
    case (step s s')
    from step_keeps [OF step.hyps(2) assms(3) [OF step.hyps(1)] step.IH] show ?case .
  qed (simp add: server_start_def list_all_iff)
  with assms(2) show ?thesis by (fastforce simp: list_all_iff)
qed

end

subsection \<open>Properties\<close>

text \<open>
  Property C3. No connection is lost and none is answered twice. In every reachable state the
  accepted connections are exactly those answered, those in the queue, the one the accepting
  thread holds and those the workers run; when \<^verbatim>\<open>server_run\<close> returns (with at least one
  worker) every accepted connection has been answered exactly once. An answer is what was sent
  before the connection was closed, which is nothing when the response does not fit its buffer.
\<close>

theorem every_connection_answered_once:
  assumes "server_reachable skf settings n st0 s" and "0 < n"
  shows "mset (s_accepted s) = mset (map fst (s_answered s)) + acceptor_fds (s_acceptor s)
        + queued_fds (s_queue s) + working_fds (s_workers s)
    \<and> (s_acceptor s = Returned_0 \<longrightarrow> mset (s_accepted s) = mset (map fst (s_answered s)))"
proof -
  have inv: "server_inv s" using server_reachable_inv [OF assms(1)] .
  have ne: "s_workers s \<noteq> []"
    using server_workers [OF assms(1)] assms(2) by (auto simp: DEFAULT_WORKERS_def)
  have final: "queued_fds (s_queue s) = {#} \<and> working_fds (s_workers s) = {#}"
    if r: "s_acceptor s = Returned_0"
  proof -
    have ex: "set (s_workers s) \<subseteq> {W_Exited}" using inv r by (simp add: server_inv_def)
    with ne have "W_Exited \<in> set (s_workers s)" by (cases "s_workers s") auto
    then have "queue_contents (s_queue s) = []" using inv by (simp add: server_inv_def)
    moreover have "set ws \<subseteq> {W_Exited} \<Longrightarrow> working_fds ws = {#}" for ws
      by (induction ws) (auto simp: working_fds_def)
    ultimately show ?thesis using ex by (simp add: queued_fds_def)
  qed
  then show ?thesis using inv by (auto simp: server_inv_def)
qed

theorem every_connection_answered_once_witness:
  "\<exists>s :: unit server_t. server_reachable classic_driver_ops None 1 ([], ()) s \<and> s_acceptor s = Returned_0
     \<and> s_accepted s = [7] \<and> mset (map fst (s_answered s)) = {#7#}"
proof -
  let ?step = "server_step (classic_driver_ops :: unit driver_ops_t) None"
  let ?reach = "server_reachable (classic_driver_ops :: unit driver_ops_t) None 1 ([], ())"
  let ?q = "queue_init"
  let ?ans = "[(7 :: int, response_bytes (plain_response ''unknown'' STATUS_BAD_REQUEST ''empty request''))]"
  let ?st = "\<lambda>q a ws acc ans. \<lparr>s_queue = q, s_acceptor = a, s_workers = ws, s_state = ([], ()),
      s_accepted = acc, s_answered = ans\<rparr> :: unit server_t"
  have 0: "?reach (?st ?q Accepting [W_Popping] [] [])"
    using server_reachable.start [of classic_driver_ops None 1 "([], ())"]
    by (simp add: server_start_def DEFAULT_WORKERS_def)
  have 1: "?step (?st ?q Accepting [W_Popping] [] []) (?st ?q (Reading 7 []) [W_Popping] [7] [])"
    using server_step.accept [of "?st ?q Accepting [W_Popping] [] []" _ _ 7 "[]"] by simp
  have 2: "?step (?st ?q (Reading 7 []) [W_Popping] [7] []) (?st ?q Accepting [W_Popping] [7] ?ans)"
    using server_step.reject [of "?st ?q (Reading 7 []) [W_Popping] [7] []" 7 "[]"]
    by (simp add: accept_line_def answer_def)
  have 3: "?step (?st ?q Accepting [W_Popping] [7] ?ans) (?st ?q Stopping [W_Popping] [7] ?ans)"
    using server_step.leave [of "?st ?q Accepting [W_Popping] [7] ?ans"] by simp
  have 4: "?step (?st ?q Stopping [W_Popping] [7] ?ans) (?st (queue_stop ?q) Joining [W_Popping] [7] ?ans)"
    using server_step.stop [of "?st ?q Stopping [W_Popping] [7] ?ans"] by simp
  have p: "queue_pop (queue_stop ?q) = Stopped" by (simp add: queue_pop_def queue_stop_def queue_init_def)
  have 5: "?step (?st (queue_stop ?q) Joining [W_Popping] [7] ?ans) (?st (queue_stop ?q) Joining [W_Exited] [7] ?ans)"
    using server_step.pop_stopped [of 0 "?st (queue_stop ?q) Joining [W_Popping] [7] ?ans"] p by simp
  have 6: "?step (?st (queue_stop ?q) Joining [W_Exited] [7] ?ans) (?st (queue_stop ?q) Returned_0 [W_Exited] [7] ?ans)"
    using server_step.join [of "?st (queue_stop ?q) Joining [W_Exited] [7] ?ans"] by simp
  have r: "?reach (?st (queue_stop ?q) Returned_0 [W_Exited] [7] ?ans)"
    by (rule server_reachable.step [OF server_reachable.step [OF server_reachable.step [OF
        server_reachable.step [OF server_reachable.step [OF server_reachable.step [OF 0 1] 2] 3] 4] 5] 6])
  from every_connection_answered_once [OF r] have
    "mset (s_accepted (?st (queue_stop ?q) Returned_0 [W_Exited] [7] ?ans)) =
     mset (map fst (s_answered (?st (queue_stop ?q) Returned_0 [W_Exited] [7] ?ans)))" by simp
  with r show ?thesis by (intro exI [of _ "?st (queue_stop ?q) Returned_0 [W_Exited] [7] ?ans"]) simp
qed

end
