(* ===== verification/Log_Lines.thy ===== *)
theory Log_Lines
  imports CString_Prelude
begin

text \<open>
  \<^verbatim>\<open>src/common/log.c\<close>: the lines of the log. The time is a parameter, as \<^verbatim>\<open>localtime_r\<close> breaks it
  down; what \<^verbatim>\<open>vfprintf\<close> makes of a format and its arguments is the message.
\<close>

text \<open>The fields of \<^verbatim>\<open>struct tm\<close> that are printed: \<open>tm_mon\<close> counts from 0, \<open>tm_year\<close> from 1900.\<close>

record tm_t =
  tm_sec :: nat
  tm_min :: nat
  tm_hour :: nat
  tm_mday :: nat
  tm_mon :: nat
  tm_year :: int

definition two_digits :: "nat \<Rightarrow> cstring" where
  "two_digits n = (if n < 10 then ''0'' @ dec_nat n else dec_nat n)"

text \<open>\<^verbatim>\<open>strftime\<close> with \<^verbatim>\<open>"%Y-%m-%d %H:%M:%S"\<close>.\<close>

definition strftime_stamp :: "tm_t \<Rightarrow> cstring" where
  "strftime_stamp now = dec_int (tm_year now + 1900) @ ''-'' @ two_digits (tm_mon now + 1) @ ''-''
     @ two_digits (tm_mday now) @ '' '' @ two_digits (tm_hour now) @ '':'' @ two_digits (tm_min now)
     @ '':'' @ two_digits (tm_sec now)"

definition vlog_with_level :: "cstring \<Rightarrow> tm_t \<Rightarrow> cstring \<Rightarrow> cstring" where
  "vlog_with_level level now msg = ''['' @ strftime_stamp now @ ''] '' @ level @ '' '' @ msg @ [CHR 0x0A]"

definition log_info :: "tm_t \<Rightarrow> cstring \<Rightarrow> cstring" where
  "log_info = vlog_with_level ''INFO''"

definition log_error :: "tm_t \<Rightarrow> cstring \<Rightarrow> cstring" where
  "log_error = vlog_with_level ''ERROR''"

text \<open>What the program hands to the log, and the line it becomes.\<close>

datatype log_entry = Info cstring | Error cstring

fun log_line :: "tm_t \<Rightarrow> log_entry \<Rightarrow> cstring" where
  "log_line now (Info msg) = log_info now msg"
| "log_line now (Error msg) = log_error now msg"

subsection \<open>Lemmas\<close>

definition valid_tm :: "tm_t \<Rightarrow> bool" where
  "valid_tm now \<longleftrightarrow> tm_sec now \<le> 60 \<and> tm_min now < 60 \<and> tm_hour now < 24
     \<and> 0 < tm_mday now \<and> tm_mday now \<le> 31 \<and> tm_mon now < 12
     \<and> - (2 ^ 31) \<le> tm_year now \<and> tm_year now < 2 ^ 31"

lemma length_two_digits:
  assumes "n < 100"
  shows "length (two_digits n) = 2"
proof -
  have "n div 10 < 10" using assms by simp
  then show ?thesis by (simp add: two_digits_def dec_nat.simps [of n] dec_nat.simps [of "n div 10"])
qed

text \<open>The stamp fits the array of 32 bytes, so \<^verbatim>\<open>strftime\<close> always writes it.\<close>

lemma stamp_fits:
  assumes "valid_tm now"
  shows "length (strftime_stamp now) < 32"
proof -
  have "nat (tm_year now + 1900) < 10 ^ 10" "nat (- (tm_year now + 1900)) < 10 ^ 10"
    using assms by (auto simp: valid_tm_def)
  from this [THEN length_dec_nat] have "length (dec_int (tm_year now + 1900)) \<le> 11" by (simp add: dec_int_def)
  with assms show ?thesis by (simp add: strftime_stamp_def valid_tm_def length_two_digits)
qed

end
