(* ===== verification/Gateway_Main.thy ===== *)
theory Gateway_Main
  imports Config_Loader Server_Threads Log_Lines
begin

text \<open>
  \<^verbatim>\<open>src/server/gateway/main.c\<close>: from the command line and the two configuration files to
  the server, with the properties that need the loaders and the server together; and the end
  of the server: once the queue is stopped, every step of any thread brings the return of
  \<^verbatim>\<open>server_run\<close> nearer.
\<close>

subsection \<open>Start-up\<close>

definition main_device_config_path :: "cstring list \<Rightarrow> cstring" where
  "main_device_config_path argv = (if 2 \<le> length argv then argv ! 1 else ''./configs/devices.conf'')"

definition main_gateway_config_path :: "cstring list \<Rightarrow> cstring" where
  "main_gateway_config_path argv = (if 3 \<le> length argv then argv ! 2 else ''./configs/gateway.conf'')"

definition main_socket_path :: "cstring list \<Rightarrow> cstring" where
  "main_socket_path argv = (if 4 \<le> length argv then argv ! 3 else ''/tmp/crypto_gateway.sock'')"

text \<open>
  What the operating system answers when the listening socket is made: \<open>os_socket\<close> and
  \<open>os_listen\<close> tell whether \<^verbatim>\<open>socket\<close> and \<^verbatim>\<open>listen\<close> succeed, \<open>os_bind p\<close> whether \<^verbatim>\<open>bind\<close> to the path
  \<open>p\<close> does; \<^verbatim>\<open>sun_path\<close> has 108 bytes.
\<close>

record os_answers =
  os_socket :: bool
  os_bind :: "cstring \<Rightarrow> bool"
  os_listen :: bool

definition create_server_socket :: "os_answers \<Rightarrow> cstring \<Rightarrow> bool" where
  "create_server_socket os socket_path =
     (if \<not> os_socket os then False
      else if \<not> os_bind os (snprintf_s 108 socket_path) then False
      else os_listen os)"

text \<open>
  \<^verbatim>\<open>server_run\<close> up to the accept loop, which is the step relation of \<open>Server_Threads\<close>: \<open>Inl\<close>
  is its early return, \<open>Inr\<close> the state the loop starts from. Before it the log so far.
\<close>

definition server_run ::
  "os_answers \<Rightarrow> cstring \<Rightarrow> nat \<Rightarrow> 'w gateway_state \<Rightarrow> log_entry list \<times> (int + 'w server_t)" where
  "server_run os socket_path worker_count st =
     (if create_server_socket os socket_path
      then ([Info (''listening on '' @ socket_path)], Inr (server_start worker_count st))
      else ([Error (''failed to create server socket at '' @ socket_path)], Inl (- 1)))"

text \<open>
  \<open>files p\<close> are the contents of the file \<open>p\<close>, \<open>w\<close> the outside state. \<open>Inl 1\<close> is the exit
  code of a start that fails, \<open>Inr\<close> holds what the accept loop starts from.
\<close>

definition gateway_main ::
  "os_answers \<Rightarrow> cstring list \<Rightarrow> (cstring \<Rightarrow> string option) \<Rightarrow> 'w
     \<Rightarrow> log_entry list \<times> (int + cstring \<times> gateway_settings_t \<times> 'w server_t)" where
  "gateway_main os argv files w =
     (case load_resources_from_file (main_device_config_path argv) (files (main_device_config_path argv))
             registry_init 256 of
        (reg, Inl e) \<Rightarrow> ([Error (''device config load failed: '' @ e)], Inl 1)
      | (reg, Inr _) \<Rightarrow>
          (case load_gateway_settings (main_gateway_config_path argv) (files (main_gateway_config_path argv)) 256 of
             Inl e \<Rightarrow> ([Error (''gateway config load failed: '' @ e)], Inl 1)
           | Inr settings \<Rightarrow>
               (case server_run os (main_socket_path argv) DEFAULT_WORKERS (reg, w) of
                  (log, Inl e) \<Rightarrow> (Info (''loaded '' @ dec_nat (length reg) @ '' devices'') # log, Inl 1)
                | (log, Inr server) \<Rightarrow>
                    (Info (''loaded '' @ dec_nat (length reg) @ '' devices'') # log,
                     Inr (main_socket_path argv, settings, server)))))"

fun is_error :: "log_entry \<Rightarrow> bool" where
  "is_error (Error msg) = True"
| "is_error (Info msg) = False"

text \<open>A start that fails ends its log with its only error; one that succeeds logs no error.\<close>

lemma start_log:
  assumes "gateway_main os argv files w = (log, r)"
  shows "(\<exists>ls. length ls \<le> 1 \<and> \<not> list_ex is_error ls \<and>
      (case r of Inl code \<Rightarrow> code = 1 \<and> (\<exists>msg. log = ls @ [Error msg])
       | Inr (path, settings, s) \<Rightarrow> log = ls @ [Info (''listening on '' @ path)]))"
  using assms
  by (auto simp: gateway_main_def server_run_def split: prod.splits sum.splits if_splits
      intro: exI [of _ "[]"] exI [of _ "[Info x]" for x])

text \<open>
  Property C16. A gateway that starts is protected and well formed, whatever its two files
  hold: it has a PIN, refuses every request without it before any device is touched, has at
  most 32 well-formed devices with nothing in flight, and four workers. When a file is
  missing, malformed or sets no PIN, or the socket cannot be made, it does not start.
\<close>

theorem started_gateway_is_protected:
  assumes "gateway_main os argv files w = (log, Inr (path, settings, s))"
    and "req_user_pin req \<noteq> gateway_pin settings"
  shows "gateway_pin settings \<noteq> []
    \<and> (\<exists>msg. scheduler_execute skf (Some settings) req (s_state s) =
        (False, build_error_response req STATUS_UNAUTHORIZED msg, s_state s))
    \<and> length (fst (s_state s)) \<le> MAX_DEVICES
    \<and> list_all (\<lambda>d. wf_device d \<and> inflight d = 0) (fst (s_state s))
    \<and> length (s_workers s) = 4"
proof -
  let ?dp = "main_device_config_path argv" and ?gp = "main_gateway_config_path argv"
  obtain reg where l: "load_resources_from_file ?dp (files ?dp) registry_init 256 = (reg, Inr ())"
      "load_gateway_settings ?gp (files ?gp) 256 = Inr settings" "s = server_start DEFAULT_WORKERS (reg, w)"
    using assms(1) by (auto simp: gateway_main_def server_run_def split: prod.splits sum.splits if_splits)
  have pin: "gateway_pin settings \<noteq> []"
    using l(2) by (auto simp: load_gateway_settings_def Let_def split: option.splits if_splits)
  have "length reg \<le> MAX_DEVICES \<and> (\<forall>d \<in> set reg. wf_device d \<and> inflight d = 0)"
    using loaded_registry [of ?dp "files ?dp" 256] l(1) by (simp add: registry_init_def)
  then show ?thesis using pin mismatched_pin [OF pin assms(2), of skf "s_state s"] l(3)
    by (simp add: server_start_def list_all_iff size_defs)
qed

theorem started_gateway_is_protected_witness:
  "\<exists>log settings s. gateway_main \<lparr>os_socket = True, os_bind = (\<lambda>p. True), os_listen = True\<rparr> [''gw'', ''d'', ''g'']
      (\<lambda>p. if p = ''g'' then Some ''gateway_pin=12\<newline>'' else Some []) () = (log, Inr (''/tmp/crypto_gateway.sock'', settings, s))
    \<and> gateway_pin settings = ''12''
    \<and> (\<exists>msg. scheduler_execute classic_driver_ops (Some settings) zero_request (s_state s) =
        (False, build_error_response zero_request STATUS_UNAUTHORIZED msg, s_state s))"
proof -
  let ?files = "\<lambda>p. if p = ''g'' then Some ''gateway_pin=12\<newline>'' else Some []"
  have "load_gateway_settings ''g'' (Some ''gateway_pin=12\<newline>'') 256 = Inr \<lparr>gateway_pin = ''12''\<rparr>" by code_simp
  moreover have "load_resources_from_file ''d'' (Some []) registry_init 256 = ([], Inr ())"
    by (simp add: load_resources_from_file_def fgets_lines_Nil registry_init_def)
  ultimately have m: "gateway_main \<lparr>os_socket = True, os_bind = (\<lambda>p. True), os_listen = True\<rparr> [''gw'', ''d'', ''g''] ?files () =
      ([Info (''loaded '' @ dec_nat 0 @ '' devices''), Info ''listening on /tmp/crypto_gateway.sock''],
       Inr (''/tmp/crypto_gateway.sock'', \<lparr>gateway_pin = ''12''\<rparr>, server_start DEFAULT_WORKERS ([], ())))"
    by (simp add: gateway_main_def server_run_def create_server_socket_def main_device_config_path_def
        main_gateway_config_path_def main_socket_path_def)
  have "req_user_pin zero_request \<noteq> gateway_pin \<lparr>gateway_pin = ''12''\<rparr>" by (simp add: zero_request_def)
  from started_gateway_is_protected [OF m this, of classic_driver_ops] m show ?thesis by auto
qed

subsection \<open>Shutdown\<close>

text \<open>
  What is left to do: a job in the queue has to be taken and executed, an execution to be
  finished and answered, a thread to exit.
\<close>

fun worker_work :: "worker_pc \<Rightarrow> nat" where
  "worker_work W_Exited = 0"
| "worker_work W_Popping = 1"
| "worker_work W_Asleep = 2"
| "worker_work (W_Running j pc) = 2 + exec_work pc"

definition shutdown_work :: "'w server_t \<Rightarrow> nat" where
  "shutdown_work s = 14 * length (queue_contents (s_queue s)) + sum_list (map worker_work (s_workers s))
     + (if s_acceptor s = Returned_0 then 0 else 1)"

interpretation short_executions: execution_invariant skf settings "\<lambda>st. True" "\<lambda>j pc. exec_work pc \<le> 12"
  for skf :: "'w driver_ops_t" and settings
proof unfold_locales
  show "exec_work (begin_execution settings (job_request j)) \<le> 12" for j by (rule begin_execution_work)
next
  fix j pc pc' and st st' :: "'w gateway_state"
  assume "exec_work pc \<le> 12" "\<not> is_finished pc" "exec_step skf (job_request j) (pc, st) = (pc', st')"
  then show "exec_work pc' \<le> 12" using exec_step_work by fastforce
qed

lemma worker_work_update:
  "i < length ws \<Longrightarrow> sum_list (map worker_work (ws[i := v])) + worker_work (ws ! i) =
     sum_list (map worker_work ws) + worker_work v"
  by (rule sum_list_map_update)

text \<open>After the stop every step does some of the work, and a step is possible until the return.\<close>

lemma shutdown_step:
  assumes "server_step skf settings s s'" and "server_inv s" and "s_acceptor s \<in> {Joining, Returned_0}"
  shows "shutdown_work s' < shutdown_work s \<and> s_acceptor s' \<in> {Joining, Returned_0}"
proof -
  have stop: "q_stop (s_queue s)" "wf_queue (s_queue s)" using assms(2,3) by (auto simp: server_inv_def)
  show ?thesis using assms(1)
  proof (cases rule: server_step.cases)
    case (pop_wait i)
    then show ?thesis using stop by (auto simp: queue_pop_def split: if_splits)
  next
    case (pop_woken i)
    then show ?thesis using worker_work_update [of i "s_workers s" W_Popping] assms(3)
      by (auto simp: shutdown_work_def)
  next
    case (pop_stopped i)
    then show ?thesis using worker_work_update [of i "s_workers s" W_Exited] assms(3)
      by (auto simp: shutdown_work_def)
  next
    case (popped i j q)
    let ?v = "W_Running j (begin_execution settings (job_request j))"
    have "worker_work ?v \<le> 14" using begin_execution_work by simp
    with popped show ?thesis
      using worker_work_update [of i "s_workers s" ?v] assms(3) queue_pop_contents [OF popped(4) stop(2)]
      by (auto simp: shutdown_work_def)
  next
    case (advance i j pc pc' st')
    then show ?thesis
      using worker_work_update [of i "s_workers s" "W_Running j pc'"] exec_step_work [OF advance(5,4)] assms(3)
      by (auto simp: shutdown_work_def)
  next
    case (answered i j ok resp)
    then show ?thesis using worker_work_update [of i "s_workers s" W_Popping] assms(3)
      by (auto simp: shutdown_work_def answer_def)
  next
    case join
    then show ?thesis by (simp add: shutdown_work_def)
  qed (use assms(3) in auto)
qed

lemma shutdown_enabled:
  assumes "server_inv s" and "s_acceptor s = Joining"
  shows "\<exists>s'. server_step skf settings s s'"
proof (cases "set (s_workers s) \<subseteq> {W_Exited}")
  case True
  then show ?thesis using server_step.join [OF assms(2)] by blast
next
  case False
  then obtain i where i: "i < length (s_workers s)" "s_workers s ! i \<noteq> W_Exited"
    by (metis in_set_conv_nth singleton_iff subsetI)
  have stop: "q_stop (s_queue s)" using assms by (auto simp: server_inv_def)
  show ?thesis
  proof (cases "s_workers s ! i")
    case W_Popping
    have "queue_pop (s_queue s) \<noteq> Wait" using stop by (auto simp: queue_pop_def)
    then show ?thesis
      using server_step.pop_stopped [OF i(1) W_Popping] server_step.popped [OF i(1) W_Popping]
      by (cases "queue_pop (s_queue s)") (force, force, force)
  next
    case W_Asleep
    then show ?thesis using server_step.pop_woken [OF i(1)] by blast
  next
    case (W_Running j pc)
    show ?thesis
    proof (cases "is_finished pc")
      case True
      then show ?thesis using server_step.answered [OF i(1)] W_Running by (cases pc) auto
    next
      case False
      obtain pc' st' where "exec_step skf (job_request j) (pc, s_state s) = (pc', st')" by (metis surj_pair)
      then show ?thesis using server_step.advance [OF i(1) W_Running False] by blast
    qed
  qed (use i(2) in simp)
qed

text \<open>
  Property C15. The shutdown ends. From the moment the queue is stopped, at most 1849 more
  steps are possible with four workers, spurious wake-ups included: fourteen for a queued job
  (twelve of them critical sections and adapter calls), fourteen for a worker. The jobs still
  queued are executed, every worker exits, and \<^verbatim>\<open>server_run\<close> returns. As long as it has not returned,
  some thread can take a step, so no thread waits for ever.
\<close>

theorem shutdown_terminates:
  assumes "server_reachable skf settings n st0 s" and "s_acceptor s = Joining"
    and "(server_step skf settings ^^ k) s s'"
  shows "k \<le> 14 * MAX_QUEUE_DEPTH + 14 * DEFAULT_WORKERS + 1
    \<and> (s_acceptor s' = Returned_0 \<or> (\<exists>s''. server_step skf settings s' s''))"
proof -
  have inv: "server_inv s" using server_reachable_inv [OF assms(1)] .
  have len: "length (s_workers s) \<le> DEFAULT_WORKERS" using server_workers [OF assms(1)] by simp
  have "worker_work v \<le> 14" if "v \<in> set (s_workers s)" for v
    using short_executions.reachable_running [OF assms(1) _ TrueI] that by (cases v) auto
  then have "sum_list (map worker_work (s_workers s)) \<le> 14 * length (s_workers s)"
    using sum_list_mono [of "s_workers s" worker_work "\<lambda>_. 14"] by (simp add: sum_list_triv)
  then have bound: "shutdown_work s \<le> 14 * MAX_QUEUE_DEPTH + 14 * DEFAULT_WORKERS + 1"
    using inv len by (auto simp: shutdown_work_def server_inv_def wf_queue_def)
  have "k + shutdown_work s' \<le> shutdown_work s \<and> server_inv s' \<and> s_acceptor s' \<in> {Joining, Returned_0}"
    using assms(3)
  proof (induction k arbitrary: s')
    case 0
    then show ?case using inv assms(2) by simp
  next
    case (Suc k)
    then obtain u where u: "(server_step skf settings ^^ k) s u" "server_step skf settings u s'" by auto
    from Suc.IH [OF u(1)] shutdown_step [OF u(2)] server_inv_step [OF u(2)] show ?case by fastforce
  qed
  then show ?thesis using bound shutdown_enabled [of s' skf settings] by auto
qed

theorem shutdown_terminates_witness:
  "\<exists>s :: unit server_t. server_reachable classic_driver_ops None 1 (sample_registry, ()) s \<and> s_acceptor s = Joining
    \<and> (\<exists>s''. server_step classic_driver_ops None s s'')"
proof -
  let ?s0 = "server_start 1 (sample_registry, ()) :: unit server_t"
  let ?s1 = "?s0 \<lparr> s_acceptor := Stopping \<rparr>"
  let ?s2 = "?s1 \<lparr> s_acceptor := Joining, s_queue := queue_stop (s_queue ?s1),
      s_workers := map wake_worker (s_workers ?s1) \<rparr>"
  have "server_step classic_driver_ops None ?s0 ?s1" by (rule server_step.leave) (simp add: server_start_def)
  moreover have "server_step classic_driver_ops None ?s1 ?s2" by (rule server_step.stop) simp
  ultimately have r: "server_reachable classic_driver_ops None 1 (sample_registry, ()) ?s2"
    by (blast intro: server_reachable.intros)
  have z: "(server_step classic_driver_ops None ^^ 0) ?s2 ?s2" by simp
  from shutdown_terminates [OF r _ z] have "\<exists>s''. server_step classic_driver_ops None ?s2 s''" by simp
  with r show ?thesis by (intro exI [of _ ?s2]) simp
qed

end
