(* ===== verification/Server_Safety.thy ===== *)
theory Server_Safety
  imports Server_Threads
begin

text \<open>
  What the interleaved executions of the server cannot do: take a device without the PIN, lose
  a lease or give one out above the limit of the device. The leases rest on the pool of
  \<open>Registry\<close>, which the server is shown to be an instance of.
\<close>

subsection \<open>The PIN\<close>

definition refused_or_authorised :: "gateway_settings_t option \<Rightarrow> job_t \<Rightarrow> exec_pc \<Rightarrow> bool" where
  "refused_or_authorised settings j pc \<longleftrightarrow>
     (\<forall>st. settings = Some st \<and> gateway_pin st \<noteq> [] \<and> req_user_pin (job_request j) \<noteq> gateway_pin st \<longrightarrow>
        (\<exists>msg. pc = Finished False (build_error_response (job_request j) STATUS_UNAUTHORIZED msg)))"

lemma begin_refused:
  assumes "gateway_pin st \<noteq> []" and "req_user_pin req \<noteq> gateway_pin st"
  shows "\<exists>msg. begin_execution (Some st) req = Finished False (build_error_response req STATUS_UNAUTHORIZED msg)"
  using mismatched_pin_check [OF assms] by (auto simp: begin_execution_def Let_def)

interpretation pin_checked: execution_invariant skf settings "\<lambda>st. True" "refused_or_authorised settings"
  for skf :: "'w driver_ops_t" and settings
proof unfold_locales
  show "refused_or_authorised settings j (begin_execution settings (job_request j))" for j
    by (auto simp: refused_or_authorised_def intro: begin_refused)
next
  fix j pc pc' and st st' :: "'w gateway_state"
  assume "refused_or_authorised settings j pc" and "\<not> is_finished pc"
  then show "refused_or_authorised settings j pc'" by (force simp: refused_or_authorised_def)
qed

subsection \<open>Leases\<close>

fun worker_leases :: "worker_pc \<Rightarrow> nat multiset" where
  "worker_leases (W_Running j pc) = held_device pc"
| "worker_leases _ = {#}"

definition leases_held :: "worker_pc list \<Rightarrow> nat multiset" where
  "leases_held ws = sum_list (map worker_leases ws)"

text \<open>The device behind index \<open>i\<close> is in the hands of the worker.\<close>

definition holds :: "nat \<Rightarrow> worker_pc \<Rightarrow> bool" where
  "holds i v \<longleftrightarrow> i \<in># worker_leases v"

lemma worker_leases_count: "count (worker_leases v) i = (if holds i v then 1 else 0)"
proof (cases v)
  case (W_Running j pc)
  then show ?thesis by (cases pc) (auto simp: holds_def)
qed (simp_all add: holds_def)

lemma leases_held_count: "count (leases_held ws) i = length (filter (holds i) ws)"
  by (induction ws) (simp_all add: leases_held_def worker_leases_count)

lemma leases_held_update:
  "i < length ws \<Longrightarrow> leases_held (ws[i := v]) + worker_leases (ws ! i) = leases_held ws + worker_leases v"
  unfolding leases_held_def by (rule sum_list_map_update)

lemma leases_held_same:
  "i < length ws \<Longrightarrow> worker_leases v = worker_leases (ws ! i) \<Longrightarrow> leases_held (ws[i := v]) = leases_held ws"
  using leases_held_update [of i ws v] by simp

lemma leases_held_wake [simp]: "leases_held (map wake_worker ws) = leases_held ws"
proof -
  have "worker_leases (wake_worker v) = worker_leases v" for v by (cases v) auto
  then show ?thesis by (simp add: leases_held_def comp_def)
qed

text \<open>The executions of the server acquire and release as the pool of \<open>Registry\<close> does.\<close>

lemma server_is_lease_pool:
  assumes "server_reachable skf settings n (reg0, w0) s"
  shows "pool.leases reg0 (fst (s_state s)) (leases_held (s_workers s))"
  using assms
proof (induction rule: server_reachable.induct)
  case start
  have "leases_held (replicate k W_Popping) = {#}" for k by (induction k) (simp_all add: leases_held_def)
  then show ?case by (simp add: server_start_def pool.leases.none)
next
  case (step s s')
  from step.hyps(2) show ?case
  proof (cases rule: server_step.cases)
    case (advance i j pc pc' st')
    obtain reg w reg' w' where st: "s_state s = (reg, w)" "st' = (reg', w')" by (metis surj_pair)
    have u: "leases_held ((s_workers s)[i := W_Running j pc']) + held_device pc
        = leases_held (s_workers s) + held_device pc'"
      using leases_held_update [OF advance(2), of "W_Running j pc'"] advance(3) by simp
    from advance(5) [unfolded st] show ?thesis
    proof (cases rule: exec_step_cases)
      case keeps
      with u step.IH st advance(1) show ?thesis by simp
    next
      case (acquires q d)
      have "leases_held ((s_workers s)[i := W_Running j pc']) = add_mset d (leases_held (s_workers s))"
        using u acquires by simp
      with pool.leases.get [OF _ acquires(1)] step.IH st advance(1) show ?thesis by simp
    next
      case (releases d)
      then have "leases_held (s_workers s) = add_mset d (leases_held ((s_workers s)[i := W_Running j pc']))"
        using u by simp
      with pool.leases.put [of reg0 reg "leases_held (s_workers s)" d] step.IH st advance(1) releases(1)
      show ?thesis by simp
    qed
  qed (use step.IH in \<open>auto simp: answer_def leases_held_same begin_execution_holds_nothing\<close>)
qed

text \<open>Only the counters of the devices ever change.\<close>

definition idle_device :: "device_resource_t \<Rightarrow> device_resource_t" where
  "idle_device d = d \<lparr> inflight := 0 \<rparr>"

lemma idle_bump: "map idle_device (bump reg i) = map idle_device reg"
  by (cases "i < length reg") (simp_all add: bump_def map_update_same idle_device_def list_update_beyond)

lemma idle_release: "map idle_device (registry_release reg did) = map idle_device reg"
  by (induction reg) (simp_all add: idle_device_def)

lemma leases_idle: "pool.leases reg0 reg held \<Longrightarrow> map idle_device reg = map idle_device reg0"
proof (induction rule: pool.leases.induct)
  case (get r held q r' i)
  then show ?case using acquire_Some [OF get(2)] idle_bump by simp
qed (simp_all add: release_index_def idle_release)

lemma server_registry:
  assumes "wf_registry reg0" and "\<forall>d \<in> set reg0. inflight d = 0"
    and "server_reachable skf settings n (reg0, w0) s"
  shows "wf_registry (fst (s_state s)) \<and> map idle_device (fst (s_state s)) = map idle_device reg0"
proof -
  have z: "load_of reg0 i = 0" for i using assms(2) by (simp add: load_of_def)
  note l = server_is_lease_pool [OF assms(3)]
  show ?thesis using pool.leases_load [OF l assms(1) z] leases_idle [OF l] by blast
qed

lemma idle_eqI:
  assumes "map idle_device reg = map idle_device reg0" and "\<forall>d \<in> set reg. inflight d = 0"
    and "\<forall>d \<in> set reg0. inflight d = 0"
  shows "reg = reg0"
proof -
  have "map idle_device r = r" if "\<forall>d \<in> set r. inflight d = 0" for r
    using that by (induction r) (simp_all add: idle_device_def)
  with assms show ?thesis by metis
qed

text \<open>The workers that hold a device are within its limit.\<close>

lemma holders_within_limit:
  assumes "wf_registry reg0" and "\<forall>d \<in> set reg0. inflight d = 0"
    and "server_reachable skf settings n (reg0, w0) s" and "v \<in> set (s_workers s)" and "holds i v"
  shows "i < length reg0 \<and> int (length (filter (holds i) (s_workers s))) \<le> max_inflight (reg0 ! i)"
proof -
  have z: "load_of reg0 k = 0" for k using assms(2) by (simp add: load_of_def)
  have h: "i \<in># leases_held (s_workers s)"
    using assms(4,5) leases_held_count [of "s_workers s" i]
    by (auto simp: count_greater_zero_iff [symmetric] filter_empty_conv)
  have "load_of (fst (s_state s)) i = int (length (filter (holds i) (s_workers s)))"
    "load_of (fst (s_state s)) i \<le> limit_of reg0 i"
    using pool.leases_load [OF server_is_lease_pool [OF assms(3)] assms(1) z] h by (auto simp: leases_held_count)
  moreover have "0 < length (filter (holds i) (s_workers s))" using assms(4,5) by (auto simp: filter_empty_conv)
  ultimately show ?thesis by (auto simp: limit_of_def split: if_splits)
qed

text \<open>A device for one is in one pair of hands.\<close>

lemma single_user:
  assumes "wf_registry reg0" and "\<forall>d \<in> set reg0. inflight d = 0"
    and "server_reachable skf settings n (reg0, w0) s"
    and "max_inflight (reg0 ! i) = 1" and "k < length (s_workers s)" and "holds i (s_workers s ! k)"
    and "l < length (s_workers s)" and "holds i (s_workers s ! l)"
  shows "l = k"
proof (rule ccontr)
  let ?ws = "s_workers s"
  assume "l \<noteq> k"
  then have "card {k, l} = 2" by simp
  moreover have "card {k, l} \<le> card {m. m < length ?ws \<and> holds i (?ws ! m)}"
    using assms(5-8) by (intro card_mono) auto
  ultimately have "2 \<le> length (filter (holds i) ?ws)" by (simp add: length_filter_conv_card)
  with holders_within_limit [OF assms(1-3) nth_mem [OF assms(5)] assms(6)] assms(4) show False by simp
qed

text \<open>The outside changes in the calls of the adapters only.\<close>

lemma exec_step_outside:
  assumes "\<And>a c i. pc \<noteq> To_Call a c i"
  shows "snd (snd (exec_step skf req (pc, st))) = snd st"
  using assms by (cases st; cases pc) (auto split: prod.split)

lemma server_step_outside:
  assumes "server_step skf settings s s'"
  shows "snd (s_state s') = snd (s_state s) \<or> (\<exists>l j a c i. l < length (s_workers s)
     \<and> s_workers s ! l = W_Running j (To_Call a c i)
     \<and> s_workers s' = (s_workers s)[l := W_Running j (fst (exec_step skf (job_request j) (To_Call a c i, s_state s)))]
     \<and> s_state s' = snd (exec_step skf (job_request j) (To_Call a c i, s_state s)))"
  using assms
proof (cases rule: server_step.cases)
  case (advance l j pc pc' st')
  show ?thesis
  proof (cases pc)
    case (To_Call a c i)
    then show ?thesis using advance by (intro disjI2 exI [of _ l] exI [of _ j] exI [of _ a] exI [of _ c] exI [of _ i]) simp
  qed (use advance exec_step_outside [of pc skf "job_request j" "s_state s"] in simp_all)
qed (simp_all add: answer_def)

subsection \<open>A server with one job\<close>

lemma one_job_runs:
  assumes "accept_line evs = Inr req"
  shows "\<exists>q. server_reachable skf settings 1 st0 \<lparr>s_queue = q, s_acceptor = Accepting,
     s_workers = [W_Running \<lparr>job_client_fd = fd, job_request = req\<rparr> (begin_execution settings req)],
     s_state = st0, s_accepted = [fd], s_answered = []\<rparr>"
proof -
  let ?j = "\<lparr>job_client_fd = fd, job_request = req\<rparr>"
  let ?q1 = "queue_init \<lparr> q_items := (q_items queue_init)[0 := ?j], q_tail := 1 mod MAX_QUEUE_DEPTH, q_count := 1 \<rparr>"
  let ?q2 = "?q1 \<lparr> q_head := 1 mod MAX_QUEUE_DEPTH, q_count := 0 \<rparr>"
  let ?st = "\<lambda>q a ws acc. \<lparr>s_queue = q, s_acceptor = a, s_workers = ws, s_state = st0, s_accepted = acc, s_answered = []\<rparr>"
  let ?step = "server_step skf settings" and ?reach = "server_reachable skf settings 1 st0"
  have push: "queue_push queue_init ?j = Returned ?q1" by (simp add: queue_push_def queue_init_def size_defs)
  have pop: "queue_pop ?q1 = Returned (?j, ?q2)" by (simp add: queue_pop_def queue_init_def size_defs)
  have 0: "?reach (?st queue_init Accepting [W_Popping] [])"
    using server_reachable.start [of skf settings 1 st0] by (simp add: server_start_def DEFAULT_WORKERS_def)
  have 1: "?step (?st queue_init Accepting [W_Popping] []) (?st queue_init (Reading fd evs) [W_Popping] [fd])"
    using server_step.accept [of "?st queue_init Accepting [W_Popping] []" _ _ fd evs] by simp
  have 2: "?step (?st queue_init (Reading fd evs) [W_Popping] [fd]) (?st queue_init (Handing ?j) [W_Popping] [fd])"
    using server_step.parsed [of "?st queue_init (Reading fd evs) [W_Popping] [fd]" fd evs req] assms by simp
  have 3: "?step (?st queue_init (Handing ?j) [W_Popping] [fd]) (?st ?q1 Accepting [W_Popping] [fd])"
    using server_step.pushed [of "?st queue_init (Handing ?j) [W_Popping] [fd]" ?j ?q1] push by simp
  have 4: "?step (?st ?q1 Accepting [W_Popping] [fd])
      (?st ?q2 Accepting [W_Running ?j (begin_execution settings req)] [fd])"
    using server_step.popped [of 0 "?st ?q1 Accepting [W_Popping] [fd]" ?j ?q2] pop by simp
  have "?reach (?st ?q2 Accepting [W_Running ?j (begin_execution settings req)] [fd])"
    by (rule server_reachable.step [OF server_reachable.step [OF server_reachable.step [OF
        server_reachable.step [OF 0 1] 2] 3] 4])
  then show ?thesis by blast
qed

text \<open>That job after any number of its steps.\<close>

lemma one_job_advances:
  assumes "accept_line evs = Inr req"
    and "(exec_step skf req ^^ n) (begin_execution settings req, st0) = (pc, st)"
  shows "\<exists>q. server_reachable skf settings 1 st0 \<lparr>s_queue = q, s_acceptor = Accepting,
     s_workers = [W_Running \<lparr>job_client_fd = fd, job_request = req\<rparr> pc],
     s_state = st, s_accepted = [fd], s_answered = []\<rparr>"
  using assms(2)
proof (induction n arbitrary: pc st)
  case 0
  with one_job_runs [OF assms(1), of skf settings st0 fd] show ?case by simp
next
  case (Suc n)
  let ?s = "\<lambda>q pc st. \<lparr>s_queue = q, s_acceptor = Accepting,
     s_workers = [W_Running \<lparr>job_client_fd = fd, job_request = req\<rparr> pc], s_state = st, s_accepted = [fd], s_answered = []\<rparr>"
  obtain pc1 st1 where 1: "(exec_step skf req ^^ n) (begin_execution settings req, st0) = (pc1, st1)"
    by (metis surj_pair)
  with Suc.prems have e: "exec_step skf req (pc1, st1) = (pc, st)" by simp
  from Suc.IH [OF 1] obtain q where q: "server_reachable skf settings 1 st0 (?s q pc1 st1)" by blast
  show ?case
  proof (cases "is_finished pc1")
    case True
    with e q show ?thesis by (cases pc1) auto
  next
    case False
    have "server_step skf settings (?s q pc1 st1) (?s q pc st)"
      using server_step.advance [of 0 "?s q pc1 st1" _ pc1 skf pc st] False e by simp
    from server_reachable.step [OF q this] show ?thesis by blast
  qed
qed

lemma one_job_finishes:
  assumes "accept_line evs = Inr req" and "scheduler_execute skf settings req st0 = (ok, resp, st)"
  shows "\<exists>q. server_reachable skf settings 1 st0 \<lparr>s_queue = q, s_acceptor = Accepting,
     s_workers = [W_Running \<lparr>job_client_fd = fd, job_request = req\<rparr> (Finished ok resp)],
     s_state = st, s_accepted = [fd], s_answered = []\<rparr>"
  using execution_completes [OF assms(2)] one_job_advances [OF assms(1)] by blast

definition sample_line :: cstring where
  "sample_line = json_object [(''request_id'', ''7''), (''domain'', ''hash''), (''action'', ''hash''),
     (''algorithm'', ''sm3''), (''device_hint'', ''d1'')]"

lemma sample_line_accepted:
  "\<exists>req. accept_line (map Byte sample_line @ [Byte CHR 0x0A]) = Inr req \<and> req_domain req = DOMAIN_HASH
     \<and> req_action req = ACTION_HASH \<and> req_algorithm req = ''sm3'' \<and> req_key_ref req = [] \<and> req_sequence req = []
     \<and> req_device_hint req = ''d1'' \<and> req_user_pin req = []"
proof -
  have "case parse_request_json sample_line 256 of Inl e \<Rightarrow> False
    | Inr req \<Rightarrow> req_domain req = DOMAIN_HASH \<and> req_action req = ACTION_HASH \<and> req_algorithm req = ''sm3''
        \<and> req_key_ref req = [] \<and> req_sequence req = [] \<and> req_device_hint req = ''d1'' \<and> req_user_pin req = []"
    by code_simp
  moreover have "CHR 0x0A \<notin> set sample_line" "take 2047 sample_line = sample_line"
    "c_string sample_line = sample_line" "sample_line \<noteq> []"
    by (simp_all add: sample_line_def json_object_def json_member_def quoted_def c_string_def)
  ultimately show ?thesis
    by (cases "parse_request_json sample_line 256") (simp_all add: accept_line_def read_line_bytes)
qed

subsection \<open>Properties\<close>

text \<open>
  Property C4. The counters of the running server, for a table that does not name a device
  twice (which the code does not check; with a repeated name the counters can leak,
  \<open>duplicate_name_leak\<close>) and in which nothing is in flight. In every state it can reach, however the
  executions of the workers interleave, the registry is the loaded one up to the counters; the
  counter of every device is the number of workers that hold it, and never above its limit
  while one does; and when no worker holds a device, or \<^verbatim>\<open>server_run\<close> has returned, the
  registry is the loaded one.
\<close>

theorem server_counts_busy_workers:
  assumes "wf_registry reg0" and "\<forall>d \<in> set reg0. inflight d = 0"
    and "server_reachable skf settings n (reg0, w0) s" and "fst (s_state s) = reg"
  shows "map idle_device reg = map idle_device reg0
    \<and> (\<forall>i < length reg. inflight (reg ! i) = int (length (filter (holds i) (s_workers s))))
    \<and> (\<forall>i < length reg. (\<exists>v \<in> set (s_workers s). holds i v) \<longrightarrow> inflight (reg ! i) \<le> max_inflight (reg ! i))
    \<and> (leases_held (s_workers s) = {#} \<or> s_acceptor s = Returned_0 \<longrightarrow> reg = reg0)"
proof -
  have l: "pool.leases reg0 reg (leases_held (s_workers s))"
    using server_is_lease_pool [OF assms(3)] assms(4) by simp
  have z: "load_of reg0 i = 0" for i using assms(2) by (simp add: load_of_def)
  have load: "limit_of reg = limit_of reg0" "load_of reg i = int (length (filter (holds i) (s_workers s)))" for i
    using pool.leases_load [OF l assms(1) z] by (auto simp: leases_held_count)
  have idle: "map idle_device reg = map idle_device reg0" using leases_idle [OF l] .
  have busy: "inflight (reg ! i) = int (length (filter (holds i) (s_workers s)))" if "i < length reg" for i
    using load(2) [of i] that by (simp add: load_of_def)
  have none: "reg = reg0" if "leases_held (s_workers s) = {#}"
  proof (rule idle_eqI [OF idle])
    have "inflight (reg ! i) = 0" if "i < length reg" for i
      using busy [OF that] \<open>leases_held (s_workers s) = {#}\<close> leases_held_count [of "s_workers s" i] by simp
    then show "\<forall>d \<in> set reg. inflight d = 0" by (auto simp: in_set_conv_nth)
  qed (fact assms(2))
  have returned: "leases_held (s_workers s) = {#}" if "s_acceptor s = Returned_0"
  proof -
    have "set ws \<subseteq> {W_Exited} \<Longrightarrow> leases_held ws = {#}" for ws
      by (induction ws) (auto simp: leases_held_def)
    then show ?thesis using server_reachable_inv [OF assms(3)] that by (simp add: server_inv_def)
  qed
  have "inflight (reg ! i) \<le> max_inflight (reg ! i)"
    if "i < length reg" "v \<in> set (s_workers s)" "holds i v" for i v
    using holders_within_limit [OF assms(1-3) that(2,3)] busy [OF that(1)] that(1) fun_cong [OF load(1), of i]
    by (simp add: limit_of_def)
  then show ?thesis using idle none returned busy by blast
qed

theorem server_counts_busy_workers_witness:
  "\<exists>s :: unit server_t. server_reachable classic_driver_ops None 1 (sample_registry, ()) s
     \<and> length (filter (holds 0) (s_workers s)) = 1 \<and> inflight (fst (s_state s) ! 0) = 1"
proof -
  obtain req where req: "accept_line (map Byte sample_line @ [Byte CHR 0x0A]) = Inr req"
    "req_domain req = DOMAIN_HASH" "req_action req = ACTION_HASH" "req_algorithm req = ''sm3''"
    "req_key_ref req = []" "req_sequence req = []" "req_device_hint req = ''d1''"
    using sample_line_accepted by blast
  let ?j = "\<lparr>job_client_fd = 7, job_request = req\<rparr>"
  let ?a = "\<lparr>ca_domain = DOMAIN_HASH, ca_action = ACTION_HASH, ca_algorithm = ''sm3'', ca_payload = req_payload req,
      ca_type = DEV_UNKNOWN, ca_resp = zero_response \<lparr> resp_request_id := snprintf_s MAX_ID_LEN (req_request_id req) \<rparr>\<rparr>"
  let ?reg = "bump sample_registry 0"
  obtain q where r: "server_reachable (classic_driver_ops :: unit driver_ops_t) None 1 (sample_registry, ())
      \<lparr>s_queue = q, s_acceptor = Accepting, s_workers = [W_Running ?j (begin_execution None req)],
       s_state = (sample_registry, ()), s_accepted = [7], s_answered = []\<rparr>" (is "server_reachable _ _ _ _ ?s")
    using one_job_runs [OF req(1)] by blast
  have b: "begin_execution None req = To_Acquire ?a After_single"
    using req by (simp add: begin_execution_def validate_gateway_pin_def)
  have h: "resolve_device_hint_from_key_ref req [] MAX_FIELD_LEN 256 = Inr ''d1''"
    using req by (simp add: resolve_device_hint_from_key_ref_def key_ref_is_internal_index_def
        key_ref_get_token_def MAX_FIELD_LEN_def snprintf_s_def)
  have e: "exec_step classic_driver_ops req (To_Acquire ?a After_single, (sample_registry, ()))
      = (To_Call ?a After_single 0, (?reg, ()))"
    using h sample_acquire_step [of "''d1''" req DEV_UNKNOWN "[]"] req by (simp add: acquire_step_def)
  let ?s' = "?s \<lparr> s_workers := (s_workers ?s)[0 := W_Running ?j (To_Call ?a After_single 0)], s_state := (?reg, ()) \<rparr>"
  have "server_step classic_driver_ops None ?s ?s'"
    by (rule server_step.advance [where pc = "To_Acquire ?a After_single"]) (use b e in simp_all)
  with r have r': "server_reachable classic_driver_ops None 1 (sample_registry, ()) ?s'"
    by (rule server_reachable.step)
  have z: "\<forall>d \<in> set sample_registry. inflight d = 0" by (simp add: sample_registry_def sample_device_def)
  have "length (filter (holds 0) (s_workers ?s')) = 1" by (simp add: holds_def)
  moreover have "0 < length ?reg" by (simp add: bump_def sample_registry_def)
  ultimately have "inflight (?reg ! 0) = 1"
    using server_counts_busy_workers [OF sample_registry_wf z r', of ?reg] by simp
  with r' show ?thesis by (intro exI [of _ ?s']) (simp add: holds_def)
qed

text \<open>
  Property C5. No device without the PIN, whatever the other workers do. With a configured
  PIN, a worker whose request does not carry it has a finished execution with status 401 from
  the start; and a step of the server that changes the registry or the outside state is a step
  of a worker whose request carries the PIN.
\<close>

theorem devices_only_with_pin:
  assumes "server_reachable skf (Some st) n st0 s" and "gateway_pin st \<noteq> []"
  shows "(\<forall>j pc. W_Running j pc \<in> set (s_workers s) \<and> req_user_pin (job_request j) \<noteq> gateway_pin st \<longrightarrow>
        (\<exists>msg. pc = Finished False (build_error_response (job_request j) STATUS_UNAUTHORIZED msg)))
    \<and> (\<forall>s'. server_step skf (Some st) s s' \<longrightarrow> s_state s' = s_state s
        \<or> (\<exists>j pc. W_Running j pc \<in> set (s_workers s) \<and> req_user_pin (job_request j) = gateway_pin st
             \<and> s_state s' = snd (exec_step skf (job_request j) (pc, s_state s))))"
proof -
  have refused: "\<exists>msg. pc = Finished False (build_error_response (job_request j) STATUS_UNAUTHORIZED msg)"
    if "W_Running j pc \<in> set (s_workers s)" "req_user_pin (job_request j) \<noteq> gateway_pin st" for j pc
    using pin_checked.reachable_running [OF assms(1) that(1) TrueI] that(2) assms(2)
    by (auto simp: refused_or_authorised_def)
  have "s_state s' = s_state s \<or> (\<exists>j pc. W_Running j pc \<in> set (s_workers s)
      \<and> req_user_pin (job_request j) = gateway_pin st
      \<and> s_state s' = snd (exec_step skf (job_request j) (pc, s_state s)))"
    if "server_step skf (Some st) s s'" for s'
    using that
  proof (cases rule: server_step.cases)
    case (advance i j pc pc' st')
    then have "W_Running j pc \<in> set (s_workers s)" using nth_mem by fastforce
    moreover from refused [OF this] advance(4) have "req_user_pin (job_request j) = gateway_pin st" by fastforce
    moreover have "s_state s' = snd (exec_step skf (job_request j) (pc, s_state s))" using advance(1,5) by simp
    ultimately show ?thesis by blast
  qed (simp_all add: answer_def)
  with refused show ?thesis by blast
qed

theorem devices_only_with_pin_witness:
  "\<exists>(s :: unit server_t) j pc msg. server_reachable classic_driver_ops (Some sample_settings) 1 (sample_registry, ()) s
     \<and> W_Running j pc \<in> set (s_workers s)
     \<and> pc = Finished False (build_error_response (job_request j) STATUS_UNAUTHORIZED msg)"
proof -
  obtain req where req: "accept_line (map Byte sample_line @ [Byte CHR 0x0A]) = Inr req" "req_user_pin req = []"
    using sample_line_accepted by blast
  obtain s :: "unit server_t" where s: "server_reachable classic_driver_ops (Some sample_settings) 1 (sample_registry, ()) s"
      "W_Running \<lparr>job_client_fd = 7, job_request = req\<rparr> (begin_execution (Some sample_settings) req) \<in> set (s_workers s)"
    using one_job_runs [OF req(1), of classic_driver_ops "Some sample_settings" "(sample_registry, ())" 7] by fastforce
  have pin: "gateway_pin sample_settings \<noteq> []" by (simp add: sample_settings_def)
  with devices_only_with_pin [OF s(1) pin] s req(2) show ?thesis by fastforce
qed

end
