(* ===== verification/Server_Serial.thy ===== *)
theory Server_Serial
  imports Server_Safety
begin

text \<open>
  Other workers disturb an execution only through the counters of the devices. A request that
  names its device, and whose device is served by a built-in adapter, gets from the running
  server what \<^verbatim>\<open>scheduler_execute\<close> computes alone on the loaded registry, or is refused since
  its device is busy.
\<close>

subsection \<open>What the counters cannot change\<close>

lemma idle_fields:
  assumes "idle_device d = idle_device d'"
  shows "device_id d = device_id d'" "device_type d = device_type d'" "backend_profile d = backend_profile d'"
    "enabled d = enabled d'" "max_inflight d = max_inflight d'" "caps d = caps d'"
  using assms by (cases d; cases d'; simp add: idle_device_def)+

lemma idle_nth:
  assumes "map idle_device reg = map idle_device reg0"
  shows "length reg = length reg0" and "i < length reg \<Longrightarrow> idle_device (reg ! i) = idle_device (reg0 ! i)"
  using assms by (metis length_map, metis length_map nth_map)

lemma translate_idle:
  assumes "idle_device d = idle_device d'"
  shows "translate_backend_call dm act alg payload aux key_ref d esz
    = translate_backend_call dm act alg payload aux key_ref d' esz"
proof -
  have "rule_matches d dm act alg = rule_matches d' dm act alg"
    using idle_fields [OF assms] by (simp add: fun_eq_iff rule_matches_iff)
  moreover have "no_rule_text d = no_rule_text d'"
    using idle_fields [OF assms] by (simp add: fun_eq_iff no_rule_text_def)
  ultimately show ?thesis using idle_fields [OF assms]
    by (simp add: translate_backend_call_def Let_def find_rule_def split: option.split)
qed

lemma fill_common_idle:
  assumes "idle_device d = idle_device d'"
  shows "fill_common d = fill_common d'"
  using idle_fields [OF assms] by (simp add: fun_eq_iff fill_common_def)

lemma classic_idle:
  assumes "idle_device d = idle_device d'" and "driver_dispatch classic_driver_ops dm d call resp esz w = (r, resp', w1)"
  shows "driver_dispatch classic_driver_ops dm d' call resp esz w' = (r, resp', w')"
proof -
  note eq = idle_fields(1) [OF assms(1)] fill_common_idle [OF assms(1)]
  have "driver_dispatch classic_driver_ops dm d' call resp esz w' =
      (let (r, resp', w1) = driver_dispatch classic_driver_ops dm d call resp esz w in (r, resp', w'))"
    by (cases dm; simp add: driver_dispatch_def classic_driver_ops_def; cases "call_action (tc_call call)";
        simp add: handler_defs adapter_ok_def eq)
  with assms(2) show ?thesis by simp
qed

lemma pqc_idle:
  assumes "idle_device d = idle_device d'" and "driver_dispatch pqc_driver_ops dm d call resp esz w = (r, resp', w1)"
  shows "driver_dispatch pqc_driver_ops dm d' call resp esz w' = (r, resp', w')"
proof -
  note eq = idle_fields(1) [OF assms(1)] fill_common_idle [OF assms(1)]
  have "driver_dispatch pqc_driver_ops dm d' call resp esz w' =
      (let (r, resp', w1) = driver_dispatch pqc_driver_ops dm d call resp esz w in (r, resp', w'))"
    by (cases dm; simp add: driver_dispatch_def pqc_driver_ops_def; cases "call_action (tc_call call)";
        simp add: handler_defs adapter_ok_def eq)
  with assms(2) show ?thesis by simp
qed

lemma builtin_idle:
  assumes "idle_device d = idle_device d'" and "strcmp (backend_profile d) ''gm3000-skf'' \<noteq> 0"
    and "driver_dispatch (ops_for skf d) dm d call resp esz w = (r, resp', w1)"
  shows "driver_dispatch (ops_for skf d') dm d' call resp esz w' = (r, resp', w') \<and> w1 = w"
proof (cases "device_type d = DEV_CLASSIC")
  case True
  then have o: "ops_for skf d = classic_driver_ops" "ops_for skf d' = classic_driver_ops"
    using assms(2) idle_fields [OF assms(1)] by (simp_all add: ops_for_def)
  from classic_idle [OF assms(1) assms(3) [unfolded o]] classic_idle [OF refl assms(3) [unfolded o], of w] assms(3)
  show ?thesis unfolding o by simp
next
  case False
  then have o: "ops_for skf d = pqc_driver_ops" "ops_for skf d' = pqc_driver_ops"
    using assms(2) idle_fields [OF assms(1)] by (simp_all add: ops_for_def)
  from pqc_idle [OF assms(1) assms(3) [unfolded o]] pqc_idle [OF refl assms(3) [unfolded o], of w] assms(3)
  show ?thesis unfolding o by simp
qed

lemma call_step_idle:
  assumes "idle_device d = idle_device d'" and "strcmp (backend_profile d) ''gm3000-skf'' \<noteq> 0"
    and "call_step skf req a k i d w = (pc, w1)"
  shows "call_step skf req a k i d' w' = (pc, w')"
proof (cases "translate_backend_call (ca_domain a) (ca_action a) (ca_algorithm a) (Some (ca_payload a))
    (Some (req_aux_payload req)) (Some (req_key_ref req)) d 256")
  case (Inl e)
  with assms(3) translate_idle [OF assms(1)] show ?thesis by (simp add: call_step_def)
next
  case (Inr t)
  obtain r resp w2 where r: "driver_dispatch (ops_for skf d) (ca_domain a) d t (ca_resp a) 256 w = (r, resp, w2)"
    by (metis surj_pair)
  from builtin_idle [OF assms(1,2) r, of w'] Inr r assms(3) translate_idle [OF assms(1)]
  show ?thesis by (simp add: call_step_def)
qed

text \<open>A lone execution is given the device that the disturbed one is given.\<close>

lemma acquire_idle:
  assumes "map idle_device reg = map idle_device reg0" and "wf_registry reg" and "wf_registry reg0"
    and "\<forall>d \<in> set reg0. inflight d = 0"
    and "registry_acquire_candidate reg q = Some (reg', i)" and "aq_device_hint q \<noteq> []"
  shows "registry_acquire_candidate reg0 q = Some (bump reg0 i, i)" "i < length reg0"
    "device_id (reg0 ! i) = aq_device_hint q"
proof -
  have i: "i < length reg" "hint_usable q (reg ! i)"
    using assms(5,6) by (auto simp: registry_acquire_candidate_def first_index_Some split: option.splits)
  show len: "i < length reg0" using i idle_nth(1) [OF assms(1)] by simp
  note f = idle_fields [OF idle_nth(2) [OF assms(1) i(1)]]
  have "0 \<le> inflight (reg ! i)" using assms(2) i(1) by (auto simp: wf_registry_def)
  then have u: "hint_usable q (reg0 ! i)"
    using i(2) f assms(4) len by (auto simp: hint_usable_def device_supports_def)
  then show did: "device_id (reg0 ! i) = aq_device_hint q" by (simp add: hint_usable_def)
  have "\<not> hint_usable q (reg0 ! j)" if "j < i" for j
  proof
    assume "hint_usable q (reg0 ! j)"
    then have "map device_id reg0 ! j = map device_id reg0 ! i" using did that len by (simp add: hint_usable_def)
    moreover have "distinct (map device_id reg0)" using assms(3) by (simp add: wf_registry_def)
    ultimately show False using that len nth_eq_iff_index_eq [of "map device_id reg0" j i] by simp
  qed
  then have "first_index (hint_usable q) 0 reg0 = Some i" using u len by (simp add: first_index_Some)
  then show "registry_acquire_candidate reg0 q = Some (bump reg0 i, i)"
    using assms(6) by (simp add: registry_acquire_candidate_def)
qed

lemma release_bump:
  assumes "wf_registry reg" and "i < length reg"
  shows "registry_release (bump reg i) (device_id (bump reg i ! i)) = reg"
proof -
  have w: "wf_registry (bump reg i)"
    using wf_registry_update [OF assms, of "inflight (reg ! i) + 1"] assms by (simp add: bump_def wf_registry_def)
  have "0 \<le> inflight (reg ! i)" using assms by (auto simp: wf_registry_def)
  then show ?thesis
    using registry_release_nth [of "bump reg i" i] w assms(2) by (simp add: bump_def wf_registry_def)
qed

subsection \<open>The lone run beside the disturbed one\<close>

text \<open>The registry of the lone run: only its own lease is in it.\<close>

fun own_leases :: "resource_registry_t \<Rightarrow> exec_pc \<Rightarrow> resource_registry_t" where
  "own_leases reg0 (To_Call a k i) = bump reg0 i"
| "own_leases reg0 (To_Release k i res resp) = bump reg0 i"
| "own_leases reg0 _ = reg0"

text \<open>The end of a request whose device is not available.\<close>

definition refused_busy :: "request_t \<Rightarrow> exec_pc \<Rightarrow> bool" where
  "refused_busy req pc \<longleftrightarrow> (\<exists>st dm act alg. pc = Finished False
     (build_error_response req st (snprintf_s 256 (no_device_text dm act alg))))"

text \<open>The request names the device \<open>h\<close>.\<close>

definition names_device :: "request_t \<Rightarrow> cstring \<Rightarrow> bool" where
  "names_device req h \<longleftrightarrow> h \<noteq> [] \<and>
     resolve_device_hint_from_key_ref req (req_key_ref req) MAX_FIELD_LEN 256 = Inr h"

definition on_lone_run ::
  "'w driver_ops_t \<Rightarrow> gateway_settings_t option \<Rightarrow> resource_registry_t \<Rightarrow> 'w \<Rightarrow> request_t \<Rightarrow> exec_pc \<Rightarrow> bool" where
  "on_lone_run skf settings reg0 w0 req pc \<longleftrightarrow>
     (\<exists>k. (exec_step skf req ^^ k) (begin_execution settings req, (reg0, w0)) = (pc, (own_leases reg0 pc, w0)))
     \<and> (\<forall>i \<in># held_device pc. i < length reg0 \<and> names_device req (device_id (reg0 ! i)))"

lemma own_leases_none: "held_device pc = {#} \<Longrightarrow> own_leases reg0 pc = reg0"
  by (cases pc) auto

lemma own_leases_after_call: "own_leases reg0 (after_call req k res resp) = reg0"
  by (simp add: own_leases_none after_call_holds_nothing)

lemma after_call_busy:
  "refused_busy req (after_call req k (Inl (snprintf_s 256 (no_device_text dm act alg))) resp)"
  by (cases k) (auto simp: refused_busy_def)

lemma on_lone_run_step:
  assumes "on_lone_run skf settings reg0 w0 req pc"
    and "exec_step skf req (pc, (own_leases reg0 pc, w0)) = (pc', (own_leases reg0 pc', w0))"
    and "\<forall>i \<in># held_device pc'. i < length reg0 \<and> names_device req (device_id (reg0 ! i))"
  shows "on_lone_run skf settings reg0 w0 req pc'"
proof -
  obtain k where "(exec_step skf req ^^ k) (begin_execution settings req, (reg0, w0)) = (pc, (own_leases reg0 pc, w0))"
    using assms(1) by (auto simp: on_lone_run_def)
  then have "(exec_step skf req ^^ Suc k) (begin_execution settings req, (reg0, w0)) = (pc', (own_leases reg0 pc', w0))"
    using assms(2) by simp
  with assms(3) show ?thesis unfolding on_lone_run_def by blast
qed

lemma disturbed_step:
  assumes reg: "map idle_device reg = map idle_device reg0" "wf_registry reg" "wf_registry reg0"
      "\<forall>d \<in> set reg0. inflight d = 0"
    and h: "names_device req h" "\<forall>d \<in> set reg0. device_id d = h \<longrightarrow> strcmp (backend_profile d) ''gm3000-skf'' \<noteq> 0"
    and lone: "on_lone_run skf settings reg0 w0 req pc"
    and step: "exec_step skf req (pc, (reg, w)) = (pc', (reg', w'))"
  shows "on_lone_run skf settings reg0 w0 req pc' \<or> refused_busy req pc'"
proof (cases pc)
  case (To_Acquire a k)
  let ?q = "step_query req (ca_domain a) (ca_action a) (ca_algorithm a) (req_key_ref req) (ca_type a) h"
  have q: "aq_device_hint ?q = h" "h \<noteq> []" using h(1) by (simp_all add: step_query_def names_device_def)
  have r: "resolve_device_hint_from_key_ref req (req_key_ref req) MAX_FIELD_LEN 256 = Inr h"
    using h(1) by (simp add: names_device_def)
  show ?thesis
  proof (cases "registry_acquire_candidate reg ?q")
    case None
    with step To_Acquire r after_call_busy show ?thesis by (auto simp: acquire_step_def)
  next
    case (Some ri)
    obtain reg1 i where ri: "ri = (reg1, i)" by fastforce
    note acq = acquire_idle [OF reg Some [unfolded ri]]
    have pc': "pc' = To_Call a k i" using step To_Acquire r Some ri by (simp add: acquire_step_def)
    have "on_lone_run skf settings reg0 w0 req pc'"
      by (rule on_lone_run_step [OF lone]) (use acq q r h(1) To_Acquire pc' in \<open>auto simp: acquire_step_def\<close>)
    then show ?thesis ..
  qed
next
  case (To_Call a k i)
  have i: "i < length reg0" "device_id (reg0 ! i) = h"
    using lone h(1) To_Call by (auto simp: on_lone_run_def names_device_def)
  then have len: "i < length reg" using idle_nth(1) [OF reg(1)] by simp
  have b: "idle_device (bump reg0 i ! i) = idle_device (reg0 ! i)" using i(1) by (simp add: bump_def idle_device_def)
  have d: "idle_device (reg ! i) = idle_device (bump reg0 i ! i)" using idle_nth(2) [OF reg(1) len] b by simp
  have np: "strcmp (backend_profile (reg ! i)) ''gm3000-skf'' \<noteq> 0"
    using h(2) i nth_mem [OF i(1)] idle_fields(3) [OF idle_nth(2) [OF reg(1) len]] by simp
  obtain w1 where c: "call_step skf req a k i (reg ! i) w = (pc', w1)"
    using step To_Call by (auto split: prod.splits)
  note lc = call_step_idle [OF d np c, of w0]
  obtain res resp where pc': "pc' = To_Release k i res resp"
    using c call_step_releases [of skf req a k i "reg ! i" w] by auto
  have "on_lone_run skf settings reg0 w0 req pc'"
    by (rule on_lone_run_step [OF lone]) (use lc i h(1) To_Call pc' in auto)
  then show ?thesis ..
next
  case (To_Release k i res resp)
  have i: "i < length reg0" using lone To_Release by (auto simp: on_lone_run_def)
  have pc': "pc' = after_call req k res resp" using step To_Release by simp
  have "on_lone_run skf settings reg0 w0 req pc'"
    by (rule on_lone_run_step [OF lone])
      (use release_bump [OF reg(3) i] To_Release pc' in \<open>simp_all add: own_leases_after_call after_call_holds_nothing\<close>)
  then show ?thesis ..
next
  case (Finished ok resp)
  with step lone show ?thesis by auto
qed

text \<open>A loaded registry with nothing in flight, whose device \<open>h\<close> has a built-in adapter.\<close>

definition loaded_builtin :: "resource_registry_t \<Rightarrow> cstring \<Rightarrow> bool" where
  "loaded_builtin reg h \<longleftrightarrow> wf_registry reg \<and> (\<forall>d \<in> set reg. inflight d = 0)
     \<and> (\<forall>d \<in> set reg. device_id d = h \<longrightarrow> strcmp (backend_profile d) ''gm3000-skf'' \<noteq> 0)"

interpretation serial: execution_invariant skf settings
  "\<lambda>st. wf_registry (fst st) \<and> map idle_device (fst st) = map idle_device reg0"
  "\<lambda>j pc. loaded_builtin reg0 h \<and> names_device (job_request j) h \<longrightarrow>
     on_lone_run skf settings reg0 w0 (job_request j) pc \<or> refused_busy (job_request j) pc"
  for skf :: "'w driver_ops_t" and settings reg0 w0 h
proof unfold_locales
  fix j
  have "on_lone_run skf settings reg0 w0 (job_request j) (begin_execution settings (job_request j))"
    by (auto simp: on_lone_run_def begin_execution_holds_nothing own_leases_none intro: exI [of _ 0])
  then show "loaded_builtin reg0 h \<and> names_device (job_request j) h \<longrightarrow>
      on_lone_run skf settings reg0 w0 (job_request j) (begin_execution settings (job_request j))
      \<or> refused_busy (job_request j) (begin_execution settings (job_request j))" by blast
next
  fix j pc pc' and st st' :: "'w gateway_state"
  let ?P = "\<lambda>pc. loaded_builtin reg0 h \<and> names_device (job_request j) h \<longrightarrow>
      on_lone_run skf settings reg0 w0 (job_request j) pc \<or> refused_busy (job_request j) pc"
  assume p: "?P pc" "\<not> is_finished pc" "wf_registry (fst st) \<and> map idle_device (fst st) = map idle_device reg0"
    and step: "exec_step skf (job_request j) (pc, st) = (pc', st')"
  obtain reg w reg' w' where st: "st = (reg, w)" "st' = (reg', w')" by (metis surj_pair)
  have "\<not> refused_busy (job_request j) pc" using p(2) by (auto simp: refused_busy_def)
  with p disturbed_step [OF _ _ _ _ _ _ _ step [unfolded st]] st show "?P pc'"
    by (auto simp: loaded_builtin_def)
qed

subsection \<open>Properties\<close>

text \<open>
  Property C7. A request that names its device is served as if it were alone. When the table
  names no device twice and the device has a built-in adapter, every result a worker of the running server ends with, for a single
  call or a sequence and however the other workers interleave with it, is what
  \<^verbatim>\<open>scheduler_execute\<close> returns on the loaded registry with nobody else there, or the
  refusal of a device that is not available.
\<close>

theorem named_device_is_served_alone:
  assumes "loaded_builtin reg0 h" and "names_device (job_request j) h"
    and "server_reachable skf settings n (reg0, w0) s"
    and "W_Running j (Finished ok resp) \<in> set (s_workers s)"
  shows "scheduler_execute skf settings (job_request j) (reg0, w0) = (ok, resp, (reg0, w0))
    \<or> (\<not> ok \<and> (\<exists>st dm act alg. resp = build_error_response (job_request j) st
          (snprintf_s 256 (no_device_text dm act alg))))"
proof -
  have S: "wf_registry (fst (s_state u)) \<and> map idle_device (fst (s_state u)) = map idle_device reg0"
    if "server_reachable skf settings n (reg0, w0) u" for u
    using server_registry [OF _ _ that] assms(1) by (simp add: loaded_builtin_def)
  from serial.reachable_running [OF assms(3,4), of reg0 h w0, OF S] assms(1,2)
  consider "on_lone_run skf settings reg0 w0 (job_request j) (Finished ok resp)"
    | "refused_busy (job_request j) (Finished ok resp)" by blast
  then show ?thesis
  proof cases
    case 1
    then obtain k where "(exec_step skf (job_request j) ^^ k) (begin_execution settings (job_request j), (reg0, w0))
        = (Finished ok resp, (reg0, w0))" by (auto simp: on_lone_run_def)
    from finished_execution [OF this] show ?thesis by simp
  next
    case 2
    then show ?thesis by (auto simp: refused_busy_def)
  qed
qed

theorem named_device_is_served_alone_witness:
  "\<exists>(s :: unit server_t) j resp. server_reachable classic_driver_ops None 1 (sample_registry, ()) s
     \<and> W_Running j (Finished True resp) \<in> set (s_workers s)
     \<and> scheduler_execute classic_driver_ops None (job_request j) (sample_registry, ()) = (True, resp, (sample_registry, ()))"
proof -
  obtain req where req: "accept_line (map Byte sample_line @ [Byte CHR 0x0A]) = Inr req"
    "req_domain req = DOMAIN_HASH" "req_action req = ACTION_HASH" "req_algorithm req = ''sm3''"
    "req_key_ref req = []" "req_sequence req = []" "req_device_hint req = ''d1''"
    using sample_line_accepted by blast
  have h: "resolve_device_hint_from_key_ref req [] MAX_FIELD_LEN 256 = Inr ''d1''"
    using req by (simp add: resolve_device_hint_from_key_ref_def key_ref_is_internal_index_def
        key_ref_get_token_def MAX_FIELD_LEN_def snprintf_s_def)
  obtain resp st where e: "scheduler_execute classic_driver_ops None req (sample_registry, ()) = (True, resp, st)"
    using sample_step [OF h sample_acquire_step, of DEV_UNKNOWN "req_payload req" "req_aux_payload req"
        "start_response req"] req
    by (auto simp: scheduler_execute_def validate_gateway_pin_def start_response_def Let_def)
  from one_job_finishes [OF req(1) e, of 7] obtain q where
    r: "server_reachable classic_driver_ops None 1 (sample_registry, ()) \<lparr>s_queue = q, s_acceptor = Accepting,
      s_workers = [W_Running \<lparr>job_client_fd = 7, job_request = req\<rparr> (Finished True resp)], s_state = st,
      s_accepted = [7], s_answered = []\<rparr>" (is "server_reachable _ _ _ _ ?s") by blast
  have l: "loaded_builtin sample_registry ''d1''"
    using sample_registry_wf by (simp add: loaded_builtin_def sample_registry_def sample_device_def)
  have n: "names_device (job_request \<lparr>job_client_fd = 7, job_request = req\<rparr>) ''d1''"
    using h req(5) by (simp add: names_device_def)
  have m: "W_Running \<lparr>job_client_fd = 7, job_request = req\<rparr> (Finished True resp) \<in> set (s_workers ?s)" by simp
  from named_device_is_served_alone [OF l n r m] r m show ?thesis by blast
qed

end
