(* ===== verification/Server_Offers.thy ===== *)
theory Server_Offers
  imports Server_Serial
begin

text \<open>
  Which device the running server calls for what: only one that is enabled, that offers the
  domain, action and algorithm of the call to the key source of the request, and that is the
  one named by the request or its key.
\<close>

definition fit_for_call :: "resource_registry_t \<Rightarrow> request_t \<Rightarrow> call_args \<Rightarrow> nat \<Rightarrow> bool" where
  "fit_for_call reg req a i \<longleftrightarrow> i < length reg \<and> enabled (reg ! i)
     \<and> device_supports (reg ! i) (ca_domain a) (ca_action a) (ca_algorithm a)
         (key_ref_source_value (req_key_ref req))
     \<and> (\<exists>h. resolve_device_hint_from_key_ref req (req_key_ref req) MAX_FIELD_LEN 256 = Inr h
          \<and> (h \<noteq> [] \<or> key_ref_is_internal_index (req_key_ref req) \<longrightarrow> device_id (reg ! i) = h))"

fun call_fits :: "resource_registry_t \<Rightarrow> request_t \<Rightarrow> exec_pc \<Rightarrow> bool" where
  "call_fits reg req (To_Call a k i) = fit_for_call reg req a i"
| "call_fits reg req _ = True"

lemma holds_nothing_fits: "held_device pc = {#} \<Longrightarrow> call_fits reg req pc"
  by (cases pc) auto

lemma resolved_internal_index:
  assumes "resolve_device_hint_from_key_ref req key_ref MAX_FIELD_LEN 256 = Inr h" and "key_ref_is_internal_index key_ref"
  shows "h \<noteq> []"
  using assms by (auto simp: resolve_device_hint_from_key_ref_def Let_def snprintf_s_def size_defs
      dest: key_ref_get_token_Some split: option.splits if_splits)

lemma device_fit_idle:
  assumes "map idle_device reg = map idle_device reg0"
  shows "fit_for_call reg req a i = fit_for_call reg0 req a i"
proof -
  note len = idle_nth(1) [OF assms]
  show ?thesis
  proof (cases "i < length reg")
    case True
    note f = idle_fields [OF idle_nth(2) [OF assms True]]
    show ?thesis using f len by (simp add: fit_for_call_def device_supports_def)
  qed (simp add: fit_for_call_def len)
qed

lemma acquire_fits:
  assumes "acquire_step req a k reg = (pc, reg')"
  shows "call_fits reg req pc"
proof (cases "held_device pc = {#}")
  case False
  with assms after_call_holds_nothing [of req k] obtain h i where
    pc: "pc = To_Call a k i" and h: "resolve_device_hint_from_key_ref req (req_key_ref req) MAX_FIELD_LEN 256 = Inr h"
    and q: "registry_acquire_candidate reg (step_query req (ca_domain a) (ca_action a) (ca_algorithm a)
      (req_key_ref req) (ca_type a) h) = Some (reg', i)"
    by (auto simp: acquire_step_def split: sum.splits option.splits)
  have "fit_for_call reg req a i"
    using acquire_Some [OF q] h resolved_internal_index [OF h]
    by (auto simp: fit_for_call_def step_query_def split: if_splits)
  then show ?thesis by (simp add: pc)
qed (rule holds_nothing_fits)

lemma acquire_no_release: "fst (acquire_step req a k reg) \<noteq> To_Release k' i res resp"
proof -
  have "after_call req k r p \<noteq> To_Release k' i res resp" for r p
    using after_call_holds_nothing [of req k r p] by auto
  then show ?thesis by (simp add: acquire_step_def split: sum.split option.split prod.split)
qed

lemma call_step_fits: "call_fits reg req (fst (call_step skf req' a k i d w))"
  by (simp add: call_step_def Let_def split: sum.split prod.split)

interpretation fits: execution_invariant skf settings
  "\<lambda>st. map idle_device (fst st) = map idle_device reg0" "\<lambda>j. call_fits reg0 (job_request j)"
  for skf :: "'w driver_ops_t" and settings reg0
proof unfold_locales
  show "call_fits reg0 (job_request j) (begin_execution settings (job_request j))" for j
    by (rule holds_nothing_fits) (rule begin_execution_holds_nothing)
next
  fix j pc pc' and st st' :: "'w gateway_state"
  assume idle: "map idle_device (fst st) = map idle_device reg0"
    and step: "exec_step skf (job_request j) (pc, st) = (pc', st')" and run: "\<not> is_finished pc"
  obtain reg w where st: "st = (reg, w)" by fastforce
  show "call_fits reg0 (job_request j) pc'"
  proof (cases pc)
    case (To_Acquire a k)
    have "call_fits reg0 (job_request j) pc' = call_fits reg (job_request j) pc'"
      using device_fit_idle [OF idle] st by (cases pc') simp_all
    moreover have "pc' = fst (acquire_step (job_request j) a k reg)"
      using step To_Acquire st by (auto split: prod.splits)
    ultimately show ?thesis using acquire_fits [of "job_request j" a k reg] by (metis prod.collapse)
  next
    case (To_Call a k i)
    then have "pc' = fst (call_step skf (job_request j) a k i (reg ! i) w)"
      using step st by (auto split: prod.splits)
    then show ?thesis by (simp add: call_step_fits)
  next
    case (To_Release k i res resp)
    with step st show ?thesis by (auto intro!: holds_nothing_fits simp: after_call_holds_nothing)
  qed (use run in simp)
qed

subsection \<open>Properties\<close>

text \<open>
  Property C6. The gateway keeps to the table of its devices, when this names no device twice.
  In the running server, for any
  adapters and however the workers interleave, a worker that is about to call a device calls
  one that is enabled and offers the domain, action and algorithm of this call (of the request
  or of the step of its sequence) for the key source of the request; and when the request names
  a device, or its key lives inside one, it is that device.
\<close>

theorem calls_fit_their_device:
  assumes "wf_registry reg0" and "\<forall>d \<in> set reg0. inflight d = 0"
    and "server_reachable skf settings n (reg0, w0) s"
    and "W_Running j (To_Call a k i) \<in> set (s_workers s)"
  shows "i < length reg0 \<and> enabled (reg0 ! i)
    \<and> device_supports (reg0 ! i) (ca_domain a) (ca_action a) (ca_algorithm a)
        (key_ref_source_value (req_key_ref (job_request j)))
    \<and> (\<exists>h. resolve_device_hint_from_key_ref (job_request j) (req_key_ref (job_request j)) MAX_FIELD_LEN 256 = Inr h
         \<and> (h \<noteq> [] \<or> key_ref_is_internal_index (req_key_ref (job_request j)) \<longrightarrow> device_id (reg0 ! i) = h))"
proof -
  have "map idle_device (fst (s_state u)) = map idle_device reg0"
    if "server_reachable skf settings n (reg0, w0) u" for u
    using server_registry [OF assms(1,2) that] by blast
  from fits.reachable_running [OF assms(3,4) this] show ?thesis by (simp add: fit_for_call_def)
qed

theorem calls_fit_their_device_witness:
  "\<exists>(s :: unit server_t) j a k. server_reachable classic_driver_ops None 1 (sample_registry, ()) s
     \<and> W_Running j (To_Call a k 0) \<in> set (s_workers s)
     \<and> device_supports (sample_registry ! 0) (ca_domain a) (ca_action a) (ca_algorithm a) 0"
proof -
  obtain req where req: "accept_line (map Byte sample_line @ [Byte CHR 0x0A]) = Inr req"
    "req_domain req = DOMAIN_HASH" "req_action req = ACTION_HASH" "req_algorithm req = ''sm3''"
    "req_key_ref req = []" "req_sequence req = []" "req_device_hint req = ''d1''"
    using sample_line_accepted by blast
  let ?j = "\<lparr>job_client_fd = 7, job_request = req\<rparr>"
  let ?a = "\<lparr>ca_domain = DOMAIN_HASH, ca_action = ACTION_HASH, ca_algorithm = ''sm3'', ca_payload = req_payload req,
      ca_type = DEV_UNKNOWN, ca_resp = start_response req\<rparr>"
  have b: "begin_execution None req = To_Acquire ?a After_single"
    using req by (simp add: begin_execution_def validate_gateway_pin_def start_response_def)
  have h: "resolve_device_hint_from_key_ref req [] MAX_FIELD_LEN 256 = Inr ''d1''"
    using req by (simp add: resolve_device_hint_from_key_ref_def key_ref_is_internal_index_def
        key_ref_get_token_def MAX_FIELD_LEN_def snprintf_s_def)
  have "(exec_step (classic_driver_ops :: unit driver_ops_t) req ^^ 1) (begin_execution None req, (sample_registry, ()))
      = (To_Call ?a After_single 0, (bump sample_registry 0, ()))"
    using sample_acquire_step [of "''d1''" req DEV_UNKNOWN "[]"] req h by (simp add: b acquire_step_def)
  from one_job_advances [OF req(1) this, of 7] obtain s :: "unit server_t" where
    r: "server_reachable classic_driver_ops None 1 (sample_registry, ()) s"
       "W_Running ?j (To_Call ?a After_single 0) \<in> set (s_workers s)" by fastforce
  have "\<forall>d \<in> set sample_registry. inflight d = 0"
    by (simp add: sample_registry_def sample_device_def)
  moreover have "key_ref_source_value [] = 0" by (simp add: key_ref_source_value_def key_ref_get_token_def)
  ultimately show ?thesis
    using calls_fit_their_device [OF sample_registry_wf _ r] r req(5) by fastforce
qed

end
