(* ===== verification/Shipped_Configs.thy ===== *)
theory Shipped_Configs
  imports Config_Loader Server_Offers
begin

text \<open>
  The configuration files the repository ships, \<^verbatim>\<open>configs/devices.conf\<close> and
  \<^verbatim>\<open>configs/gateway.conf\<close>, loaded by the model, the checks of \<^verbatim>\<open>tests/test_runner.c\<close> on them, and
  what the gateway does with them: which of the offered capabilities it can carry out.
\<close>

subsection \<open>The files\<close>

definition devices_conf :: string where
  "devices_conf = concat (map (\<lambda>l. l @ [CHR 0x0A]) [
     ''# device_id,type,backend_profile,priority,enabled,max_inflight,security_score,efficiency'' @
       ''_score,capabilities'',
     ''classic-1,classic,swsds-classic,100,1,8,70,95,device:get_device_info:auto|device:generat'' @
       ''e_random:auto|key:get_private_key_access:auto|key:release_private_key_access:auto|key:ge'' @
       ''nerate_key_pair:sm2|key:generate_key_pair:rsa|key:export_public_key:sm2|key:import_key:a'' @
       ''uto|key:destroy_key:auto|asym:sign:sm2|asym:verify:sm2|asym:encrypt:sm2|asym:decrypt:sm2'' @
       ''|sym:encrypt:sm4-cbc|sym:decrypt:sm4-cbc|sym:mac:sm4-mac|hash:hash:sm3|file:create_file:'' @
       ''auto|file:read_file:auto|file:write_file:auto|file:delete_file:auto'',
     ''pqc-1,pqc,swsds-pqc,200,1,8,98,70,device:get_device_info:auto|device:generate_random:aut'' @
       ''o|key:get_private_key_access:auto|key:release_private_key_access:auto|key:generate_key_p'' @
       ''air:dilithium3|key:generate_key_pair:kyber768|key:generate_key_pair:mlkem768|pqc:sign:di'' @
       ''lithium3|pqc:verify:dilithium3|pqc:kem_encap:kyber768|pqc:kem_decap:kyber768|pqc:kem_enc'' @
       ''ap:mlkem768|pqc:kem_decap:mlkem768|hash:hash:sm3|file:create_file:auto|file:read_file:au'' @
       ''to|file:write_file:auto|file:delete_file:auto'',
     ''softlib-1,classic,softlib,300,1,8,60,100,asym:sign:sm2:external_key|hash:hash:sm3''])"

definition hd_line :: string where
  "hd_line = ''# device_id,type,backend_profile,priority,enabled,max_inflight,security_score,ef'' @
     ''ficiency_score,capabilities''"

definition gateway_conf :: string where
  "gateway_conf = ''gateway_pin=123456'' @ [CHR 0x0A]"

definition offers :: "api_domain_t \<Rightarrow> api_action_t \<Rightarrow> cstring \<Rightarrow> 32 word \<Rightarrow> capability_t" where
  "offers dm act alg sources =
     \<lparr>cap_domain = dm, cap_action = act, cap_algorithm = alg, key_source_mask = sources\<rparr>"

definition classic_1 :: device_resource_t where
  "classic_1 =
     \<lparr>device_id = ''classic-1'', device_type = DEV_CLASSIC, backend_profile = ''swsds-classic'',
      priority = 100, enabled = True, max_inflight = 8, inflight = 0, security_score = 70, efficiency_score = 95,
      caps = [
        offers DOMAIN_DEVICE ACTION_GET_DEVICE_INFO ''auto'' 0xFFFFFFFF,
        offers DOMAIN_DEVICE ACTION_GENERATE_RANDOM ''auto'' 0xFFFFFFFF,
        offers DOMAIN_KEY ACTION_GET_PRIVATE_KEY_ACCESS ''auto'' 0xFFFFFFFF,
        offers DOMAIN_KEY ACTION_RELEASE_PRIVATE_KEY_ACCESS ''auto'' 0xFFFFFFFF,
        offers DOMAIN_KEY ACTION_GENERATE_KEY_PAIR ''sm2'' 0xFFFFFFFF,
        offers DOMAIN_KEY ACTION_GENERATE_KEY_PAIR ''rsa'' 0xFFFFFFFF,
        offers DOMAIN_KEY ACTION_EXPORT_PUBLIC_KEY ''sm2'' 0xFFFFFFFF,
        offers DOMAIN_KEY ACTION_IMPORT_KEY ''auto'' 0xFFFFFFFF,
        offers DOMAIN_KEY ACTION_DESTROY_KEY ''auto'' 0xFFFFFFFF,
        offers DOMAIN_ASYM ACTION_SIGN ''sm2'' 0xFFFFFFFF,
        offers DOMAIN_ASYM ACTION_VERIFY ''sm2'' 0xFFFFFFFF,
        offers DOMAIN_ASYM ACTION_ENCRYPT ''sm2'' 0xFFFFFFFF,
        offers DOMAIN_ASYM ACTION_DECRYPT ''sm2'' 0xFFFFFFFF,
        offers DOMAIN_SYM ACTION_ENCRYPT ''sm4-cbc'' 0xFFFFFFFF,
        offers DOMAIN_SYM ACTION_DECRYPT ''sm4-cbc'' 0xFFFFFFFF,
        offers DOMAIN_SYM ACTION_MAC ''sm4-mac'' 0xFFFFFFFF,
        offers DOMAIN_HASH ACTION_HASH ''sm3'' 0xFFFFFFFF,
        offers DOMAIN_FILE ACTION_CREATE_FILE ''auto'' 0xFFFFFFFF,
        offers DOMAIN_FILE ACTION_READ_FILE ''auto'' 0xFFFFFFFF,
        offers DOMAIN_FILE ACTION_WRITE_FILE ''auto'' 0xFFFFFFFF,
        offers DOMAIN_FILE ACTION_DELETE_FILE ''auto'' 0xFFFFFFFF]\<rparr>"

definition pqc_1 :: device_resource_t where
  "pqc_1 =
     \<lparr>device_id = ''pqc-1'', device_type = DEV_PQC, backend_profile = ''swsds-pqc'',
      priority = 200, enabled = True, max_inflight = 8, inflight = 0, security_score = 98, efficiency_score = 70,
      caps = [
        offers DOMAIN_DEVICE ACTION_GET_DEVICE_INFO ''auto'' 0xFFFFFFFF,
        offers DOMAIN_DEVICE ACTION_GENERATE_RANDOM ''auto'' 0xFFFFFFFF,
        offers DOMAIN_KEY ACTION_GET_PRIVATE_KEY_ACCESS ''auto'' 0xFFFFFFFF,
        offers DOMAIN_KEY ACTION_RELEASE_PRIVATE_KEY_ACCESS ''auto'' 0xFFFFFFFF,
        offers DOMAIN_KEY ACTION_GENERATE_KEY_PAIR ''dilithium3'' 0xFFFFFFFF,
        offers DOMAIN_KEY ACTION_GENERATE_KEY_PAIR ''kyber768'' 0xFFFFFFFF,
        offers DOMAIN_KEY ACTION_GENERATE_KEY_PAIR ''mlkem768'' 0xFFFFFFFF,
        offers DOMAIN_PQC ACTION_SIGN ''dilithium3'' 0xFFFFFFFF,
        offers DOMAIN_PQC ACTION_VERIFY ''dilithium3'' 0xFFFFFFFF,
        offers DOMAIN_PQC ACTION_KEM_ENCAP ''kyber768'' 0xFFFFFFFF,
        offers DOMAIN_PQC ACTION_KEM_DECAP ''kyber768'' 0xFFFFFFFF,
        offers DOMAIN_PQC ACTION_KEM_ENCAP ''mlkem768'' 0xFFFFFFFF,
        offers DOMAIN_PQC ACTION_KEM_DECAP ''mlkem768'' 0xFFFFFFFF,
        offers DOMAIN_HASH ACTION_HASH ''sm3'' 0xFFFFFFFF,
        offers DOMAIN_FILE ACTION_CREATE_FILE ''auto'' 0xFFFFFFFF,
        offers DOMAIN_FILE ACTION_READ_FILE ''auto'' 0xFFFFFFFF,
        offers DOMAIN_FILE ACTION_WRITE_FILE ''auto'' 0xFFFFFFFF,
        offers DOMAIN_FILE ACTION_DELETE_FILE ''auto'' 0xFFFFFFFF]\<rparr>"

definition softlib_1 :: device_resource_t where
  "softlib_1 =
     \<lparr>device_id = ''softlib-1'', device_type = DEV_CLASSIC, backend_profile = ''softlib'',
      priority = 300, enabled = True, max_inflight = 8, inflight = 0, security_score = 60, efficiency_score = 100,
      caps = [
        offers DOMAIN_ASYM ACTION_SIGN ''sm2'' 8,
        offers DOMAIN_HASH ACTION_HASH ''sm3'' 0xFFFFFFFF]\<rparr>"

definition shipped_registry :: resource_registry_t where
  "shipped_registry = [classic_1, pqc_1, softlib_1]"

definition shipped_settings :: gateway_settings_t where
  "shipped_settings = \<lparr>gateway_pin = ''123456''\<rparr>"

subsection \<open>Loading them\<close>

lemmas shipped_devices = classic_1_def pqc_1_def softlib_1_def

lemma numbers:
  "dec_int 8 = ''8''" "dec_int 60 = ''60''" "dec_int 70 = ''70''" "dec_int 95 = ''95''" "dec_int 98 = ''98''" "dec_int 100 = ''100''" "dec_int 200 = ''200''" "dec_int 300 = ''300''"
  by code_simp+

lemma algorithms:
  "normalize_algorithm_name (Some ''auto'') MAX_FIELD_LEN = Some ''auto''"
  "normalize_algorithm_name (Some ''dilithium3'') MAX_FIELD_LEN = Some ''dilithium3''"
  "normalize_algorithm_name (Some ''kyber768'') MAX_FIELD_LEN = Some ''kyber768''"
  "normalize_algorithm_name (Some ''mlkem768'') MAX_FIELD_LEN = Some ''mlkem768''"
  "normalize_algorithm_name (Some ''rsa'') MAX_FIELD_LEN = Some ''rsa''"
  "normalize_algorithm_name (Some ''sm2'') MAX_FIELD_LEN = Some ''sm2''"
  "normalize_algorithm_name (Some ''sm3'') MAX_FIELD_LEN = Some ''sm3''"
  "normalize_algorithm_name (Some ''sm4-cbc'') MAX_FIELD_LEN = Some ''sm4-cbc''"
  "normalize_algorithm_name (Some ''sm4-mac'') MAX_FIELD_LEN = Some ''sm4-mac''"
  by code_simp+

lemma devices_conf_text:
  "devices_conf = hd_line @ [CHR 0x0A] @ table_text shipped_registry"
  by (simp add: devices_conf_def hd_line_def table_text_def shipped_registry_def shipped_devices device_text_def device_fields_def
      numbers cap_text_def offers_def mask_text_def)

lemma offers_writable:
  assumes "normalize_algorithm_name (Some alg) MAX_FIELD_LEN = Some alg" "plain alg" "length alg < 64"
    and "dm \<noteq> DOMAIN_UNKNOWN" "act \<noteq> ACTION_UNKNOWN" "sources \<in> {8, 0xFFFFFFFF}"
  shows "writable_cap (offers dm act alg sources)"
proof -
  have "no_nul alg" using plain_no_sep [OF assms(2)] by (simp add: no_nul_def)
  moreover have "length (mask_text sources) \<le> 13" using assms(6) by (auto simp: mask_text_def)
  ultimately show ?thesis
    using assms name_lengths(1) [of dm] name_lengths(2) [of act]
    by (auto simp: writable_cap_def wf_capability_def offers_def cap_text_def fits_def size_defs)
qed

lemma plain_algorithms:
  "plain ''auto''"
  "plain ''dilithium3''"
  "plain ''kyber768''"
  "plain ''mlkem768''"
  "plain ''rsa''"
  "plain ''sm2''"
  "plain ''sm3''"
  "plain ''sm4-cbc''"
  "plain ''sm4-mac''"
  by (simp_all add: plain_def)

lemma shipped_caps: "list_all (\<lambda>d. list_all writable_cap (caps d)) shipped_registry"
  by (simp add: shipped_registry_def shipped_devices offers_writable algorithms plain_algorithms)

lemma shipped_lengths:
  "list_all (\<lambda>d. length (join CHR ''|'' (map cap_text (caps d))) < 512 \<and> length (device_text d) < 1023) shipped_registry"
  by (simp add: shipped_registry_def shipped_devices device_text_def device_fields_def numbers cap_text_def offers_def mask_text_def)

lemma shipped_writable: "list_all writable_device shipped_registry"
  using shipped_caps shipped_lengths
  by (simp add: shipped_registry_def shipped_devices writable_device_def plain_def int32_def size_defs)

lemma devices_conf_loads:
  "load_resources_from_file ''./configs/devices.conf'' (Some devices_conf) registry_init esz
     = (shipped_registry, Inr ())"
proof -
  have "fgets_lines 1024 devices_conf = (hd_line @ [CHR 0x0A]) # fgets_lines 1024 (table_text shipped_registry)"
    unfolding devices_conf_text append_Cons append_Nil
    by (rule fgets_lines_line) (simp_all add: hd_line_def)
  moreover have "parse_device_line esz (hd_line @ [CHR 0x0A]) = Inr None"
    by (simp add: parse_device_line_def hd_line_def starts_with_str_def)
  ultimately show ?thesis
    using load_lines_table [OF shipped_writable, of "[]" esz] fgets_lines_table [OF shipped_writable]
    by (simp add: load_resources_from_file_def registry_init_def) (simp add: shipped_registry_def size_defs)
qed

lemma gateway_conf_loads:
  "load_gateway_settings ''./configs/gateway.conf'' (Some gateway_conf) esz = Inr shipped_settings"
  by code_simp


subsection \<open>What the table has rules for\<close>

definition rule_keys :: "device_resource_t \<Rightarrow> (api_domain_t \<times> api_action_t \<times> cstring) list" where
  "rule_keys d = map (\<lambda>r. (rule_domain r, rule_action r, rule_algorithm r))
     (filter (\<lambda>r. rule_type r = device_type d \<and> rule_backend_profile r = backend_profile d) g_rules)"

lemma rule_keys_classic_1:
  "rule_keys classic_1 = [
       (DOMAIN_DEVICE, ACTION_GET_DEVICE_INFO, ''auto''),
       (DOMAIN_DEVICE, ACTION_GENERATE_RANDOM, ''auto''),
       (DOMAIN_KEY, ACTION_GET_PRIVATE_KEY_ACCESS, ''auto''),
       (DOMAIN_KEY, ACTION_RELEASE_PRIVATE_KEY_ACCESS, ''auto''),
       (DOMAIN_KEY, ACTION_GENERATE_KEY_PAIR, ''rsa''),
       (DOMAIN_KEY, ACTION_GENERATE_KEY_PAIR, ''sm2''),
       (DOMAIN_KEY, ACTION_EXPORT_PUBLIC_KEY, ''rsa''),
       (DOMAIN_KEY, ACTION_EXPORT_PUBLIC_KEY, ''sm2''),
       (DOMAIN_KEY, ACTION_IMPORT_KEY, ''auto''),
       (DOMAIN_KEY, ACTION_DESTROY_KEY, ''auto''),
       (DOMAIN_ASYM, ACTION_SIGN, ''sm2''),
       (DOMAIN_ASYM, ACTION_VERIFY, ''sm2''),
       (DOMAIN_ASYM, ACTION_ENCRYPT, ''sm2''),
       (DOMAIN_ASYM, ACTION_DECRYPT, ''sm2''),
       (DOMAIN_ASYM, ACTION_SIGN, ''rsa''),
       (DOMAIN_ASYM, ACTION_VERIFY, ''rsa''),
       (DOMAIN_SYM, ACTION_ENCRYPT, ''sm4-cbc''),
       (DOMAIN_SYM, ACTION_DECRYPT, ''sm4-cbc''),
       (DOMAIN_SYM, ACTION_MAC, ''sm4-mac''),
       (DOMAIN_HASH, ACTION_HASH, ''sm3''),
       (DOMAIN_FILE, ACTION_CREATE_FILE, ''auto''),
       (DOMAIN_FILE, ACTION_READ_FILE, ''auto''),
       (DOMAIN_FILE, ACTION_WRITE_FILE, ''auto''),
       (DOMAIN_FILE, ACTION_DELETE_FILE, ''auto'')]"
  by (simp add: rule_keys_def classic_1_def g_rules_def rule_def)

lemma rule_keys_pqc_1:
  "rule_keys pqc_1 = [
       (DOMAIN_DEVICE, ACTION_GET_DEVICE_INFO, ''auto''),
       (DOMAIN_DEVICE, ACTION_GENERATE_RANDOM, ''auto''),
       (DOMAIN_KEY, ACTION_GET_PRIVATE_KEY_ACCESS, ''auto''),
       (DOMAIN_KEY, ACTION_RELEASE_PRIVATE_KEY_ACCESS, ''auto''),
       (DOMAIN_KEY, ACTION_GENERATE_KEY_PAIR, ''dilithium3''),
       (DOMAIN_KEY, ACTION_GENERATE_KEY_PAIR, ''kyber768''),
       (DOMAIN_KEY, ACTION_GENERATE_KEY_PAIR, ''mlkem768''),
       (DOMAIN_PQC, ACTION_SIGN, ''dilithium3''),
       (DOMAIN_PQC, ACTION_VERIFY, ''dilithium3''),
       (DOMAIN_PQC, ACTION_KEM_ENCAP, ''kyber768''),
       (DOMAIN_PQC, ACTION_KEM_DECAP, ''kyber768''),
       (DOMAIN_PQC, ACTION_KEM_ENCAP, ''mlkem768''),
       (DOMAIN_PQC, ACTION_KEM_DECAP, ''mlkem768''),
       (DOMAIN_HASH, ACTION_HASH, ''sm3''),
       (DOMAIN_FILE, ACTION_CREATE_FILE, ''auto''),
       (DOMAIN_FILE, ACTION_READ_FILE, ''auto''),
       (DOMAIN_FILE, ACTION_WRITE_FILE, ''auto''),
       (DOMAIN_FILE, ACTION_DELETE_FILE, ''auto'')]"
  by (simp add: rule_keys_def pqc_1_def g_rules_def rule_def)

lemma rule_keys_softlib_1:
  "rule_keys softlib_1 = [
       (DOMAIN_ASYM, ACTION_SIGN, ''sm2'')]"
  by (simp add: rule_keys_def softlib_1_def g_rules_def rule_def)

lemmas rule_keys_shipped = rule_keys_classic_1 rule_keys_pqc_1 rule_keys_softlib_1

text \<open>A rule for every algorithm the capability stands for.\<close>

definition rule_for :: "device_resource_t \<Rightarrow> capability_t \<Rightarrow> bool" where
  "rule_for d c \<longleftrightarrow> (cap_domain c, cap_action c, ''auto'') \<in> set (rule_keys d)
     \<or> (cap_domain c, cap_action c, cap_algorithm c) \<in> set (rule_keys d) \<and> cap_algorithm c \<noteq> ''auto''"

lemma shipped_rules:
  "list_all (rule_for classic_1) (caps classic_1)" "list_all (rule_for pqc_1) (caps pqc_1)"
  unfolding rule_for_def rule_keys_shipped by (simp_all add: shipped_devices offers_def)

lemma rule_for_translates:
  assumes "rule_for d c" and "capability_matches c dm act alg ks"
  shows "\<exists>t. translate_backend_call dm act alg payload aux key_ref d esz = Inr t"
proof -
  obtain r where "r \<in> set g_rules" "rule_type r = device_type d" "rule_backend_profile r = backend_profile d"
      "rule_domain r = dm" "rule_action r = act" "rule_algorithm r \<in> {alg, ''auto''}"
    using assms(1,2) by (auto simp: rule_for_def rule_keys_def capability_matches_iff)
  then have "find_rule d dm act alg \<noteq> None" by (auto simp: find_rule_None rule_matches_iff)
  then show ?thesis by (auto simp: translate_backend_call_def Let_def)
qed

subsection \<open>Executions on the shipped devices\<close>

lemma shipped_wf: "wf_registry shipped_registry" "\<forall>d \<in> set shipped_registry. inflight d = 0"
  by (simp_all add: wf_registry_def shipped_registry_def shipped_devices size_defs)

lemma shipped_profiles:
  "d \<in> set shipped_registry \<Longrightarrow> backend_profile d \<noteq> ''gm3000-skf'' \<and> length (device_id d) < MAX_RESPONSE_LEN"
  by (auto simp: shipped_registry_def shipped_devices size_defs)

lemma shipped_supports_translates:
  assumes "d \<in> set shipped_registry" "d \<noteq> softlib_1" "device_supports d dm act alg ks"
  shows "\<exists>t. translate_backend_call dm act alg payload aux key_ref d esz = Inr t"
proof -
  obtain c where c: "c \<in> set (caps d)" "capability_matches c dm act alg ks"
    using assms(3) by (auto simp: device_supports_iff)
  have "rule_for d c"
    using shipped_rules c(1) assms(1,2) by (auto simp: shipped_registry_def list_all_iff)
  from rule_for_translates [OF this c(2)] show ?thesis by blast
qed

text \<open>What holds of an execution that has a device.\<close>

fun delivers_shipped :: "exec_pc \<Rightarrow> bool" where
  "delivers_shipped (To_Call a k i) \<longleftrightarrow> i < length shipped_registry
     \<and> (\<exists>ks. device_supports (shipped_registry ! i) (ca_domain a) (ca_action a) (ca_algorithm a) ks)"
| "delivers_shipped (To_Release k i res resp) \<longleftrightarrow> i < length shipped_registry
     \<and> (shipped_registry ! i = softlib_1
        \<or> res = Inr () \<and> resp_selected_device resp = device_id (shipped_registry ! i))"
| "delivers_shipped _ \<longleftrightarrow> True"

lemma holds_nothing_delivers: "held_device pc = {#} \<Longrightarrow> delivers_shipped pc"
  by (cases pc) auto

lemma call_delivers:
  assumes "map idle_device reg = map idle_device shipped_registry" and "delivers_shipped (To_Call a k i)"
  shows "delivers_shipped (fst (call_step skf req a k i (reg ! i) w))"
proof (cases "shipped_registry ! i = softlib_1")
  case True
  with assms(2) show ?thesis by (simp add: call_step_def Let_def split: sum.split prod.split)
next
  case False
  let ?d = "shipped_registry ! i"
  have i: "i < length shipped_registry" using assms(2) by simp
  then have idle: "idle_device (reg ! i) = idle_device ?d"
    using idle_nth [OF assms(1)] by simp
  note f = idle_fields [OF idle] and p = shipped_profiles [OF nth_mem [OF i]]
  obtain t where t: "translate_backend_call (ca_domain a) (ca_action a) (ca_algorithm a) (Some (ca_payload a))
      (Some (req_aux_payload req)) (Some (req_key_ref req)) (reg ! i) 256 = Inr t"
    using shipped_supports_translates [OF nth_mem [OF i] False] assms(2) translate_idle [OF idle] by fastforce
  have np: "backend_profile (reg ! i) \<noteq> ''gm3000-skf''" using p f(3) by simp
  then have "ops_for skf (reg ! i) = (if device_type (reg ! i) = DEV_CLASSIC then classic_driver_ops else pqc_driver_ops)"
    by (simp add: ops_for_def)
  with served_dispatch [OF t np, of "ca_resp a" 256 w] obtain s where
    "driver_dispatch (ops_for skf (reg ! i)) (ca_domain a) (reg ! i) t (ca_resp a) 256 w
      = (Inr (), (fill_common (reg ! i) t (ca_resp a)) \<lparr> resp_result := snprintf_s MAX_RESPONSE_LEN s \<rparr>, w)" by auto
  then show ?thesis using i t p f(1) by (simp add: call_step_def fill_common_def snprintf_s_def MAX_RESPONSE_LEN_def)
qed

interpretation shipped: execution_invariant skf settings
  "\<lambda>st. map idle_device (fst st) = map idle_device shipped_registry" "\<lambda>j. delivers_shipped"
  for skf :: "'w driver_ops_t" and settings
proof unfold_locales
  show "delivers_shipped (begin_execution settings (job_request j))" for j
    by (rule holds_nothing_delivers) (rule begin_execution_holds_nothing)
next
  fix j pc pc' and st st' :: "'w gateway_state"
  assume p: "delivers_shipped pc" and idle: "map idle_device (fst st) = map idle_device shipped_registry"
    and step: "exec_step skf (job_request j) (pc, st) = (pc', st')"
  obtain reg w where st: "st = (reg, w)" by fastforce
  show "delivers_shipped pc'"
  proof (cases pc)
    case (To_Acquire a k)
    then have "pc' = fst (acquire_step (job_request j) a k reg)" using step st by (auto split: prod.splits)
    then have "call_fits reg (job_request j) pc'" "\<not> (\<exists>k i res resp. pc' = To_Release k i res resp)"
      using acquire_fits [of "job_request j" a k reg] acquire_no_release [of "job_request j" a k reg]
      by (metis prod.collapse)+
    then show ?thesis using device_fit_idle [of reg shipped_registry] idle st
      by (cases pc') (auto simp: fit_for_call_def)
  next
    case (To_Call a k i)
    then have "pc' = fst (call_step skf (job_request j) a k i (reg ! i) w)"
      using step st by (auto split: prod.splits)
    with call_delivers [of reg a k i skf "job_request j" w] p idle To_Call st show ?thesis by simp
  next
    case (To_Release k i res resp)
    with step st show ?thesis by (auto intro: holds_nothing_delivers simp: after_call_holds_nothing)
  next
    case (Finished ok resp)
    with step st show ?thesis by auto
  qed
qed

subsection \<open>Properties\<close>

text \<open>
  Property C10. The shipped configuration keeps its word, but for one device: in the gateway
  running on \<^verbatim>\<open>configs/devices.conf\<close>, whatever is asked for and however the workers interleave,
  an execution that has been given the classic or the post-quantum device gets its call
  carried out there without an error, with any adapter for SKF tokens.
\<close>

theorem shipped_devices_deliver:
  assumes "load_resources_from_file ''./configs/devices.conf'' (Some devices_conf) registry_init 256 = (reg0, Inr ())"
    and "server_reachable skf settings n (reg0, w0) s"
    and "W_Running j (To_Release k i res resp) \<in> set (s_workers s)"
    and "device_id (reg0 ! i) \<noteq> ''softlib-1''"
  shows "res = Inr () \<and> resp_selected_device resp = device_id (reg0 ! i)"
proof -
  have reg0: "reg0 = shipped_registry" using assms(1) devices_conf_loads by simp
  have "map idle_device (fst (s_state u)) = map idle_device shipped_registry"
    if "server_reachable skf settings n (shipped_registry, w0) u" for u
    using server_registry [OF shipped_wf that] by blast
  from shipped.reachable_running [OF assms(2) [unfolded reg0] assms(3) this] assms(4)
  show ?thesis by (auto simp: reg0 softlib_1_def)
qed

definition shipped_line :: cstring where
  "shipped_line = json_object [(''request_id'', ''7''), (''domain'', ''hash''), (''action'', ''hash''),
     (''algorithm'', ''sm3''), (''device_hint'', ''classic-1'')]"

lemma shipped_line_accepted:
  "\<exists>req. accept_line (map Byte shipped_line @ [Byte CHR 0x0A]) = Inr req \<and> req_domain req = DOMAIN_HASH
     \<and> req_action req = ACTION_HASH \<and> req_algorithm req = ''sm3'' \<and> req_key_ref req = [] \<and> req_sequence req = []
     \<and> req_device_hint req = ''classic-1''"
proof -
  have "case parse_request_json shipped_line 256 of Inl e \<Rightarrow> False
    | Inr req \<Rightarrow> req_domain req = DOMAIN_HASH \<and> req_action req = ACTION_HASH \<and> req_algorithm req = ''sm3''
        \<and> req_key_ref req = [] \<and> req_sequence req = [] \<and> req_device_hint req = ''classic-1''"
    by code_simp
  moreover have "CHR 0x0A \<notin> set shipped_line" "take 2047 shipped_line = shipped_line"
    "c_string shipped_line = shipped_line" "shipped_line \<noteq> []"
    by (simp_all add: shipped_line_def json_object_def json_member_def quoted_def c_string_def)
  ultimately show ?thesis
    by (cases "parse_request_json shipped_line 256") (simp_all add: accept_line_def read_line_bytes)
qed

lemma hash_support:
  "device_supports classic_1 DOMAIN_HASH ACTION_HASH ''sm3'' 0"
  "device_supports softlib_1 DOMAIN_HASH ACTION_HASH ''sm3'' 0"
  by (simp_all add: shipped_devices device_supports_iff capability_matches_iff offers_def)

theorem shipped_devices_deliver_witness:
  "\<exists>(s :: unit server_t) j k res resp. server_reachable classic_driver_ops None 1 (shipped_registry, ()) s
     \<and> W_Running j (To_Release k 0 res resp) \<in> set (s_workers s)
     \<and> res = Inr () \<and> resp_selected_device resp = ''classic-1''"
proof -
  obtain req where req: "accept_line (map Byte shipped_line @ [Byte CHR 0x0A]) = Inr req"
    "req_domain req = DOMAIN_HASH" "req_action req = ACTION_HASH" "req_algorithm req = ''sm3''"
    "req_key_ref req = []" "req_sequence req = []" "req_device_hint req = ''classic-1''"
    using shipped_line_accepted by blast
  let ?j = "\<lparr>job_client_fd = 7, job_request = req\<rparr>"
  let ?a = "\<lparr>ca_domain = DOMAIN_HASH, ca_action = ACTION_HASH, ca_algorithm = ''sm3'', ca_payload = req_payload req,
      ca_type = DEV_UNKNOWN, ca_resp = start_response req\<rparr>"
  let ?step = "exec_step (classic_driver_ops :: unit driver_ops_t) req"
  have b: "begin_execution None req = To_Acquire ?a After_single"
    using req by (simp add: begin_execution_def validate_gateway_pin_def start_response_def)
  have h: "resolve_device_hint_from_key_ref req [] MAX_FIELD_LEN 256 = Inr ''classic-1''"
    using req by (simp add: resolve_device_hint_from_key_ref_def key_ref_is_internal_index_def
        key_ref_get_token_def MAX_FIELD_LEN_def snprintf_s_def)
  have k: "key_ref_source_value [] = 0" by (simp add: key_ref_source_value_def key_ref_get_token_def)
  have "hint_usable (step_query req DOMAIN_HASH ACTION_HASH ''sm3'' [] DEV_UNKNOWN ''classic-1'') classic_1"
    using hash_support(1) by (simp add: hint_usable_def step_query_def k) (simp add: classic_1_def)
  then have "registry_acquire_candidate shipped_registry
      (step_query req DOMAIN_HASH ACTION_HASH ''sm3'' [] DEV_UNKNOWN ''classic-1'') = Some (bump shipped_registry 0, 0)"
    by (simp add: registry_acquire_candidate_def shipped_registry_def step_query_def)
  with h have 1: "?step (To_Acquire ?a After_single, (shipped_registry, ()))
      = (To_Call ?a After_single 0, (bump shipped_registry 0, ()))"
    using req by (simp add: acquire_step_def)
  obtain res resp where 2: "?step (To_Call ?a After_single 0, (bump shipped_registry 0, ()))
      = (To_Release After_single 0 res resp, (bump shipped_registry 0, ()))"
    using call_step_releases [of classic_driver_ops req ?a After_single 0 "bump shipped_registry 0 ! 0" "()"] by auto
  have "(?step ^^ 2) (begin_execution None req, (shipped_registry, ()))
      = (To_Release After_single 0 res resp, (bump shipped_registry 0, ()))"
    using 1 2 unfolding b by (simp only: numeral_2_eq_2 funpow.simps comp_apply id_apply)
  from one_job_advances [OF req(1) this, of 7] obtain s :: "unit server_t" where
    r: "server_reachable classic_driver_ops None 1 (shipped_registry, ()) s"
       "W_Running ?j (To_Release After_single 0 res resp) \<in> set (s_workers s)" by fastforce
  have d: "device_id (shipped_registry ! 0) = ''classic-1''" by (simp add: shipped_registry_def classic_1_def)
  from shipped_devices_deliver [OF devices_conf_loads r] d r show ?thesis by fastforce
qed

lemma hash_acquire:
  assumes "req_device_hint req = []"
  defines "q \<equiv> step_query req DOMAIN_HASH ACTION_HASH ''sm3'' [] DEV_UNKNOWN []"
  shows "req_preference req = PREF_EFFICIENT \<Longrightarrow> registry_acquire_candidate shipped_registry q = Some (bump shipped_registry 2, 2)"
    and "req_preference req = PREF_BALANCED \<Longrightarrow> registry_acquire_candidate shipped_registry q = Some (bump shipped_registry 0, 0)"
proof -
  have k: "key_ref_source_value [] = 0" by (simp add: key_ref_source_value_def key_ref_get_token_def)
  have u: "usable q DEV_CLASSIC classic_1" "\<not> usable q DEV_CLASSIC pqc_1" "usable q DEV_CLASSIC softlib_1"
    using hash_support by (simp_all add: q_def step_query_def usable_iff k) (simp_all add: shipped_devices)
  have h: "aq_device_hint q = []" "aq_preference q = req_preference req"
    using assms(1) by (simp_all add: q_def step_query_def)
  have o: "aq_fallback_order q = [DEV_CLASSIC, DEV_PQC]" if "req_preference req \<in> {PREF_EFFICIENT, PREF_BALANCED}"
    using that by (auto simp: q_def step_query_def build_order_def)
  have b: "better_candidate (Some classic_1) softlib_1 PREF_EFFICIENT"
      "\<not> better_candidate (Some classic_1) softlib_1 PREF_BALANCED"
    by (simp_all add: classic_1_def softlib_1_def)
  show "registry_acquire_candidate shipped_registry q = Some (bump shipped_registry 2, 2)"
    if "req_preference req = PREF_EFFICIENT"
    using u h o b that by (simp add: registry_acquire_candidate_def shipped_registry_def numeral_2_eq_2 del: better_candidate.simps(2))
  show "registry_acquire_candidate shipped_registry q = Some (bump shipped_registry 0, 0)"
    if "req_preference req = PREF_BALANCED"
    using u h o b that by (simp add: registry_acquire_candidate_def shipped_registry_def numeral_2_eq_2 del: better_candidate.simps(2))
qed

lemma softlib_hash_untranslated:
  assumes "idle_device d = idle_device softlib_1"
  shows "translate_backend_call DOMAIN_HASH ACTION_HASH ''sm3'' payload aux key_ref d esz
    = Inl (snprintf_s esz (no_rule_text softlib_1 DOMAIN_HASH ACTION_HASH ''sm3''))"
proof -
  have "find_rule softlib_1 DOMAIN_HASH ACTION_HASH ''sm3'' = None"
  proof (rule ccontr)
    assume "find_rule softlib_1 DOMAIN_HASH ACTION_HASH ''sm3'' \<noteq> None"
    then obtain r where "r \<in> set g_rules" "rule_matches softlib_1 DOMAIN_HASH ACTION_HASH ''sm3'' r"
      by (auto simp: find_rule_None)
    then have "(DOMAIN_HASH, ACTION_HASH, rule_algorithm r) \<in> set (rule_keys softlib_1)"
      by (auto simp: rule_keys_def rule_matches_iff intro!: image_eqI [of _ _ r])
    then show False by (simp add: rule_keys_shipped)
  qed
  then show ?thesis unfolding translate_idle [OF assms] by (simp add: translate_backend_call_def Let_def)
qed

lemma idle_nth_bump: "idle_device (bump reg i ! j) = idle_device (reg ! j)"
  by (cases "i < length reg") (auto simp: bump_def nth_list_update idle_device_def list_update_beyond)

lemma finish_response_device: "resp_selected_device (finish_response resp) = resp_selected_device resp"
  by (simp add: finish_response_def Let_def)

lemma balanced_hash_step:
  assumes "req_preference req = PREF_BALANCED" and "req_device_hint req = []"
    and "resolve_device_hint_from_key_ref req [] MAX_FIELD_LEN 256 = Inr []"
  shows "\<exists>resp. execute_single_step skf req DOMAIN_HASH ACTION_HASH ''sm3'' (req_payload req) (req_aux_payload req) []
     DEV_UNKNOWN (start_response req) 256 (shipped_registry, w) = (Inr (), resp, (shipped_registry, w))
     \<and> resp_selected_device resp = ''classic-1''"
proof -
  let ?d = "bump shipped_registry 0 ! 0"
  have idle: "idle_device ?d = idle_device classic_1"
    by (simp add: idle_nth_bump) (simp add: shipped_registry_def)
  have prof: "backend_profile ?d \<noteq> ''gm3000-skf''" and did: "device_id ?d = ''classic-1''"
    and ty: "device_type ?d = DEV_CLASSIC"
    using idle_fields [OF idle] by (simp_all add: classic_1_def)
  have "classic_1 \<in> set shipped_registry" "classic_1 \<noteq> softlib_1"
    by (simp add: shipped_registry_def) (simp add: classic_1_def softlib_1_def)
  then obtain t where t: "translate_backend_call DOMAIN_HASH ACTION_HASH ''sm3'' (Some (req_payload req))
      (Some (req_aux_payload req)) (Some []) ?d 256 = Inr t"
    using shipped_supports_translates hash_support(1) translate_idle [OF idle] by metis
  from served_dispatch [OF t prof, of "start_response req" 256 w] ty obtain s where
    s: "driver_dispatch classic_driver_ops DOMAIN_HASH ?d t (start_response req) 256 w
      = (Inr (), (fill_common ?d t (start_response req)) \<lparr> resp_result := snprintf_s MAX_RESPONSE_LEN s \<rparr>, w)" by auto
  have ops: "ops_for skf ?d = (classic_driver_ops :: 'a driver_ops_t)" using prof ty by (simp add: ops_for_def)
  have rel: "registry_release (bump shipped_registry 0) (device_id ?d) = shipped_registry"
    by (rule release_bump [OF shipped_wf(1)]) (simp add: shipped_registry_def)
  show ?thesis
    unfolding execute_single_step_def
    using assms(3) hash_acquire(2) [OF assms(2,1)] t s ops rel did
    by (simp add: Let_def fill_common_def snprintf_s_def MAX_RESPONSE_LEN_def)
qed

text \<open>
  Property C37. A device that offers what it cannot do: the shipped \<^verbatim>\<open>softlib-1\<close> offers \<^verbatim>\<open>hash:hash:sm3\<close>,
  for which the translator has no rule. It has the highest efficiency score, so on an idle
  gateway an SM3 hash with the preference \<^verbatim>\<open>efficient\<close> is always refused, although the same
  request with the balanced preference is served by \<^verbatim>\<open>classic-1\<close>.
\<close>

theorem efficient_hash_is_refused:
  assumes "req_domain req = DOMAIN_HASH" "req_action req = ACTION_HASH" "req_algorithm req = ''sm3''"
    "req_key_ref req = []" "req_device_hint req = []" "req_sequence req = []"
    "req_user_pin req = gateway_pin shipped_settings"
  shows "(req_preference req = PREF_EFFICIENT \<longrightarrow>
      scheduler_execute skf (Some shipped_settings) req (shipped_registry, w) =
        (False, build_error_response req STATUS_NO_RESOURCE
           (snprintf_s 256 (no_rule_text softlib_1 DOMAIN_HASH ACTION_HASH ''sm3'')), (shipped_registry, w)))
    \<and> (req_preference req = PREF_BALANCED \<longrightarrow>
      (\<exists>resp. scheduler_execute skf (Some shipped_settings) req (shipped_registry, w) = (True, resp, (shipped_registry, w))
         \<and> resp_selected_device resp = ''classic-1''))"
proof -
  have h: "resolve_device_hint_from_key_ref req [] MAX_FIELD_LEN 256 = Inr []"
    using assms(5) by (simp add: resolve_device_hint_from_key_ref_def key_ref_is_internal_index_def
        key_ref_get_token_def)
  have pin: "validate_gateway_pin (Some shipped_settings) req = Pin_Passed"
    using assms(1,7) by (simp add: validate_gateway_pin_def)
  have whole: "scheduler_execute skf (Some shipped_settings) req (shipped_registry, w) =
      (case execute_single_step skf req DOMAIN_HASH ACTION_HASH ''sm3'' (req_payload req) (req_aux_payload req) []
         DEV_UNKNOWN (start_response req) 256 (shipped_registry, w) of
        (Inl e, resp, st) \<Rightarrow> (False, build_error_response req STATUS_NO_RESOURCE e, st)
      | (Inr _, resp, st) \<Rightarrow> (True, finish_response resp, st))"
    using assms pin by (simp add: scheduler_execute_def start_response_def Let_def)
  show ?thesis
  proof (intro conjI impI)
    assume p: "req_preference req = PREF_EFFICIENT"
    have t: "translate_backend_call DOMAIN_HASH ACTION_HASH ''sm3'' payload aux key_ref (bump shipped_registry 2 ! 2) esz
        = Inl (snprintf_s esz (no_rule_text softlib_1 DOMAIN_HASH ACTION_HASH ''sm3''))" for payload aux key_ref esz
      by (rule softlib_hash_untranslated) (simp add: idle_nth_bump, simp add: shipped_registry_def)
    have rel: "registry_release (bump shipped_registry 2) (device_id (bump shipped_registry 2 ! 2)) = shipped_registry"
      by (rule release_bump [OF shipped_wf(1)]) (simp add: shipped_registry_def)
    show "scheduler_execute skf (Some shipped_settings) req (shipped_registry, w) =
        (False, build_error_response req STATUS_NO_RESOURCE
           (snprintf_s 256 (no_rule_text softlib_1 DOMAIN_HASH ACTION_HASH ''sm3'')), (shipped_registry, w))"
      unfolding whole execute_single_step_def
      using h hash_acquire(1) [OF assms(5) p] t rel by (simp add: Let_def)
  next
    assume "req_preference req = PREF_BALANCED"
    from balanced_hash_step [OF this assms(5) h, of skf w] obtain resp where
      r: "execute_single_step skf req DOMAIN_HASH ACTION_HASH ''sm3'' (req_payload req) (req_aux_payload req) []
         DEV_UNKNOWN (start_response req) 256 (shipped_registry, w) = (Inr (), resp, (shipped_registry, w))"
      "resp_selected_device resp = ''classic-1''" by (elim exE conjE)
    have "scheduler_execute skf (Some shipped_settings) req (shipped_registry, w) =
        (True, finish_response resp, (shipped_registry, w))"
      unfolding whole r(1) prod.case sum.case by (rule refl)
    with r(2) finish_response_device [of resp]
    show "\<exists>resp. scheduler_execute skf (Some shipped_settings) req (shipped_registry, w) = (True, resp, (shipped_registry, w))
         \<and> resp_selected_device resp = ''classic-1''" by metis
  qed
qed

theorem efficient_hash_is_refused_witness:
  "fst (scheduler_execute classic_driver_ops (Some shipped_settings)
     (sample_request \<lparr> req_user_pin := ''123456'', req_preference := PREF_EFFICIENT \<rparr>) (shipped_registry, ())) = False"
proof -
  let ?req = "sample_request \<lparr> req_user_pin := ''123456'', req_preference := PREF_EFFICIENT \<rparr>"
  have "req_domain ?req = DOMAIN_HASH" "req_action ?req = ACTION_HASH" "req_algorithm ?req = ''sm3''"
    "req_key_ref ?req = []" "req_device_hint ?req = []" "req_sequence ?req = []"
    "req_user_pin ?req = gateway_pin shipped_settings"
    by (simp_all add: sample_request_def zero_request_def shipped_settings_def)
  from efficient_hash_is_refused [OF this, of classic_driver_ops "()"] show ?thesis by simp
qed

end
