(* ===== verification/Token_Config.thy ===== *)
theory Token_Config
  imports Shipped_Configs
begin

text \<open>
  \<^verbatim>\<open>configs/gm3000-devices.conf\<close>, the table for the GM3000 token, loaded by the model: its
  capability list is longer than the buffer of the loader, the cut falls on a separator, and
  the second half of what the token can do is not there. The table gives the token to one worker
  at a time.
\<close>

subsection \<open>The file\<close>

definition gm3000_devices_conf :: string where
  "gm3000_devices_conf = concat (map (\<lambda>l. l @ [CHR 0x0A]) [
     ''# device_id,type,backend_profile,priority,enabled,max_inflight,security_score,efficiency'' @
       ''_score,capabilities'',
     ''gm3000-1,classic,gm3000-skf,300,1,1,90,60,device:get_device_info:auto|device:generate_ra'' @
       ''ndom:auto|key:get_private_key_access:auto|key:release_private_key_access:auto|key:genera'' @
       ''te_key_pair:sm2|key:generate_key_pair:rsa|key:generate_key_pair:kyber768|key:generate_ke'' @
       ''y_pair:mlkem768|key:generate_key_pair:dilithium3|key:export_public_key:sm2|key:export_pu'' @
       ''blic_key:rsa|key:import_key:auto|key:destroy_key:auto|asym:sign:sm2|asym:verify:sm2|asym'' @
       '':encrypt:sm2|asym:decrypt:sm2|asym:sign:rsa|asym:verify:rsa|asym:encrypt:rsa|asym:decryp'' @
       ''t:rsa|sym:encrypt:sm4-cbc|sym:decrypt:sm4-cbc|sym:encrypt:sm4-ecb|sym:decrypt:sm4-ecb|sy'' @
       ''m:mac:sm4-mac|hash:hash:sm3|hash:hash:sha256|file:create_file:auto|file:read_file:auto|f'' @
       ''ile:write_file:auto|file:delete_file:auto|pqc:sign:dilithium3|pqc:verify:dilithium3|pqc:'' @
       ''kem_encap:kyber768|pqc:kem_decap:kyber768|pqc:kem_encap:mlkem768|pqc:kem_decap:mlkem768''])"

definition gm3000_caps :: "capability_t list" where
  "gm3000_caps =
    [offers DOMAIN_DEVICE ACTION_GET_DEVICE_INFO ''auto'' 0xFFFFFFFF,
     offers DOMAIN_DEVICE ACTION_GENERATE_RANDOM ''auto'' 0xFFFFFFFF,
     offers DOMAIN_KEY ACTION_GET_PRIVATE_KEY_ACCESS ''auto'' 0xFFFFFFFF,
     offers DOMAIN_KEY ACTION_RELEASE_PRIVATE_KEY_ACCESS ''auto'' 0xFFFFFFFF,
     offers DOMAIN_KEY ACTION_GENERATE_KEY_PAIR ''sm2'' 0xFFFFFFFF,
     offers DOMAIN_KEY ACTION_GENERATE_KEY_PAIR ''rsa'' 0xFFFFFFFF,
     offers DOMAIN_KEY ACTION_GENERATE_KEY_PAIR ''kyber768'' 0xFFFFFFFF,
     offers DOMAIN_KEY ACTION_GENERATE_KEY_PAIR ''mlkem768'' 0xFFFFFFFF,
     offers DOMAIN_KEY ACTION_GENERATE_KEY_PAIR ''dilithium3'' 0xFFFFFFFF,
     offers DOMAIN_KEY ACTION_EXPORT_PUBLIC_KEY ''sm2'' 0xFFFFFFFF,
     offers DOMAIN_KEY ACTION_EXPORT_PUBLIC_KEY ''rsa'' 0xFFFFFFFF,
     offers DOMAIN_KEY ACTION_IMPORT_KEY ''auto'' 0xFFFFFFFF,
     offers DOMAIN_KEY ACTION_DESTROY_KEY ''auto'' 0xFFFFFFFF,
     offers DOMAIN_ASYM ACTION_SIGN ''sm2'' 0xFFFFFFFF,
     offers DOMAIN_ASYM ACTION_VERIFY ''sm2'' 0xFFFFFFFF,
     offers DOMAIN_ASYM ACTION_ENCRYPT ''sm2'' 0xFFFFFFFF,
     offers DOMAIN_ASYM ACTION_DECRYPT ''sm2'' 0xFFFFFFFF,
     offers DOMAIN_ASYM ACTION_SIGN ''rsa'' 0xFFFFFFFF,
     offers DOMAIN_ASYM ACTION_VERIFY ''rsa'' 0xFFFFFFFF,
     offers DOMAIN_ASYM ACTION_ENCRYPT ''rsa'' 0xFFFFFFFF,
     offers DOMAIN_ASYM ACTION_DECRYPT ''rsa'' 0xFFFFFFFF,
     offers DOMAIN_SYM ACTION_ENCRYPT ''sm4-cbc'' 0xFFFFFFFF]"

definition gm3000_lost_caps :: "capability_t list" where
  "gm3000_lost_caps =
    [offers DOMAIN_SYM ACTION_DECRYPT ''sm4-cbc'' 0xFFFFFFFF,
     offers DOMAIN_SYM ACTION_ENCRYPT ''sm4-ecb'' 0xFFFFFFFF,
     offers DOMAIN_SYM ACTION_DECRYPT ''sm4-ecb'' 0xFFFFFFFF,
     offers DOMAIN_SYM ACTION_MAC ''sm4-mac'' 0xFFFFFFFF,
     offers DOMAIN_HASH ACTION_HASH ''sm3'' 0xFFFFFFFF,
     offers DOMAIN_HASH ACTION_HASH ''sha256'' 0xFFFFFFFF,
     offers DOMAIN_FILE ACTION_CREATE_FILE ''auto'' 0xFFFFFFFF,
     offers DOMAIN_FILE ACTION_READ_FILE ''auto'' 0xFFFFFFFF,
     offers DOMAIN_FILE ACTION_WRITE_FILE ''auto'' 0xFFFFFFFF,
     offers DOMAIN_FILE ACTION_DELETE_FILE ''auto'' 0xFFFFFFFF,
     offers DOMAIN_PQC ACTION_SIGN ''dilithium3'' 0xFFFFFFFF,
     offers DOMAIN_PQC ACTION_VERIFY ''dilithium3'' 0xFFFFFFFF,
     offers DOMAIN_PQC ACTION_KEM_ENCAP ''kyber768'' 0xFFFFFFFF,
     offers DOMAIN_PQC ACTION_KEM_DECAP ''kyber768'' 0xFFFFFFFF,
     offers DOMAIN_PQC ACTION_KEM_ENCAP ''mlkem768'' 0xFFFFFFFF,
     offers DOMAIN_PQC ACTION_KEM_DECAP ''mlkem768'' 0xFFFFFFFF]"

definition gm3000_1 :: device_resource_t where
  "gm3000_1 =
     \<lparr>device_id = ''gm3000-1'', device_type = DEV_CLASSIC, backend_profile = ''gm3000-skf'',
      priority = 300, enabled = True, max_inflight = 1, inflight = 0, security_score = 90, efficiency_score = 60,
      caps = gm3000_caps\<rparr>"

subsection \<open>Loading it\<close>

definition cap_list_text :: "capability_t list \<Rightarrow> cstring" where
  "cap_list_text cs = join CHR ''|'' (map cap_text cs)"

lemmas cap_texts = cap_list_text_def gm3000_caps_def gm3000_lost_caps_def cap_text_def offers_def mask_text_def

lemma gm3000_numbers:
  "dec_int 1 = ''1''" "dec_int 60 = ''60''" "dec_int 90 = ''90''" "dec_int 300 = ''300''"
  by code_simp+

lemma gm3000_text:
  "gm3000_devices_conf = hd_line @ CHR 0x0A
     # line_with gm3000_1 (cap_list_text gm3000_caps @ CHR ''|'' # cap_list_text gm3000_lost_caps) @ [CHR 0x0A]"
  by (simp add: gm3000_devices_conf_def hd_line_def line_with_def gm3000_1_def device_fields_def gm3000_numbers cap_texts)

text \<open>The cut falls on a separator.\<close>

lemma kept_length: "length (cap_list_text gm3000_caps) = 511"
  by (simp add: cap_texts)

lemma gm3000_algorithms:
  "normalize_algorithm_name (Some ''sha256'') MAX_FIELD_LEN = Some ''sha256''"
  "normalize_algorithm_name (Some ''sm4-ecb'') MAX_FIELD_LEN = Some ''sm4-ecb''"
  "plain ''sha256''" "plain ''sm4-ecb''"
  by (code_simp, code_simp) (simp_all add: plain_def)

lemma gm3000_caps_writable: "list_all writable_cap gm3000_caps" "list_all writable_cap gm3000_lost_caps"
  by (simp_all add: gm3000_caps_def gm3000_lost_caps_def offers_writable algorithms plain_algorithms gm3000_algorithms)

lemma gm3000_text_length: "length (device_text gm3000_1) < 1023"
    "length (line_with gm3000_1 (cap_list_text gm3000_caps @ CHR ''|'' # cap_list_text gm3000_lost_caps)) < 1023"
  by (simp_all add: device_text_def line_with_def device_fields_def gm3000_1_def gm3000_numbers cap_texts)

lemma gm3000_writable: "writable_device gm3000_1"
  using gm3000_caps_writable(1) gm3000_text_length(1) kept_length
  by (simp add: writable_device_def gm3000_1_def plain_def int32_def size_defs cap_list_text_def)
    (simp add: gm3000_caps_def)

lemma cap_list_field:
  "field_ok (cap_list_text gm3000_caps @ CHR ''|'' # cap_list_text gm3000_lost_caps)"
proof -
  have "field_ok (cap_list_text gm3000_caps)" "field_ok (cap_list_text gm3000_lost_caps)"
    using gm3000_caps_writable unfolding cap_list_text_def
    by (intro caps_field; simp add: list_all_iff; simp add: gm3000_caps_def gm3000_lost_caps_def)+
  then show ?thesis by (simp add: field_ok_def)
qed

lemma gm3000_loads:
  "load_resources_from_file path (Some gm3000_devices_conf) registry_init esz = ([gm3000_1], Inr ())"
proof -
  let ?l = "line_with gm3000_1 (cap_list_text gm3000_caps @ CHR ''|'' # cap_list_text gm3000_lost_caps)"
  have "CHR 0x0A \<notin> set ?l" "no_nul ?l"
    using line_with_chars [OF gm3000_writable cap_list_field] by (auto simp: no_nul_def)
  then have "fgets_lines 1024 (?l @ [CHR 0x0A]) = [?l @ [CHR 0x0A]]"
    using fgets_lines_line [of ?l 1024 "[]"] gm3000_text_length(2) by simp
  moreover have "fgets_lines 1024 (hd_line @ CHR 0x0A # rest) = (hd_line @ [CHR 0x0A]) # fgets_lines 1024 rest" for rest
    by (rule fgets_lines_line) (simp_all add: hd_line_def)
  moreover have "parse_device_line esz (hd_line @ [CHR 0x0A]) = Inr None"
    by (simp add: parse_device_line_def hd_line_def starts_with_str_def)
  moreover have "parse_device_line esz (?l @ [CHR 0x0A]) = Inr (Some gm3000_1)"
    by (rule parse_device_line_with [OF gm3000_writable cap_list_field])
      (simp add: snprintf_s_def kept_length, simp add: cap_list_text_def gm3000_1_def)
  ultimately show ?thesis
    by (simp add: load_resources_from_file_def gm3000_text registry_init_def registry_add_def size_defs)
qed

lemma gm3000_wf: "wf_registry [gm3000_1]" "\<forall>d \<in> set [gm3000_1]. inflight d = 0"
  by (simp_all add: wf_registry_def gm3000_1_def size_defs)

subsection \<open>A request for the token\<close>

lemma token_line_accepted:
  "\<exists>req. accept_line (map Byte (json_object [(''request_id'', ''7''), (''domain'', ''asym''), (''action'', ''sign''),
       (''algorithm'', ''sm2''), (''payload'', ''abc'')]) @ [Byte CHR 0x0A]) = Inr req
     \<and> req_request_id req = ''7'' \<and> req_domain req = DOMAIN_ASYM \<and> req_action req = ACTION_SIGN
     \<and> req_algorithm req = ''sm2'' \<and> req_payload req = ''abc'' \<and> req_aux_payload req = []
     \<and> req_key_ref req = [] \<and> req_sequence req = [] \<and> req_device_hint req = [] \<and> req_user_pin req = []"
proof -
  let ?line = "json_object [(''request_id'', ''7''), (''domain'', ''asym''), (''action'', ''sign''), (''algorithm'', ''sm2''),
      (''payload'', ''abc'')]"
  have "case parse_request_json ?line 256 of Inl e \<Rightarrow> False
    | Inr req \<Rightarrow> req_request_id req = ''7'' \<and> req_domain req = DOMAIN_ASYM \<and> req_action req = ACTION_SIGN
        \<and> req_algorithm req = ''sm2'' \<and> req_payload req = ''abc'' \<and> req_aux_payload req = []
        \<and> req_key_ref req = [] \<and> req_sequence req = [] \<and> req_device_hint req = [] \<and> req_user_pin req = []"
    by code_simp
  moreover have "CHR 0x0A \<notin> set ?line" "take 2047 ?line = ?line" "c_string ?line = ?line" "?line \<noteq> []"
    by (simp_all add: json_object_def json_member_def quoted_def c_string_def)
  ultimately show ?thesis
    by (cases "parse_request_json ?line 256") (simp_all add: accept_line_def read_line_bytes)
qed

lemma token_acquired:
  assumes "req_device_hint req = []"
  shows "registry_acquire_candidate [gm3000_1] (step_query req DOMAIN_ASYM ACTION_SIGN ''sm2'' [] DEV_UNKNOWN [])
     = Some (bump [gm3000_1] 0, 0)"
proof -
  let ?q = "step_query req DOMAIN_ASYM ACTION_SIGN ''sm2'' [] DEV_UNKNOWN []"
  have k: "key_ref_source_value [] = 0" by (simp add: key_ref_source_value_def key_ref_get_token_def)
  let ?c = "offers DOMAIN_ASYM ACTION_SIGN ''sm2'' 0xFFFFFFFF"
  have "?c \<in> set gm3000_caps" "capability_matches ?c DOMAIN_ASYM ACTION_SIGN ''sm2'' 0"
    by (simp add: gm3000_caps_def) (simp add: capability_matches_iff offers_def)
  then have "device_supports gm3000_1 DOMAIN_ASYM ACTION_SIGN ''sm2'' 0"
    by (auto simp: device_supports_iff gm3000_1_def)
  then have u: "usable ?q DEV_CLASSIC gm3000_1" by (simp add: usable_iff step_query_def k) (simp add: gm3000_1_def)
  have "DEV_CLASSIC \<in> set (aq_fallback_order ?q)"
    by (cases "req_preference req") (simp_all add: step_query_def build_order_def)
  moreover have "aq_device_hint ?q = []" using assms by (simp add: step_query_def)
  ultimately have "registry_acquire_candidate [gm3000_1] ?q \<noteq> None" using u by (auto simp: acquire_None)
  then obtain reg' i where r: "registry_acquire_candidate [gm3000_1] ?q = Some (reg', i)" by fastforce
  from acquire_Some [OF r] r show ?thesis by simp
qed

text \<open>A request that takes the token, up to its call.\<close>

definition token_args :: call_args where
  "token_args = \<lparr>ca_domain = DOMAIN_ASYM, ca_action = ACTION_SIGN, ca_algorithm = ''sm2'', ca_payload = ''abc'',
     ca_type = DEV_UNKNOWN, ca_resp = zero_response \<lparr> resp_request_id := ''7'' \<rparr>\<rparr>"

lemma token_request:
  obtains evs req where "accept_line evs = Inr req" "req_key_ref req = []" "req_aux_payload req = []"
    "begin_execution None req = To_Acquire token_args After_single"
    "\<And>skf (w :: 'w). exec_step skf req (To_Acquire token_args After_single, ([gm3000_1], w))
       = (To_Call token_args After_single 0, (bump [gm3000_1] 0, w))"
proof -
  obtain evs req where req: "accept_line evs = Inr req" "req_request_id req = ''7''"
    "req_domain req = DOMAIN_ASYM" "req_action req = ACTION_SIGN" "req_algorithm req = ''sm2''" "req_payload req = ''abc''"
    "req_aux_payload req = []" "req_key_ref req = []" "req_sequence req = []" "req_device_hint req = []"
    using token_line_accepted by blast
  have b: "begin_execution None req = To_Acquire token_args After_single"
    using req by (simp add: begin_execution_def validate_gateway_pin_def token_args_def snprintf_s_def MAX_ID_LEN_def)
  have h: "resolve_device_hint_from_key_ref req [] MAX_FIELD_LEN 256 = Inr []"
    using req by (simp add: resolve_device_hint_from_key_ref_def key_ref_is_internal_index_def
        key_ref_get_token_def MAX_FIELD_LEN_def snprintf_s_def)
  have "exec_step skf req (To_Acquire token_args After_single, ([gm3000_1], w))
       = (To_Call token_args After_single 0, (bump [gm3000_1] 0, w))" for skf and w :: 'w
    using token_acquired [OF req(10)] req h by (simp add: acquire_step_def token_args_def)
  with that req b show thesis by blast
qed

subsection \<open>What is lost\<close>

lemma lost_not_kept:
  "list_all (\<lambda>c. list_all (\<lambda>k. cap_domain k \<noteq> cap_domain c \<or> cap_action k \<noteq> cap_action c
     \<or> cap_algorithm k \<noteq> cap_algorithm c \<and> cap_algorithm k \<noteq> ''auto'' \<and> cap_algorithm c \<noteq> ''auto'') gm3000_caps)
   gm3000_lost_caps"
  by (simp add: gm3000_caps_def gm3000_lost_caps_def offers_def)

lemma lost_unsupported:
  assumes "c \<in> set gm3000_lost_caps" and "capability_matches c dm act alg ks"
  shows "\<not> device_supports gm3000_1 dm act alg ks'"
  using assms lost_not_kept
  by (force simp: device_supports_iff capability_matches_iff list_all_iff gm3000_1_def)

lemma rule_keys_gm3000_1:
  "list_all (\<lambda>c. (cap_domain c, cap_action c, cap_algorithm c) \<in> set (rule_keys gm3000_1)) gm3000_lost_caps"
  by (simp add: rule_keys_def gm3000_1_def g_rules_def rule_def gm3000_lost_caps_def offers_def)

lemma lost_translated:
  assumes "c \<in> set gm3000_lost_caps" and "capability_matches c dm act alg ks"
  shows "\<exists>t. translate_backend_call dm act alg payload aux key_ref gm3000_1 esz = Inr t"
proof -
  have "rule_for gm3000_1 c" using assms(1) rule_keys_gm3000_1 by (auto simp: rule_for_def list_all_iff)
  from rule_for_translates [OF this assms(2)] show ?thesis by blast
qed

lemma lost_refused:
  assumes "c \<in> set gm3000_lost_caps" and "capability_matches c (req_domain req) (req_action req) (req_algorithm req) ks"
    and "req_sequence req = []"
  shows "\<not> fst (scheduler_execute skf settings req ([gm3000_1], w))"
proof
  assume ok: "fst (scheduler_execute skf settings req ([gm3000_1], w))"
  have "req_domain req \<noteq> DOMAIN_AUTH"
    using assms(1,2) by (auto simp: capability_matches_iff gm3000_lost_caps_def offers_def)
  then have "validate_gateway_pin settings req \<noteq> Pin_Answered r" for r
    by (auto simp: validate_gateway_pin_def split: option.splits)
  with ok assms(3) obtain resp resp' reg' w' where
    "execute_single_step skf req (req_domain req) (req_action req) (req_algorithm req) (req_payload req)
      (req_aux_payload req) (req_key_ref req) DEV_UNKNOWN resp 256 ([gm3000_1], w) = (Inr (), resp', (reg', w'))"
    by (auto simp: scheduler_execute_def Let_def split: pin_check.splits sum.splits prod.splits)
  then show False
  proof (rule step_Inr)
    fix hint i t
    assume "registry_acquire_candidate [gm3000_1] (step_query req (req_domain req) (req_action req) (req_algorithm req)
      (req_key_ref req) DEV_UNKNOWN hint) = Some (bump [gm3000_1] i, i)"
    from acquire_Some [OF this] lost_unsupported [OF assms(1,2)] show False by (auto simp: step_query_def)
  qed
qed

subsection \<open>Properties\<close>

text \<open>
  Property C38. The shipped table of the GM3000 token loses sixteen of its thirty-eight
  capabilities without a word: the loader reports success, but for every call one of them
  stands for (decryption with SM4, MACs, hashes, files and post-quantum operations), although
  the translator has a rule for it, a request is refused and no worker of the running gateway
  ever calls the device, in a single request or in a sequence.
\<close>

theorem gm3000_table_is_cut:
  assumes "load_resources_from_file path (Some gm3000_devices_conf) registry_init esz = (reg0, Inr ())"
    and "c \<in> set gm3000_lost_caps" and "capability_matches c dm act alg ks"
  shows "(\<exists>t. translate_backend_call dm act alg payload aux key_ref (reg0 ! 0) 256 = Inr t)
    \<and> (req_domain req = dm \<and> req_action req = act \<and> req_algorithm req = alg \<and> req_sequence req = []
         \<longrightarrow> \<not> fst (scheduler_execute skf settings req (reg0, w)))
    \<and> (server_reachable skf settings n (reg0, w) s \<and> W_Running j (To_Call a k i) \<in> set (s_workers s)
         \<longrightarrow> (ca_domain a, ca_action a, ca_algorithm a) \<noteq> (dm, act, alg))"
proof (intro conjI impI)
  have reg0: "reg0 = [gm3000_1]" using assms(1) gm3000_loads by simp
  show "\<exists>t. translate_backend_call dm act alg payload aux key_ref (reg0 ! 0) 256 = Inr t"
    using lost_translated [OF assms(2,3)] by (simp add: reg0)
  show "\<not> fst (scheduler_execute skf settings req (reg0, w))"
    if "req_domain req = dm \<and> req_action req = act \<and> req_algorithm req = alg \<and> req_sequence req = []"
    using lost_refused [OF assms(2), of req ks] assms(3) that by (simp add: reg0)
  assume r: "server_reachable skf settings n (reg0, w) s \<and> W_Running j (To_Call a k i) \<in> set (s_workers s)"
  have "map idle_device (fst (s_state u)) = map idle_device [gm3000_1]"
    if "server_reachable skf settings n ([gm3000_1], w) u" for u
    using server_registry [OF gm3000_wf that] by blast
  from fits.reachable_running [OF conjunct1 [OF r, unfolded reg0] conjunct2 [OF r] this]
  have "device_supports gm3000_1 (ca_domain a) (ca_action a) (ca_algorithm a)
      (key_ref_source_value (req_key_ref (job_request j)))" by (auto simp: fit_for_call_def)
  with lost_unsupported [OF assms(2,3)]
  show "(ca_domain a, ca_action a, ca_algorithm a) \<noteq> (dm, act, alg)" by auto
qed

theorem gm3000_table_is_cut_witness:
  "\<not> fst (scheduler_execute classic_driver_ops (Some shipped_settings)
      (sample_request \<lparr> req_user_pin := ''123456'' \<rparr>) ([gm3000_1], ()))"
proof -
  let ?req = "sample_request \<lparr> req_user_pin := ''123456'' \<rparr>"
  have r: "req_domain ?req = DOMAIN_HASH" "req_action ?req = ACTION_HASH" "req_algorithm ?req = ''sm3''"
    "req_sequence ?req = []"
    by (simp_all add: sample_request_def zero_request_def)
  have c: "offers DOMAIN_HASH ACTION_HASH ''sm3'' 0xFFFFFFFF \<in> set gm3000_lost_caps"
    "capability_matches (offers DOMAIN_HASH ACTION_HASH ''sm3'' 0xFFFFFFFF) DOMAIN_HASH ACTION_HASH ''sm3'' 0"
    by (simp_all add: gm3000_lost_caps_def capability_matches_iff offers_def)
  show ?thesis
    by (rule gm3000_table_is_cut [OF gm3000_loads c, THEN conjunct2, THEN conjunct1, THEN mp]) (simp add: r)
qed

text \<open>
  Property C11. With the shipped table of the GM3000 token the token has one user at a time.
  In every reachable state of the running server, however many workers there are and however
  they interleave, while a worker holds the token no other worker holds a device, and a step
  that changes the outside state (the library) is the call of that worker and of no other, so
  the sessions of two requests never overlap on the token.
\<close>

theorem token_has_one_user:
  assumes "load_resources_from_file path (Some gm3000_devices_conf) registry_init esz = (reg0, Inr ())"
    and "server_reachable skf settings n (reg0, w0) s"
    and "k < length (s_workers s)" and "s_workers s ! k = W_Running j pc" and "held_device pc \<noteq> {#}"
  shows "(\<forall>l < length (s_workers s). l \<noteq> k \<longrightarrow> worker_leases (s_workers s ! l) = {#})
    \<and> (\<forall>s'. server_step skf settings s s' \<longrightarrow> snd (s_state s') = snd (s_state s)
         \<or> (\<exists>a c. pc = To_Call a c 0)
           \<and> s_workers s' = (s_workers s)[k := W_Running j (fst (exec_step skf (job_request j) (pc, s_state s)))]
           \<and> s_state s' = snd (exec_step skf (job_request j) (pc, s_state s)))"
proof -
  have reg0: "reg0 = [gm3000_1]" using assms(1) gm3000_loads by simp
  note reach = assms(2) [unfolded reg0]
  have zero: "i = 0" if "l < length (s_workers s)" "holds i (s_workers s ! l)" for i l
    using holders_within_limit [OF gm3000_wf reach nth_mem [OF that(1)] that(2)] by simp
  obtain i where "i \<in># held_device pc" using assms(5) by blast
  then have k: "holds 0 (s_workers s ! k)" using zero [OF assms(3), of i] assms(4) by (simp add: holds_def)
  have only: "l = k" if "l < length (s_workers s)" "holds i (s_workers s ! l)" for i l
    using single_user [OF gm3000_wf reach _ assms(3) k that(1)] zero [OF that] that(2) by (simp add: gm3000_1_def)
  have "worker_leases (s_workers s ! l) = {#}" if "l < length (s_workers s)" "l \<noteq> k" for l
    using only [OF that(1)] that(2) by (metis holds_def multiset_nonemptyE)
  moreover have "(\<exists>a c. pc = To_Call a c 0)
      \<and> s_workers s' = (s_workers s)[k := W_Running j (fst (exec_step skf (job_request j) (pc, s_state s)))]
      \<and> s_state s' = snd (exec_step skf (job_request j) (pc, s_state s))"
    if "server_step skf settings s s'" "snd (s_state s') \<noteq> snd (s_state s)" for s'
  proof -
    from server_step_outside [OF that(1)] that(2) obtain l j' a c i where
      l: "l < length (s_workers s)" "s_workers s ! l = W_Running j' (To_Call a c i)"
      and e: "s_workers s' = (s_workers s)[l := W_Running j' (fst (exec_step skf (job_request j') (To_Call a c i, s_state s)))]"
        "s_state s' = snd (exec_step skf (job_request j') (To_Call a c i, s_state s))" by blast
    have "holds i (s_workers s ! l)" by (simp add: l(2) holds_def)
    with only [OF l(1)] zero [OF l(1)] have "l = k" "i = 0" by auto
    with l(2) e assms(4) show ?thesis by auto
  qed
  ultimately show ?thesis by blast
qed

theorem token_has_one_user_witness:
  "\<exists>s j. server_reachable classic_driver_ops None 1 ([gm3000_1], 0 :: nat) s
     \<and> s_workers s = [W_Running j (To_Call token_args After_single 0)]
     \<and> (\<forall>s'. server_step classic_driver_ops None s s' \<longrightarrow> snd (s_state s') = snd (s_state s)
          \<or> s_state s' = snd (exec_step classic_driver_ops (job_request j)
              (To_Call token_args After_single 0, s_state s)))"
proof -
  let ?ops = "classic_driver_ops :: nat driver_ops_t"
  obtain evs req where req: "accept_line evs = Inr req" "begin_execution None req = To_Acquire token_args After_single"
    "exec_step ?ops req (To_Acquire token_args After_single, ([gm3000_1], 0))
       = (To_Call token_args After_single 0, (bump [gm3000_1] 0, 0))"
    by (rule token_request [where 'w = nat]) blast
  let ?j = "\<lparr>job_client_fd = 7, job_request = req\<rparr>"
  have "(exec_step ?ops req ^^ 1) (begin_execution None req, ([gm3000_1], 0))
      = (To_Call token_args After_single 0, (bump [gm3000_1] 0, 0))" using req(2,3) by simp
  from one_job_advances [OF req(1) this, of 7] obtain s where
    r: "server_reachable ?ops None 1 ([gm3000_1], 0) s" "s_workers s = [W_Running ?j (To_Call token_args After_single 0)]"
    by fastforce
  with token_has_one_user [OF gm3000_loads r(1), of 0 ?j "To_Call token_args After_single 0"] show ?thesis
    by (intro exI [of _ s] exI [of _ ?j]) auto
qed

end
