(* ===== verification/Gateway_Tests.thy ===== *)
theory Gateway_Tests
  imports Shipped_Configs
begin

text \<open>
  The gateway tests of \<^verbatim>\<open>tests/test_runner.c\<close>, run on the model: each test is a definition that is
  true when its function returns 0, and a lemma that it is, for any adapter of SKF tokens and
  any outside state. They run from the bytes of the two shipped files and the text of a request
  to its response.
\<close>

subsection \<open>The tests\<close>

definition load_registry :: "resource_registry_t \<times> (cstring + unit)" where
  "load_registry = load_resources_from_file ''./configs/devices.conf'' (Some devices_conf) registry_init 128"

definition load_gateway :: "cstring + gateway_settings_t" where
  "load_gateway = load_gateway_settings ''./configs/gateway.conf'' (Some gateway_conf) 128"

text \<open>The common shape: load both files, parse the members as an object, execute, assert.\<close>

definition on_gateway ::
  "'w driver_ops_t \<Rightarrow> 'w \<Rightarrow> (cstring \<times> cstring) list \<Rightarrow> (bool \<Rightarrow> response_t \<Rightarrow> bool) \<Rightarrow> bool" where
  "on_gateway skf w members assertions =
     (case (load_registry, load_gateway, parse_request_json (json_object members) 128) of
        ((reg, Inr _), Inr gw, Inr req) \<Rightarrow>
          (case scheduler_execute skf (Some gw) req (reg, w) of (ok, resp, _) \<Rightarrow> assertions ok resp)
      | _ \<Rightarrow> False)"

definition contains :: "cstring \<Rightarrow> cstring \<Rightarrow> bool" where
  "contains hay needle \<longleftrightarrow> strstr hay needle \<noteq> None"

definition test_protocol_parse :: bool where
  "test_protocol_parse =
     (case parse_request_json (json_object
        [(''request_id'', ''r1''), (''domain'', ''asym''), (''action'', ''sign''), (''algorithm'', ''sm2''),
         (''key_ref'', ''k1''), (''payload'', ''abc''), (''user_pin'', ''123456''), (''preference'', ''balanced'')]) 128 of
        Inl _ \<Rightarrow> False
      | Inr req \<Rightarrow> req_domain req = DOMAIN_ASYM \<and> req_action req = ACTION_SIGN
          \<and> strcmp (req_algorithm req) ''sm2'' = 0 \<and> req_preference req = PREF_BALANCED
          \<and> strcmp (req_key_ref req) ''k1'' = 0)"

definition test_gateway_pin_check :: "'w driver_ops_t \<Rightarrow> 'w \<Rightarrow> bool" where
  "test_gateway_pin_check skf w = on_gateway skf w
     [(''request_id'', ''auth-1''), (''domain'', ''auth''), (''action'', ''check_pin''),
      (''user_pin'', ''123456'')]
     (\<lambda>ok resp. ok \<and> resp_status resp = STATUS_OK \<and> strcmp (resp_result resp) ''pin_ok'' = 0)"

definition test_classic_asym_sign :: "'w driver_ops_t \<Rightarrow> 'w \<Rightarrow> bool" where
  "test_classic_asym_sign skf w = on_gateway skf w
     [(''request_id'', ''r2''), (''domain'', ''asym''), (''action'', ''sign''),
      (''algorithm'', ''sm2''), (''key_ref'', ''k1''), (''payload'', ''hello''),
      (''user_pin'', ''123456'')]
     (\<lambda>ok resp. ok \<and> resp_status resp = STATUS_OK
        \<and> strcmp (resp_selected_device resp) ''classic-1'' = 0
        \<and> contains (resp_backend_call resp) ''SDF_InternalSign_ECC_Ex'')"

definition test_classic_sym_encrypt :: "'w driver_ops_t \<Rightarrow> 'w \<Rightarrow> bool" where
  "test_classic_sym_encrypt skf w = on_gateway skf w
     [(''request_id'', ''r3''), (''domain'', ''sym''), (''action'', ''encrypt''),
      (''algorithm'', ''sm4-cbc''), (''key_ref'', ''k1''), (''payload'', ''hello''),
      (''user_pin'', ''123456'')]
     (\<lambda>ok resp. ok \<and> contains (resp_backend_call resp) ''SDF_Encrypt''
        \<and> contains (resp_result resp) ''classic-sym-enc'')"

definition test_pqc_kem_variant :: "'w driver_ops_t \<Rightarrow> 'w \<Rightarrow> bool" where
  "test_pqc_kem_variant skf w = on_gateway skf w
     [(''request_id'', ''r4''), (''domain'', ''pqc''), (''action'', ''kem_encap''),
      (''algorithm'', ''ml-kem-768''), (''key_ref'', ''k2''), (''payload'', ''peer_pub''),
      (''user_pin'', ''123456'')]
     (\<lambda>ok resp. ok \<and> strcmp (resp_selected_device resp) ''pqc-1'' = 0
        \<and> contains (resp_backend_call resp) ''SDF_Encap_Kyber''
        \<and> contains (resp_result resp) ''pqc-kem-ct'')"

definition test_file_api :: "'w driver_ops_t \<Rightarrow> 'w \<Rightarrow> bool" where
  "test_file_api skf w = on_gateway skf w
     [(''request_id'', ''r5''), (''domain'', ''file''), (''action'', ''read_file''),
      (''key_ref'', ''cfg.bin''), (''user_pin'', ''123456''), (''device_hint'', ''classic-1'')]
     (\<lambda>ok resp. ok \<and> contains (resp_backend_call resp) ''SDF_ReadFile''
        \<and> contains (resp_result resp) ''classic-read-file'')"

definition test_sequence_mixed :: "'w driver_ops_t \<Rightarrow> 'w \<Rightarrow> bool" where
  "test_sequence_mixed skf w = on_gateway skf w
     [(''request_id'', ''r6''), (''domain'', ''asym''), (''action'', ''sign''),
      (''algorithm'', ''sm2''), (''key_ref'', ''k1''), (''payload'', ''hello''),
      (''user_pin'', ''123456''), (''sequence'', ''asym:sign:classic:sm2>pqc:sign:pqc:dilithium3'')]
     (\<lambda>ok resp. ok \<and> contains (resp_selected_device resp) ''classic-1>pqc-1''
        \<and> contains (resp_backend_call resp) ''SDF_InternalSign_ECC_Ex>SDF_Sign_Dilithium'')"

definition test_bad_pin :: "'w driver_ops_t \<Rightarrow> 'w \<Rightarrow> bool" where
  "test_bad_pin skf w = on_gateway skf w
     [(''request_id'', ''r7''), (''domain'', ''asym''), (''action'', ''sign''),
      (''algorithm'', ''sm2''), (''key_ref'', ''k1''), (''payload'', ''hello''),
      (''user_pin'', ''000000'')]
     (\<lambda>ok resp. \<not> ok \<and> resp_status resp = STATUS_UNAUTHORIZED)"

definition test_internal_index_requires_device_binding :: "'w driver_ops_t \<Rightarrow> 'w \<Rightarrow> bool" where
  "test_internal_index_requires_device_binding skf w = on_gateway skf w
     [(''request_id'', ''key-bind-1''), (''domain'', ''asym''), (''action'', ''sign''),
      (''algorithm'', ''sm2''), (''key_ref'', ''source=1;key_index=1''), (''payload'', ''hello''),
      (''user_pin'', ''123456'')]
     (\<lambda>ok resp. \<not> ok
        \<and> contains (resp_result resp) ''internal_index key requires device_id or device_hint'')"

definition test_internal_key_device_id_overrides_preference :: "'w driver_ops_t \<Rightarrow> 'w \<Rightarrow> bool" where
  "test_internal_key_device_id_overrides_preference skf w = on_gateway skf w
     [(''request_id'', ''key-bind-2''), (''domain'', ''hash''), (''action'', ''hash''),
      (''algorithm'', ''sm3''), (''key_ref'', ''source=1;key_index=7;device_id=pqc-1''),
      (''payload'', ''abc''), (''user_pin'', ''123456''), (''preference'', ''classic_first'')]
     (\<lambda>ok resp. ok \<and> strcmp (resp_selected_device resp) ''pqc-1'' = 0)"

definition test_external_only_device_rejects_internal_key_before_adapter :: "'w driver_ops_t \<Rightarrow> 'w \<Rightarrow> bool" where
  "test_external_only_device_rejects_internal_key_before_adapter skf w = on_gateway skf w
     [(''request_id'', ''softlib-1''), (''domain'', ''asym''), (''action'', ''sign''),
      (''algorithm'', ''sm2''), (''key_ref'', ''source=1;key_index=1''), (''payload'', ''hello''),
      (''user_pin'', ''123456''), (''device_hint'', ''softlib-1'')]
     (\<lambda>ok resp. \<not> ok \<and> contains (resp_result resp) ''no available device matches'')"

definition test_external_key_can_route_to_external_only_softlib :: "'w driver_ops_t \<Rightarrow> 'w \<Rightarrow> bool" where
  "test_external_key_can_route_to_external_only_softlib skf w = on_gateway skf w
     [(''request_id'', ''softlib-2''), (''domain'', ''asym''), (''action'', ''sign''),
      (''algorithm'', ''sm2''), (''key_ref'', ''source=3;external_key=0x1234''),
      (''payload'', ''hello''), (''user_pin'', ''123456''), (''device_hint'', ''softlib-1'')]
     (\<lambda>ok resp. ok \<and> strcmp (resp_selected_device resp) ''softlib-1'' = 0)"

subsection \<open>They pass\<close>

lemma files_load: "load_registry = (shipped_registry, Inr ())" "load_gateway = Inr shipped_settings"
  by (simp_all add: load_registry_def load_gateway_def devices_conf_loads gateway_conf_loads)

text \<open>A request whose members are all given is parsed by looking them up.\<close>

definition lookup_request :: "(cstring \<times> cstring) list \<Rightarrow> request_t option" where
  "lookup_request ms =
     (case (map_of ms ''request_id'', map_of ms ''domain'', map_of ms ''action'', map_of ms ''algorithm'') of
        (Some rid, Some dm, Some act, Some alg) \<Rightarrow>
          (case normalize_algorithm_name (Some alg) MAX_FIELD_LEN of
             None \<Rightarrow> None
           | Some alg' \<Rightarrow>
               if length rid < MAX_ID_LEN \<and> length dm < MAX_FIELD_LEN \<and> length act < MAX_FIELD_LEN
                  \<and> length alg < MAX_FIELD_LEN \<and> parse_domain (Some dm) \<noteq> DOMAIN_UNKNOWN
                  \<and> parse_action (Some act) \<noteq> ACTION_UNKNOWN
               then Some \<lparr>
                 req_request_id = rid, req_domain = parse_domain (Some dm),
                 req_action = parse_action (Some act), req_algorithm = alg',
                 req_key_ref = member_or_empty ms ''key_ref'' MAX_FIELD_LEN,
                 req_payload = member_or_empty ms ''payload'' MAX_PAYLOAD_LEN,
                 req_aux_payload = member_or_empty ms ''aux_payload'' MAX_PAYLOAD_LEN,
                 req_device_hint = member_or_empty ms ''device_hint'' MAX_FIELD_LEN,
                 req_user_pin = member_or_empty ms ''user_pin'' MAX_FIELD_LEN,
                 req_preference = parse_preference (Some (member_or_empty ms ''preference'' MAX_FIELD_LEN)),
                 req_sequence = member_or_empty ms ''sequence'' MAX_PAYLOAD_LEN\<rparr>
               else None)
      | _ \<Rightarrow> None)"

lemma lookup_request_parses:
  assumes "list_all (searchable ms) request_keys" and "lookup_request ms = Some req"
  shows "parse_request_json (json_object ms) esz = Inr req"
  using assms parse_request_json_object_aux [of ms _ _ _ _ _ esz]
  by (auto simp: lookup_request_def list_all_iff split: option.splits if_splits)

lemma on_gatewayI:
  assumes "list_all (searchable ms) request_keys"
    and "case lookup_request ms of None \<Rightarrow> False
      | Some req \<Rightarrow> (case scheduler_execute skf (Some shipped_settings) req (shipped_registry, w) of
          (ok, resp, _) \<Rightarrow> assertions ok resp)"
  shows "on_gateway skf w ms assertions"
  using assms(2) lookup_request_parses [OF assms(1)]
  by (auto simp: on_gateway_def files_load split: option.splits)

lemma test_protocol_parse_passes: test_protocol_parse
  by code_simp

lemma test_gateway_pin_check_passes: "test_gateway_pin_check skf w"
  unfolding test_gateway_pin_check_def on_gateway_def files_load by code_simp

lemma test_classic_asym_sign_passes: "test_classic_asym_sign skf w"
  unfolding test_classic_asym_sign_def by (rule on_gatewayI; code_simp)

lemma test_classic_sym_encrypt_passes: "test_classic_sym_encrypt skf w"
  unfolding test_classic_sym_encrypt_def by (rule on_gatewayI; code_simp)

lemma test_pqc_kem_variant_passes: "test_pqc_kem_variant skf w"
  unfolding test_pqc_kem_variant_def by (rule on_gatewayI; code_simp)

lemma test_file_api_passes: "test_file_api skf w"
  unfolding test_file_api_def on_gateway_def files_load by code_simp

lemma test_sequence_mixed_passes: "test_sequence_mixed skf w"
  unfolding test_sequence_mixed_def by (rule on_gatewayI; code_simp)

lemma test_bad_pin_passes: "test_bad_pin skf w"
  unfolding test_bad_pin_def by (rule on_gatewayI; code_simp)

lemma test_internal_index_requires_device_binding_passes: "test_internal_index_requires_device_binding skf w"
  unfolding test_internal_index_requires_device_binding_def by (rule on_gatewayI; code_simp)

lemma test_internal_key_device_id_overrides_preference_passes: "test_internal_key_device_id_overrides_preference skf w"
  unfolding test_internal_key_device_id_overrides_preference_def by (rule on_gatewayI; code_simp)

lemma test_external_only_device_rejects_internal_key_before_adapter_passes: "test_external_only_device_rejects_internal_key_before_adapter skf w"
  unfolding test_external_only_device_rejects_internal_key_before_adapter_def by (rule on_gatewayI; code_simp)

lemma test_external_key_can_route_to_external_only_softlib_passes: "test_external_key_can_route_to_external_only_softlib skf w"
  unfolding test_external_key_can_route_to_external_only_softlib_def by (rule on_gatewayI; code_simp)

end
