(* ===== verification/Client_Transport.thy ===== *)
theory Client_Transport
  imports Config_Loader Gateway_Server
begin

text \<open>
  The command-line client: \<^verbatim>\<open>src/client/transport/client_transport.c\<close>,
  \<^verbatim>\<open>src/client/core/client_core.c\<close> and \<^verbatim>\<open>src/client/api/client_api.c\<close>. It sends the first
  line of its input to the gateway's socket and prints the answer. The socket is modelled by
  the results of its calls in order: \<open>write_event\<close> for \<^verbatim>\<open>write\<close>, \<open>chunk_event\<close> for
  \<^verbatim>\<open>read\<close>. The lemmas follow one exchange from the client's input through the gateway's
  \<open>read_line\<close> and back to the client's output.
\<close>

subsection \<open>Transport\<close>

text \<open>The bytes sent, whether the return value is \<open>0\<close>, and the results of later calls.\<close>

fun client_write_all :: "cstring \<Rightarrow> write_event list \<Rightarrow> cstring \<times> bool \<times> write_event list" where
  "client_write_all buf [] = ([], buf = [], [])"
| "client_write_all buf (e # evs) =
     (if buf = [] then ([], True, e # evs)
      else case e of
        Write_interrupted \<Rightarrow> client_write_all buf evs
      | Write_error \<Rightarrow> ([], False, evs)
      | Wrote k \<Rightarrow>
          if k = 0 then ([], False, evs)
          else apfst (append (take k buf)) (client_write_all (drop k buf) evs))"

text \<open>
  \<open>Chunk bs\<close> is a \<^verbatim>\<open>read\<close> with the bytes \<open>bs\<close> waiting, of which it takes those that fit;
  after the last event the peer has closed.
\<close>

datatype chunk_event = Chunk string | Chunk_eof | Chunk_interrupted | Chunk_error

fun read_chunks :: "nat \<Rightarrow> string \<Rightarrow> chunk_event list \<Rightarrow> string option" where
  "read_chunks sz buf [] = Some buf"
| "read_chunks sz buf (e # evs) =
     (if \<not> length buf + 1 < sz then Some buf
      else case e of
        Chunk_interrupted \<Rightarrow> read_chunks sz buf evs
      | Chunk_error \<Rightarrow> None
      | Chunk_eof \<Rightarrow> Some buf
      | Chunk bs \<Rightarrow>
          (let got = take (sz - length buf - 1) bs in
           if got = [] then Some buf
           else if CHR 0x0A \<in> set (buf @ got) then Some (buf @ got)
           else read_chunks sz (buf @ got) evs))"

text \<open>The bytes before the NUL that ends them; \<open>None\<close> is the return value \<open>-1\<close>.\<close>

definition client_read_response :: "chunk_event list \<Rightarrow> nat \<Rightarrow> string option" where
  "client_read_response evs sz = (if sz = 0 then None else read_chunks sz [] evs)"

text \<open>
  \<open>sock\<close>: \<^verbatim>\<open>socket\<close> succeeds; \<open>connects p\<close>: \<^verbatim>\<open>connect\<close> to the path \<open>p\<close> does. The result is
  the bytes sent, and the response unless the return value is \<open>-1\<close>. No caller passes a null
  request or response.
\<close>

definition client_transport_send_unix_socket ::
  "bool \<Rightarrow> (cstring \<Rightarrow> bool) \<Rightarrow> cstring option \<Rightarrow> cstring \<Rightarrow> write_event list \<Rightarrow> chunk_event list \<Rightarrow> nat
     \<Rightarrow> cstring \<times> string option" where
  "client_transport_send_unix_socket sock connects socket_path request wevs revs response_size =
     (case socket_path of
        None \<Rightarrow> ([], None)
      | Some path \<Rightarrow>
          if response_size = 0 then ([], None)
          else if \<not> sock then ([], None)
          else if \<not> connects (snprintf_s 108 path) then ([], None)
          else
           (let (sent, ok, wevs') = client_write_all request wevs in
            if \<not> ok then (sent, None)
            else if request = [] \<or> last request \<noteq> CHR 0x0A
            then
             (let (sent', ok, wevs'') = client_write_all [CHR 0x0A] wevs' in
              if \<not> ok then (sent @ sent', None)
              else (sent @ sent', client_read_response revs response_size))
            else (sent, client_read_response revs response_size)))"

subsection \<open>Core and command line\<close>

text \<open>The exit code, the bytes sent and the text printed on the output.\<close>

definition client_core_run_once ::
  "bool \<Rightarrow> (cstring \<Rightarrow> bool) \<Rightarrow> cstring option \<Rightarrow> string \<Rightarrow> write_event list \<Rightarrow> chunk_event list
     \<Rightarrow> int \<times> cstring \<times> cstring" where
  "client_core_run_once sock connects socket_path inp wevs revs =
     (if socket_path = None then (1, [], [])
      else case fgets 2048 inp of
        None \<Rightarrow> (1, [], [])
      | Some (line, rest) \<Rightarrow>
          (case client_transport_send_unix_socket sock connects socket_path (c_string line) wevs revs 4096 of
             (sent, None) \<Rightarrow> (1, sent, [])
           | (sent, Some response) \<Rightarrow> (0, sent, c_string response)))"

definition client_main ::
  "bool \<Rightarrow> (cstring \<Rightarrow> bool) \<Rightarrow> cstring list \<Rightarrow> string \<Rightarrow> write_event list \<Rightarrow> chunk_event list
     \<Rightarrow> int \<times> cstring \<times> cstring" where
  "client_main sock connects argv inp wevs revs =
     (if length argv < 2 then (1, [], [])
      else client_core_run_once sock connects (Some (argv ! 1)) inp wevs revs)"

subsection \<open>One exchange\<close>

text \<open>Writes that make progress, at least one byte each time, enough of them for \<open>n\<close> bytes.\<close>

fun progress :: "write_event \<Rightarrow> bool" where
  "progress (Wrote k) \<longleftrightarrow> 0 < k"
| "progress Write_interrupted \<longleftrightarrow> True"
| "progress Write_error \<longleftrightarrow> False"

definition writes_enough :: "nat \<Rightarrow> write_event list \<Rightarrow> bool" where
  "writes_enough n evs \<longleftrightarrow> list_all progress evs \<and> n \<le> length (filter (\<lambda>e. e \<noteq> Write_interrupted) evs)"

lemma client_write_all_whole:
  "writes_enough (length buf) evs \<Longrightarrow> \<exists>evs'. client_write_all buf evs = (buf, True, evs')"
proof (induction evs arbitrary: buf)
  case Nil
  then show ?case by (simp add: writes_enough_def)
next
  case (Cons e evs)
  show ?case
  proof (cases "buf = []")
    case False
    show ?thesis
    proof (cases e)
      case (Wrote k)
      then have k: "0 < k" "writes_enough (length (drop k buf)) evs"
        using Cons.prems by (auto simp: writes_enough_def)
      from Cons.IH [OF k(2)] show ?thesis using Wrote k(1) False by auto
    next
      case Write_interrupted
      then have "writes_enough (length buf) evs" using Cons.prems by (simp add: writes_enough_def)
      from Cons.IH [OF this] show ?thesis using Write_interrupted False by simp
    next
      case Write_error
      then show ?thesis using Cons.prems by (simp add: writes_enough_def)
    qed
  qed simp
qed

text \<open>The client's writer is the gateway's.\<close>

lemma client_write_all_eq: "write_all buf evs = (let (sent, ok, evs') = client_write_all buf evs in (sent, ok))"
  by (induction buf evs rule: client_write_all.induct)
    (auto simp: Let_def split: write_event.splits prod.splits)

fun chunk_bytes :: "chunk_event \<Rightarrow> string" where
  "chunk_bytes (Chunk bs) = bs"
| "chunk_bytes _ = []"

definition delivers :: "chunk_event list \<Rightarrow> string \<Rightarrow> bool" where
  "delivers evs s \<longleftrightarrow> list_all (\<lambda>e. e = Chunk_interrupted \<or> chunk_bytes e \<noteq> []) evs
     \<and> concat (map chunk_bytes evs) = s"

text \<open>However a line is cut into chunks, the whole of it is read.\<close>

lemma read_chunks_line:
  "delivers evs s \<Longrightarrow> buf @ s = t @ [CHR 0x0A] \<Longrightarrow> CHR 0x0A \<notin> set t \<Longrightarrow> s \<noteq> [] \<Longrightarrow> length t + 2 \<le> sz
     \<Longrightarrow> read_chunks sz buf evs = Some (t @ [CHR 0x0A])"
proof (induction evs arbitrary: buf s)
  case Nil
  then show ?case by (simp add: delivers_def)
next
  case (Cons e evs)
  obtain s' where s': "s = s' @ [CHR 0x0A]" "t = buf @ s'"
    using Cons.prems(2,4) by (cases s rule: rev_cases) auto
  have room: "length buf + 1 < sz" using Cons.prems(5) s' by simp
  show ?case
  proof (cases e)
    case (Chunk bs)
    then obtain r where r: "s = bs @ r" "bs \<noteq> []" "delivers evs r"
      using Cons.prems(1) by (auto simp: delivers_def)
    have "length bs + length r = Suc (length s')" using arg_cong [OF r(1), of length] s'(1) by simp
    then have fits: "take (sz - length buf - 1) bs = bs" using Cons.prems(5) s'(2) by simp
    show ?thesis
    proof (cases "r = []")
      case True
      then have "buf @ bs = t @ [CHR 0x0A]" using r(1) Cons.prems(2) by simp
      then show ?thesis using Chunk fits r(2) room by (simp add: Let_def)
    next
      case False
      then obtain r' where r': "r = r' @ [CHR 0x0A]" "s' = bs @ r'"
        using r(1) s'(1) by (cases r rule: rev_cases) auto
      have "CHR 0x0A \<notin> set (buf @ bs)" using Cons.prems(3) s'(2) r'(2) by simp
      moreover have "read_chunks sz (buf @ bs) evs = Some (t @ [CHR 0x0A])"
        using Cons.IH [OF r(3), of "buf @ bs"] Cons.prems False r(1) by simp
      ultimately show ?thesis using Chunk fits r(2) room by (simp add: Let_def)
    qed
  next
    case Chunk_interrupted
    then have "delivers evs s" using Cons.prems(1) by (simp add: delivers_def)
    then show ?thesis using Cons.IH Cons.prems Chunk_interrupted room by simp
  qed (use Cons.prems(1) in \<open>simp_all add: delivers_def\<close>)
qed

lemma fgets_line: "CHR 0x0A \<notin> set l \<Longrightarrow> length l < 2047 \<Longrightarrow> fgets 2048 (l @ CHR 0x0A # rest) = Some (l @ [CHR 0x0A], rest)"
  by (simp add: fgets_def Let_def)

subsection \<open>Properties\<close>

text \<open>
  Property C17. One exchange is faithful in both directions. Whatever short writes, short reads
  and interruptions occur, as long as the connection makes progress, the gateway's
  \<^verbatim>\<open>read_line\<close> gets exactly the first line of the client's input, and the client prints exactly
  the line the gateway answers, and exits with 0. It holds for lines that fit the buffers.
\<close>

theorem client_exchange:
  assumes "CHR 0x0A \<notin> set l" and "no_nul l" and "length l < 2047"
    and "connects (snprintf_s 108 path)" and "writes_enough (length l + 1) wevs"
    and "CHR 0x0A \<notin> set t" and "no_nul t" and "length t + 2 \<le> 4096"
    and "delivers revs (t @ [CHR 0x0A])"
  shows "\<exists>sent. client_core_run_once True connects (Some path) (l @ CHR 0x0A # rest) wevs revs =
      (0, sent, t @ [CHR 0x0A])
    \<and> read_line 2047 (map Byte sent @ evs) = Some l"
proof -
  have "no_nul (l @ [CHR 0x0A])" using assms(2) by simp
  moreover obtain wevs' where "client_write_all (l @ [CHR 0x0A]) wevs = (l @ [CHR 0x0A], True, wevs')"
    using client_write_all_whole [of "l @ [CHR 0x0A]" wevs] assms(5) by auto
  moreover have "client_read_response revs 4096 = Some (t @ [CHR 0x0A])"
    using read_chunks_line [OF assms(9), of "[]" t 4096] assms(6,8) by (simp add: client_read_response_def)
  moreover have "no_nul (t @ [CHR 0x0A])" using assms(7) by simp
  ultimately have "client_core_run_once True connects (Some path) (l @ CHR 0x0A # rest) wevs revs =
      (0, l @ [CHR 0x0A], t @ [CHR 0x0A])"
    unfolding client_core_run_once_def fgets_line [OF assms(1,3)]
    by (simp only: client_transport_send_unix_socket_def option.case prod.case c_string_id assms(4) Let_def) simp
  moreover have "read_line 2047 (map Byte (l @ [CHR 0x0A]) @ evs) = Some l"
    using read_line_bytes [OF assms(1), of 2047 evs] assms(3) by simp
  ultimately show ?thesis by blast
qed

theorem client_exchange_witness:
  "\<exists>sent. client_core_run_once True (\<lambda>p. True) (Some ''/tmp/s'') ''ab\<newline>'' [Write_interrupted, Wrote 2, Wrote 7, Wrote 1]
      [Chunk ''o'', Chunk_interrupted, Chunk ''k\<newline>''] = (0, sent, ''ok\<newline>'')
    \<and> read_line 2047 (map Byte sent @ []) = Some ''ab''"
proof -
  have nl: "''\<newline>'' = [CHR 0x0A]" by simp
  have "writes_enough (length ''ab'' + 1) [Write_interrupted, Wrote 2, Wrote 7, Wrote 1]"
    by (simp add: writes_enough_def)
  moreover have "delivers [Chunk ''o'', Chunk_interrupted, Chunk ''k\<newline>''] (''ok'' @ [CHR 0x0A])"
    by (simp add: delivers_def)
  ultimately show ?thesis
    using client_exchange [of "''ab''" "\<lambda>p. True" "''/tmp/s''" _ "''ok''" _ "[]" "[]"] by simp
qed

end
