(* ===== verification/Ccm_Json.thy ===== *)
theory Ccm_Json
  imports Protocol_Response
begin

text \<open>
  \<^verbatim>\<open>src/client/api/ccm_api.c\<close>, first part, with the types of \<^verbatim>\<open>include/ccm.h\<close>: the texts the
  client library builds for algorithm parameters, key references and buffers, and the request
  line made of them. A text under construction is the C string in its array of \<open>sz\<close> bytes;
  a writer returns its status and the text it leaves, the cut text of a failed
  \<^verbatim>\<open>snprintf\<close> included, since some callers ignore the status. The lemmas show that every
  writer is one bounded write of a rendered text.
\<close>

subsection \<open>Types\<close>

datatype ccm_status =
  CCM_OK | CCM_ERR_INVALID_ARGUMENT | CCM_ERR_UNSUPPORTED_ALGORITHM | CCM_ERR_BUFFER_TOO_SMALL

datatype ccm_algorithm_id_t =
    CCM_ALG_AUTO | CCM_ALG_SM2 | CCM_ALG_SM2_SIGN | CCM_ALG_SM2_ENC | CCM_ALG_RSA
  | CCM_ALG_RSA_SIGN | CCM_ALG_RSA_ENC | CCM_ALG_SM3 | CCM_ALG_SHA256 | CCM_ALG_SM4_CBC
  | CCM_ALG_SM4_ECB | CCM_ALG_SM4_MAC | CCM_ALG_AES_CBC | CCM_ALG_AES_ECB | CCM_ALG_KYBER512
  | CCM_ALG_KYBER768 | CCM_ALG_KYBER1024 | CCM_ALG_MLKEM768 | CCM_ALG_DILITHIUM2
  | CCM_ALG_DILITHIUM3 | CCM_ALG_DILITHIUM5 | CCM_ALG_SM9

text \<open>The enumeration constants in the order of their values, from 0.\<close>

definition ccm_algorithm_ids :: "ccm_algorithm_id_t list" where
  "ccm_algorithm_ids =
     [CCM_ALG_AUTO, CCM_ALG_SM2, CCM_ALG_SM2_SIGN, CCM_ALG_SM2_ENC, CCM_ALG_RSA,
      CCM_ALG_RSA_SIGN, CCM_ALG_RSA_ENC, CCM_ALG_SM3, CCM_ALG_SHA256, CCM_ALG_SM4_CBC,
      CCM_ALG_SM4_ECB, CCM_ALG_SM4_MAC, CCM_ALG_AES_CBC, CCM_ALG_AES_ECB, CCM_ALG_KYBER512,
      CCM_ALG_KYBER768, CCM_ALG_KYBER1024, CCM_ALG_MLKEM768, CCM_ALG_DILITHIUM2,
      CCM_ALG_DILITHIUM3, CCM_ALG_DILITHIUM5, CCM_ALG_SM9]"

datatype ccm_key_usage_t =
    CCM_KEY_USAGE_NONE | CCM_KEY_USAGE_SIGN | CCM_KEY_USAGE_VERIFY | CCM_KEY_USAGE_ENCRYPT
  | CCM_KEY_USAGE_DECRYPT | CCM_KEY_USAGE_WRAP | CCM_KEY_USAGE_DERIVE | CCM_KEY_USAGE_KEM
  | CCM_KEY_USAGE_AGREEMENT

fun key_usage_value :: "ccm_key_usage_t \<Rightarrow> 32 word" where
  "key_usage_value CCM_KEY_USAGE_NONE = 0"
| "key_usage_value CCM_KEY_USAGE_SIGN = 1"
| "key_usage_value CCM_KEY_USAGE_VERIFY = 2"
| "key_usage_value CCM_KEY_USAGE_ENCRYPT = 3"
| "key_usage_value CCM_KEY_USAGE_DECRYPT = 4"
| "key_usage_value CCM_KEY_USAGE_WRAP = 5"
| "key_usage_value CCM_KEY_USAGE_DERIVE = 6"
| "key_usage_value CCM_KEY_USAGE_KEM = 7"
| "key_usage_value CCM_KEY_USAGE_AGREEMENT = 8"

datatype ccm_key_source_t =
    CCM_KEY_SOURCE_NONE | CCM_KEY_SOURCE_INTERNAL_INDEX | CCM_KEY_SOURCE_SESSION_HANDLE
  | CCM_KEY_SOURCE_EXTERNAL_KEY | CCM_KEY_SOURCE_MANAGED_KEY

fun key_source_value :: "ccm_key_source_t \<Rightarrow> 32 word" where
  "key_source_value CCM_KEY_SOURCE_NONE = 0"
| "key_source_value CCM_KEY_SOURCE_INTERNAL_INDEX = 1"
| "key_source_value CCM_KEY_SOURCE_SESSION_HANDLE = 2"
| "key_source_value CCM_KEY_SOURCE_EXTERNAL_KEY = 3"
| "key_source_value CCM_KEY_SOURCE_MANAGED_KEY = 4"

datatype ccm_cipher_mode_t =
    CCM_MODE_NONE | CCM_MODE_ECB | CCM_MODE_CBC | CCM_MODE_CTR | CCM_MODE_GCM | CCM_MODE_CCM
  | CCM_MODE_OFB | CCM_MODE_CFB

fun mode_value :: "ccm_cipher_mode_t \<Rightarrow> 32 word" where
  "mode_value CCM_MODE_NONE = 0"
| "mode_value CCM_MODE_ECB = 1"
| "mode_value CCM_MODE_CBC = 2"
| "mode_value CCM_MODE_CTR = 3"
| "mode_value CCM_MODE_GCM = 4"
| "mode_value CCM_MODE_CCM = 5"
| "mode_value CCM_MODE_OFB = 6"
| "mode_value CCM_MODE_CFB = 7"

datatype ccm_padding_t = CCM_PADDING_NONE | CCM_PADDING_PKCS7 | CCM_PADDING_PSS | CCM_PADDING_OAEP

fun padding_value :: "ccm_padding_t \<Rightarrow> 32 word" where
  "padding_value CCM_PADDING_NONE = 0"
| "padding_value CCM_PADDING_PKCS7 = 1"
| "padding_value CCM_PADDING_PSS = 2"
| "padding_value CCM_PADDING_OAEP = 3"

text \<open>A pointer is its 64-bit value; it is only printed or compared with \<^verbatim>\<open>NULL\<close>.\<close>

type_synonym c_ptr = "64 word"

record Unif_KeyRef =
  key_uiAlgID :: "32 word"
  key_uiUsage :: "32 word"
  key_uiSource :: "32 word"
  key_uiKeyIndex :: "32 word"
  key_hKeyHandle :: c_ptr
  key_pExternalKey :: c_ptr
  key_szKeyId :: cstring
  key_szDeviceId :: cstring

record Unif_Buffer =
  buf_pucData :: c_ptr
  buf_uiDataLen :: "32 word"

record Unif_AlgParams =
  alg_uiAlgID :: "32 word"
  alg_uiMode :: "32 word"
  alg_uiPadding :: "32 word"
  alg_uiHashAlgID :: "32 word"
  alg_uiSecurityLevel :: "32 word"
  alg_pExParams :: c_ptr

record ccm_json_options_t =
  opt_request_id :: cstring
  opt_key_ref :: cstring
  opt_payload :: cstring
  opt_aux_payload :: cstring
  opt_device_hint :: cstring
  opt_preference :: cstring
  opt_sequence :: cstring

subsection \<open>Writers\<close>

text \<open>\<^verbatim>\<open>%lx\<close>, and \<^verbatim>\<open>%p\<close> as glibc prints it.\<close>

fun hex_nat :: "nat \<Rightarrow> cstring" where
  "hex_nat n = (if n < 16 then [hex_char n] else hex_nat (n div 16) @ [hex_char (n mod 16)])"

declare hex_nat.simps [simp del]

definition fmt_ptr :: "c_ptr \<Rightarrow> cstring" where
  "fmt_ptr p = (if p = 0 then ''(nil)'' else ''0x'' @ hex_nat (unat p))"

text \<open>
  \<^verbatim>\<open>n = snprintf(out + used, out_sz - used, ...)\<close> on the end of a text, with the test for
  \<^verbatim>\<open>n >= out_sz - used\<close>: the text gets what fits.
\<close>

definition sn_append :: "nat \<Rightarrow> cstring \<Rightarrow> cstring \<Rightarrow> ccm_status \<times> cstring" where
  "sn_append sz buf s =
     (if sz - length buf \<le> length s then CCM_ERR_BUFFER_TOO_SMALL else CCM_OK,
      buf @ take (sz - length buf - 1) s)"

text \<open>\<^verbatim>\<open>if (first != CCM_OK) return CCM_ERR_BUFFER_TOO_SMALL;\<close> and the next writer.\<close>

definition ccm_then :: "ccm_status \<times> 'a \<Rightarrow> ('a \<Rightarrow> ccm_status \<times> 'a) \<Rightarrow> ccm_status \<times> 'a" where
  "ccm_then r f = (case r of (CCM_OK, buf) \<Rightarrow> f buf | (_, buf) \<Rightarrow> (CCM_ERR_BUFFER_TOO_SMALL, buf))"

text \<open>\<^verbatim>\<open>out == NULL\<close> is the size 0, which the code treats alike.\<close>

definition copy_out :: "cstring \<Rightarrow> nat \<Rightarrow> ccm_status \<times> cstring" where
  "copy_out value out_sz =
     (if out_sz = 0 then (CCM_ERR_INVALID_ARGUMENT, []) else sn_append out_sz [] value)"

definition append_token :: "nat \<Rightarrow> cstring \<Rightarrow> 32 word \<Rightarrow> cstring \<Rightarrow> ccm_status \<times> cstring" where
  "append_token sz name value out =
     sn_append sz out ((if out = [] then [] else '';'') @ name @ ''='' @ dec_nat (unat value))"

definition append_ptr :: "nat \<Rightarrow> cstring \<Rightarrow> c_ptr \<Rightarrow> cstring \<Rightarrow> ccm_status \<times> cstring" where
  "append_ptr sz name p out =
     sn_append sz out ((if out = [] then [] else '';'') @ name @ ''='' @ fmt_ptr p)"

fun algorithm_text :: "ccm_algorithm_id_t \<Rightarrow> cstring" where
  "algorithm_text CCM_ALG_AUTO = ''auto''"
| "algorithm_text CCM_ALG_SM2 = ''sm2''"
| "algorithm_text CCM_ALG_SM2_SIGN = ''sm2''"
| "algorithm_text CCM_ALG_SM2_ENC = ''sm2''"
| "algorithm_text CCM_ALG_RSA = ''rsa''"
| "algorithm_text CCM_ALG_RSA_SIGN = ''rsa''"
| "algorithm_text CCM_ALG_RSA_ENC = ''rsa''"
| "algorithm_text CCM_ALG_SM3 = ''sm3''"
| "algorithm_text CCM_ALG_SHA256 = ''sha256''"
| "algorithm_text CCM_ALG_SM4_CBC = ''sm4-cbc''"
| "algorithm_text CCM_ALG_SM4_ECB = ''sm4-ecb''"
| "algorithm_text CCM_ALG_SM4_MAC = ''sm4-mac''"
| "algorithm_text CCM_ALG_AES_CBC = ''aes-cbc''"
| "algorithm_text CCM_ALG_AES_ECB = ''aes-ecb''"
| "algorithm_text CCM_ALG_KYBER512 = ''kyber512''"
| "algorithm_text CCM_ALG_KYBER768 = ''kyber768''"
| "algorithm_text CCM_ALG_KYBER1024 = ''kyber1024''"
| "algorithm_text CCM_ALG_MLKEM768 = ''mlkem768''"
| "algorithm_text CCM_ALG_DILITHIUM2 = ''dilithium2''"
| "algorithm_text CCM_ALG_DILITHIUM3 = ''dilithium3''"
| "algorithm_text CCM_ALG_DILITHIUM5 = ''dilithium5''"
| "algorithm_text CCM_ALG_SM9 = ''sm9''"

definition CCM_AlgorithmName :: "32 word \<Rightarrow> nat \<Rightarrow> ccm_status \<times> cstring" where
  "CCM_AlgorithmName uiAlgID out_sz =
     (if unat uiAlgID < length ccm_algorithm_ids
      then copy_out (algorithm_text (ccm_algorithm_ids ! unat uiAlgID)) out_sz
      else (CCM_ERR_UNSUPPORTED_ALGORITHM, []))"

definition init_opts :: "cstring \<Rightarrow> ccm_json_options_t" where
  "init_opts request_id =
     \<lparr>opt_request_id = snprintf_s 64 request_id, opt_key_ref = [], opt_payload = [],
      opt_aux_payload = [], opt_device_hint = [], opt_preference = [], opt_sequence = []\<rparr>"

text \<open>\<^verbatim>\<open>*pos\<close> is the length of the text.\<close>

definition append_raw :: "nat \<Rightarrow> cstring \<Rightarrow> cstring \<Rightarrow> ccm_status \<times> cstring" where
  "append_raw sz s out = sn_append sz out s"

text \<open>The escapes are those of the gateway's writer, character by character.\<close>

fun append_json_string :: "nat \<Rightarrow> cstring \<Rightarrow> cstring \<Rightarrow> ccm_status \<times> cstring" where
  "append_json_string sz [] out = (CCM_OK, out)"
| "append_json_string sz (c # p) out =
     ccm_then (append_raw sz (escape_char c) out) (append_json_string sz p)"

definition append_field :: "nat \<Rightarrow> cstring \<Rightarrow> cstring \<Rightarrow> bool \<Rightarrow> cstring \<Rightarrow> ccm_status \<times> cstring" where
  "append_field sz name value comma out =
     ccm_then (append_raw sz (if comma then [CHR '','', CHR 0x22] else [CHR 0x22]) out) (\<lambda>out.
     ccm_then (append_raw sz name out) (\<lambda>out.
     ccm_then (append_raw sz [CHR 0x22, CHR '':'', CHR 0x22] out) (\<lambda>out.
     ccm_then (append_json_string sz value out) (append_raw sz [CHR 0x22]))))"

text \<open>A member that is written only when its text is not empty.\<close>

definition append_opt_field :: "nat \<Rightarrow> cstring \<Rightarrow> cstring \<Rightarrow> cstring \<Rightarrow> ccm_status \<times> cstring" where
  "append_opt_field sz name value out =
     (if value = [] then (CCM_OK, out) else append_field sz name value True out)"

text \<open>No caller passes a null domain, action or output.\<close>

definition build_json ::
  "cstring \<Rightarrow> cstring \<Rightarrow> 32 word \<Rightarrow> ccm_json_options_t \<Rightarrow> nat \<Rightarrow> ccm_status \<times> cstring" where
  "build_json dm act uiAlgID opts out_sz =
     (let alg = (if uiAlgID = 0 then 0 else uiAlgID) in
      if out_sz = 0 \<or> opt_request_id opts = [] then (CCM_ERR_INVALID_ARGUMENT, [])
      else
     (case CCM_AlgorithmName alg 64 of
        (CCM_OK, algorithm) \<Rightarrow>
          ccm_then (append_raw out_sz ''{'' []) (\<lambda>out.
          ccm_then (append_field out_sz ''request_id'' (opt_request_id opts) False out) (\<lambda>out.
          ccm_then (append_field out_sz ''domain'' dm True out) (\<lambda>out.
          ccm_then (append_field out_sz ''action'' act True out) (\<lambda>out.
          ccm_then (append_field out_sz ''algorithm'' algorithm True out) (\<lambda>out.
          ccm_then (append_opt_field out_sz ''key_ref'' (opt_key_ref opts) out) (\<lambda>out.
          ccm_then (append_opt_field out_sz ''payload'' (opt_payload opts) out) (\<lambda>out.
          ccm_then (append_opt_field out_sz ''aux_payload'' (opt_aux_payload opts) out) (\<lambda>out.
          ccm_then (append_opt_field out_sz ''device_hint'' (opt_device_hint opts) out) (\<lambda>out.
          ccm_then (append_opt_field out_sz ''preference'' (opt_preference opts) out) (\<lambda>out.
          ccm_then (append_opt_field out_sz ''sequence'' (opt_sequence opts) out)
            (append_raw out_sz [CHR ''}'', CHR 0x0A])))))))))))
      | _ \<Rightarrow> (CCM_ERR_UNSUPPORTED_ALGORITHM, [])))"

definition alg_or_auto :: "Unif_AlgParams option \<Rightarrow> 32 word" where
  "alg_or_auto pAlgParams =
     (case pAlgParams of None \<Rightarrow> 0 | Some a \<Rightarrow> if alg_uiAlgID a = 0 then 0 else alg_uiAlgID a)"

definition append_alg_params :: "nat \<Rightarrow> Unif_AlgParams \<Rightarrow> cstring \<Rightarrow> ccm_status \<times> cstring" where
  "append_alg_params sz a out =
     ccm_then (append_token sz ''mode'' (alg_uiMode a) out) (\<lambda>out.
     ccm_then (append_token sz ''padding'' (alg_uiPadding a) out) (\<lambda>out.
     ccm_then (append_token sz ''hash_alg'' (alg_uiHashAlgID a) out) (\<lambda>out.
     ccm_then (append_token sz ''security_level'' (alg_uiSecurityLevel a) out)
       (append_ptr sz ''ex_params'' (alg_pExParams a)))))"

definition append_key_ref :: "nat \<Rightarrow> Unif_KeyRef \<Rightarrow> cstring \<Rightarrow> ccm_status \<times> cstring" where
  "append_key_ref sz k out =
     ccm_then (append_token sz ''alg'' (key_uiAlgID k) out) (\<lambda>out.
     ccm_then (append_token sz ''usage'' (key_uiUsage k) out) (\<lambda>out.
     ccm_then (append_token sz ''source'' (key_uiSource k) out) (\<lambda>out.
     ccm_then (append_token sz ''key_index'' (key_uiKeyIndex k) out) (\<lambda>out.
     ccm_then (append_ptr sz ''key_handle'' (key_hKeyHandle k) out) (\<lambda>out.
     ccm_then (append_ptr sz ''external_key'' (key_pExternalKey k) out) (\<lambda>out.
     ccm_then (if key_szKeyId k \<noteq> []
               then ccm_then (append_raw sz (if out \<noteq> [] then '';key_id='' else ''key_id='') out)
                      (append_raw sz (key_szKeyId k))
               else (CCM_OK, out)) (\<lambda>out.
     if key_szDeviceId k \<noteq> []
     then ccm_then (append_raw sz (if out \<noteq> [] then '';device_id='' else ''device_id='') out)
            (append_raw sz (key_szDeviceId k))
     else (CCM_OK, out))))))))"

definition append_buffer :: "nat \<Rightarrow> cstring \<Rightarrow> Unif_Buffer \<Rightarrow> cstring \<Rightarrow> ccm_status \<times> cstring" where
  "append_buffer sz name b out =
     ccm_then (append_ptr sz name (buf_pucData b) out) (append_token sz ''len'' (buf_uiDataLen b))"

subsection \<open>One bounded write\<close>

text \<open>
  From every text in \<open>P\<close> that its array holds, the writer \<open>f\<close> does what one write of
  \<open>s\<close> does: same status, same text, cut at the same byte.
\<close>

definition writes :: "(cstring \<Rightarrow> bool) \<Rightarrow> nat \<Rightarrow> (cstring \<Rightarrow> ccm_status \<times> cstring) \<Rightarrow> cstring \<Rightarrow> bool" where
  "writes P sz f s \<longleftrightarrow> (\<forall>out. P out \<and> length out < sz \<longrightarrow> f out = sn_append sz out s)"

named_theorems ccm_write "writers that amount to one bounded write"

abbreviation any_text :: "cstring \<Rightarrow> bool" where
  "any_text \<equiv> \<lambda>out. True"

abbreviation some_text :: "cstring \<Rightarrow> bool" where
  "some_text \<equiv> \<lambda>out. out \<noteq> []"

lemma writesD: "writes P sz f s \<Longrightarrow> P out \<Longrightarrow> length out < sz \<Longrightarrow> f out = sn_append sz out s"
  by (simp add: writes_def)

lemma sn_append_OK:
  "sn_append sz buf s = (CCM_OK, t) \<longleftrightarrow> t = buf @ s \<and> length t < sz"
  by (auto simp: sn_append_def)

lemma ccm_then_OK [simp]: "ccm_then (CCM_OK, buf) f = f buf"
  by (simp add: ccm_then_def)

lemma writes_raw [ccm_write]: "writes P sz (append_raw sz s) s"
  by (simp add: writes_def append_raw_def)

lemma writes_nothing [ccm_write]: "writes P sz (Pair CCM_OK) []"
  by (simp add: writes_def sn_append_def)

lemma writes_then:
  assumes "writes P sz f s" and "writes Q sz g t" and "\<And>out. P out \<Longrightarrow> Q (out @ s)"
  shows "writes P sz (\<lambda>out. ccm_then (f out) g) (s @ t)"
  using assms by (auto simp: writes_def ccm_then_def sn_append_def)

lemma writes_fields [ccm_write]:
  "writes any_text sz f s \<Longrightarrow> writes any_text sz g t \<Longrightarrow> writes any_text sz (\<lambda>out. ccm_then (f out) g) (s @ t)"
  by (rule writes_then)

lemma append_json_string_write [ccm_write]: "writes any_text sz (append_json_string sz s) (escape s)"
proof (induction s)
  case Nil
  have "append_json_string sz [] = Pair CCM_OK" by (rule ext) simp
  then show ?case by (simp add: writes_nothing)
next
  case (Cons c s)
  have "append_json_string sz (c # s) =
      (\<lambda>out. ccm_then (append_raw sz (escape_char c) out) (append_json_string sz s))" by (rule ext) simp
  with Cons show ?case by (simp add: ccm_write)
qed

definition field_text :: "cstring \<Rightarrow> cstring \<Rightarrow> bool \<Rightarrow> cstring" where
  "field_text name value comma = (if comma then '','' else []) @ render_field name value"

lemma append_field_write [ccm_write]:
  "writes any_text sz (append_field sz name value comma) (field_text name value comma)"
proof -
  let ?lead = "if comma then [CHR '','', CHR 0x22] else [CHR 0x22]"
  have "writes any_text sz (append_field sz name value comma)
      (?lead @ name @ [CHR 0x22, CHR '':'', CHR 0x22] @ escape value @ [CHR 0x22])"
    unfolding append_field_def by (intro ccm_write)
  moreover have "?lead @ name @ [CHR 0x22, CHR '':'', CHR 0x22] @ escape value @ [CHR 0x22] =
      field_text name value comma"
    by (simp add: field_text_def render_field_def)
  ultimately show ?thesis by simp
qed

definition opt_field_text :: "cstring \<Rightarrow> cstring \<Rightarrow> cstring" where
  "opt_field_text name value = (if value = [] then [] else field_text name value True)"

lemma append_opt_field_write [ccm_write]:
  "writes any_text sz (append_opt_field sz name value) (opt_field_text name value)"
  using append_field_write [of sz name "value" True] writes_nothing [of any_text sz]
  by (simp add: writes_def append_opt_field_def opt_field_text_def)

definition request_text :: "cstring \<Rightarrow> cstring \<Rightarrow> cstring \<Rightarrow> ccm_json_options_t \<Rightarrow> cstring" where
  "request_text dm act alg opts =
     ''{'' @ field_text ''request_id'' (opt_request_id opts) False @ field_text ''domain'' dm True
     @ field_text ''action'' act True @ field_text ''algorithm'' alg True
     @ opt_field_text ''key_ref'' (opt_key_ref opts) @ opt_field_text ''payload'' (opt_payload opts)
     @ opt_field_text ''aux_payload'' (opt_aux_payload opts)
     @ opt_field_text ''device_hint'' (opt_device_hint opts)
     @ opt_field_text ''preference'' (opt_preference opts)
     @ opt_field_text ''sequence'' (opt_sequence opts) @ [CHR ''}'', CHR 0x0A]"

lemma algorithm_text_short: "length (algorithm_text a) < 64 \<and> algorithm_text a \<noteq> []"
  by (cases a) simp_all

lemma CCM_AlgorithmName_OK:
  "unat w < length ccm_algorithm_ids \<Longrightarrow>
     CCM_AlgorithmName w 64 = (CCM_OK, algorithm_text (ccm_algorithm_ids ! unat w))"
  using algorithm_text_short [of "ccm_algorithm_ids ! unat w"]
  by (simp add: CCM_AlgorithmName_def copy_out_def sn_append_def)

lemma build_json_write:
  assumes "0 < sz" and "opt_request_id opts \<noteq> []"
  shows "build_json dm act w opts sz =
    (if unat w < length ccm_algorithm_ids
     then sn_append sz [] (request_text dm act (algorithm_text (ccm_algorithm_ids ! unat w)) opts)
     else (CCM_ERR_UNSUPPORTED_ALGORITHM, []))"
proof (cases "unat w < length ccm_algorithm_ids")
  case True
  let ?alg = "algorithm_text (ccm_algorithm_ids ! unat w)"
  have "writes any_text sz (\<lambda>out.
          ccm_then (append_raw sz ''{'' out) (\<lambda>out.
          ccm_then (append_field sz ''request_id'' (opt_request_id opts) False out) (\<lambda>out.
          ccm_then (append_field sz ''domain'' dm True out) (\<lambda>out.
          ccm_then (append_field sz ''action'' act True out) (\<lambda>out.
          ccm_then (append_field sz ''algorithm'' ?alg True out) (\<lambda>out.
          ccm_then (append_opt_field sz ''key_ref'' (opt_key_ref opts) out) (\<lambda>out.
          ccm_then (append_opt_field sz ''payload'' (opt_payload opts) out) (\<lambda>out.
          ccm_then (append_opt_field sz ''aux_payload'' (opt_aux_payload opts) out) (\<lambda>out.
          ccm_then (append_opt_field sz ''device_hint'' (opt_device_hint opts) out) (\<lambda>out.
          ccm_then (append_opt_field sz ''preference'' (opt_preference opts) out) (\<lambda>out.
          ccm_then (append_opt_field sz ''sequence'' (opt_sequence opts) out)
            (append_raw sz [CHR ''}'', CHR 0x0A])))))))))))) (request_text dm act ?alg opts)"
    unfolding request_text_def by (intro ccm_write)
  from writesD [OF this, of "[]"] show ?thesis
    using assms True CCM_AlgorithmName_OK [OF True] by (simp add: build_json_def Let_def)
next
  case False
  then show ?thesis using assms by (simp add: build_json_def Let_def CCM_AlgorithmName_def)
qed

subsection \<open>Texts of tokens\<close>

text \<open>Tokens after a text that already has some, and at the start of a text.\<close>

definition semi :: "cstring list \<Rightarrow> cstring" where
  "semi ts = concat (map (\<lambda>t. '';'' @ t) ts)"

lemma semi_Nil [simp]: "semi [] = []"
  by (simp add: semi_def)

lemma semi_Cons [simp]: "semi (t # ts) = CHR '';'' # t @ semi ts"
  by (simp add: semi_def)

lemma semi_append [simp]: "semi (ts @ us) = semi ts @ semi us"
  by (simp add: semi_def)

definition tokens_after :: "cstring \<Rightarrow> cstring list \<Rightarrow> cstring" where
  "tokens_after out ts = (if out = [] then drop 1 (semi ts) else semi ts)"

definition num_token :: "cstring \<Rightarrow> 32 word \<Rightarrow> cstring" where
  "num_token name v = name @ ''='' @ dec_nat (unat v)"

definition ptr_token :: "cstring \<Rightarrow> c_ptr \<Rightarrow> cstring" where
  "ptr_token name p = name @ ''='' @ fmt_ptr p"

lemma token_nonempty [simp]: "num_token name v \<noteq> []" "ptr_token name p \<noteq> []"
  by (simp_all add: num_token_def ptr_token_def)

definition alg_params_tokens :: "Unif_AlgParams \<Rightarrow> cstring list" where
  "alg_params_tokens a =
     [num_token ''mode'' (alg_uiMode a), num_token ''padding'' (alg_uiPadding a),
      num_token ''hash_alg'' (alg_uiHashAlgID a),
      num_token ''security_level'' (alg_uiSecurityLevel a), ptr_token ''ex_params'' (alg_pExParams a)]"

definition name_tokens :: "Unif_KeyRef \<Rightarrow> cstring list" where
  "name_tokens k =
     (if key_szKeyId k = [] then [] else [''key_id='' @ key_szKeyId k])
     @ (if key_szDeviceId k = [] then [] else [''device_id='' @ key_szDeviceId k])"

definition key_ref_tokens :: "Unif_KeyRef \<Rightarrow> cstring list" where
  "key_ref_tokens k =
     [num_token ''alg'' (key_uiAlgID k), num_token ''usage'' (key_uiUsage k),
      num_token ''source'' (key_uiSource k), num_token ''key_index'' (key_uiKeyIndex k),
      ptr_token ''key_handle'' (key_hKeyHandle k), ptr_token ''external_key'' (key_pExternalKey k)]
     @ name_tokens k"

definition buffer_tokens :: "cstring \<Rightarrow> Unif_Buffer \<Rightarrow> cstring list" where
  "buffer_tokens name b = [ptr_token name (buf_pucData b), num_token ''len'' (buf_uiDataLen b)]"

text \<open>A writer that adds the tokens \<open>ts\<close>, with a separator where the text has some already.\<close>

definition writes_tokens :: "nat \<Rightarrow> (cstring \<Rightarrow> ccm_status \<times> cstring) \<Rightarrow> cstring list \<Rightarrow> bool" where
  "writes_tokens sz f ts \<longleftrightarrow> (\<forall>out. length out < sz \<longrightarrow> f out = sn_append sz out (tokens_after out ts))"

lemma writes_tokensD:
  "writes_tokens sz f ts \<Longrightarrow> length out < sz \<Longrightarrow> f out = sn_append sz out (tokens_after out ts)"
  by (simp add: writes_tokens_def)

lemma append_token_write [ccm_write]: "writes_tokens sz (append_token sz name v) [num_token name v]"
  by (simp add: writes_tokens_def append_token_def tokens_after_def num_token_def)

lemma append_ptr_write [ccm_write]: "writes_tokens sz (append_ptr sz name p) [ptr_token name p]"
  by (simp add: writes_tokens_def append_ptr_def tokens_after_def ptr_token_def)

lemma sn_append_then:
  "length out < sz \<Longrightarrow> ccm_then (sn_append sz out s) (\<lambda>out. sn_append sz out t) = sn_append sz out (s @ t)"
  by (auto simp: ccm_then_def sn_append_def)

lemma writes_tokens_append:
  assumes "writes_tokens sz f ts" and "\<forall>t \<in> set ts. t \<noteq> []" and "writes_tokens sz g us"
  shows "writes_tokens sz (\<lambda>out. ccm_then (f out) g) (ts @ us)"
  unfolding writes_tokens_def
proof (intro allI impI)
  fix out :: cstring
  assume out: "length out < sz"
  have f: "f out = sn_append sz out (tokens_after out ts)"
    using assms(1) out by (simp add: writes_tokens_def)
  show "ccm_then (f out) g = sn_append sz out (tokens_after out (ts @ us))"
  proof (cases ts)
    case Nil
    then show ?thesis
      using f assms(3) out by (simp add: tokens_after_def [of _ "[]"] sn_append_def [of _ _ "[]"] writes_tokens_def)
  next
    case (Cons t ts')
    have ne: "tokens_after out ts \<noteq> []" using assms(2) Cons by (simp add: tokens_after_def)
    have app: "tokens_after out (ts @ us) = tokens_after out ts @ semi us"
      using Cons by (simp add: tokens_after_def)
    have g: "g out' = sn_append sz out' (semi us)" if "length out' < sz" "out' \<noteq> []" for out'
      using assms(3) that by (simp add: writes_tokens_def tokens_after_def)
    show ?thesis unfolding f app using ne g [of "out @ tokens_after out ts"]
      by (auto simp: ccm_then_def sn_append_def)
  qed
qed

lemma writes_tokens_then:
  assumes "writes_tokens sz f [t]" and "t \<noteq> []" and "writes_tokens sz g ts"
  shows "writes_tokens sz (\<lambda>out. ccm_then (f out) g) (t # ts)"
  using writes_tokens_append [OF assms(1) _ assms(3)] assms(2) by simp

lemma append_alg_params_write [ccm_write]: "writes_tokens sz (append_alg_params sz a) (alg_params_tokens a)"
  unfolding append_alg_params_def alg_params_tokens_def by (intro writes_tokens_then ccm_write token_nonempty)

lemma append_buffer_write [ccm_write]: "writes_tokens sz (append_buffer sz name b) (buffer_tokens name b)"
  unfolding append_buffer_def buffer_tokens_def by (intro writes_tokens_then ccm_write token_nonempty)

lemma name_text_write:
  "writes_tokens sz (\<lambda>out. ccm_then (append_raw sz (if out \<noteq> [] then CHR '';'' # name else name) out)
      (append_raw sz s)) [name @ s]"
  using sn_append_then [of _ sz "CHR '';'' # name" s] sn_append_then [of _ sz name s]
  by (simp add: writes_tokens_def append_raw_def [abs_def] tokens_after_def)

lemma no_tokens_write: "writes_tokens sz (Pair CCM_OK) []"
  by (simp add: writes_tokens_def sn_append_def tokens_after_def)

lemma opt_name_write:
  assumes "name \<noteq> []"
  shows "writes_tokens sz (\<lambda>out.
      if s \<noteq> []
      then ccm_then (append_raw sz (if out \<noteq> [] then CHR '';'' # name else name) out) (append_raw sz s)
      else (CCM_OK, out)) (if s = [] then [] else [name @ s])"
  using name_text_write [of sz name s] no_tokens_write [of sz] by (cases "s = []") simp_all

lemmas opt_names_write =
  writes_tokens_append [OF opt_name_write [of "''key_id=''"] _ opt_name_write [of "''device_id=''"]]

lemma append_names_write:
  "writes_tokens sz (\<lambda>out. ccm_then
     (if key_szKeyId k \<noteq> []
      then ccm_then (append_raw sz (if out \<noteq> [] then '';key_id='' else ''key_id='') out)
             (append_raw sz (key_szKeyId k))
      else (CCM_OK, out)) (\<lambda>out.
     if key_szDeviceId k \<noteq> []
     then ccm_then (append_raw sz (if out \<noteq> [] then '';device_id='' else ''device_id='') out)
            (append_raw sz (key_szDeviceId k))
     else (CCM_OK, out))) (name_tokens k)"
  unfolding name_tokens_def by (rule opt_names_write) simp_all

lemma append_key_ref_write [ccm_write]: "writes_tokens sz (append_key_ref sz k) (key_ref_tokens k)"
  unfolding append_key_ref_def key_ref_tokens_def append.simps
  by (intro writes_tokens_then ccm_write token_nonempty append_names_write)

end
