(* ===== verification/Ccm_Api.thy ===== *)
theory Ccm_Api
  imports Ccm_Json
begin

text \<open>
  \<^verbatim>\<open>src/client/api/ccm_api.c\<close>, second part: the public operations. Each builds one request
  line in a local array of 2048 bytes. An operation here returns its status and the text left
  in that array (\<open>[]\<close> when nothing was built); the code drops the text. A pointer argument
  that the code compares with \<^verbatim>\<open>NULL\<close> is an option. The session handle, which no operation
  reads, is left out.
\<close>

subsection \<open>The arrays of the options\<close>

definition on_key_ref ::
  "(nat \<Rightarrow> cstring \<Rightarrow> ccm_status \<times> cstring) \<Rightarrow> ccm_json_options_t \<Rightarrow> ccm_status \<times> ccm_json_options_t" where
  "on_key_ref f o1 = (let (st, t) = f 512 (opt_key_ref o1) in (st, o1 \<lparr> opt_key_ref := t \<rparr>))"

definition on_payload ::
  "(nat \<Rightarrow> cstring \<Rightarrow> ccm_status \<times> cstring) \<Rightarrow> ccm_json_options_t \<Rightarrow> ccm_status \<times> ccm_json_options_t" where
  "on_payload f o1 = (let (st, t) = f 1024 (opt_payload o1) in (st, o1 \<lparr> opt_payload := t \<rparr>))"

definition on_aux_payload ::
  "(nat \<Rightarrow> cstring \<Rightarrow> ccm_status \<times> cstring) \<Rightarrow> ccm_json_options_t \<Rightarrow> ccm_status \<times> ccm_json_options_t" where
  "on_aux_payload f o1 = (let (st, t) = f 1024 (opt_aux_payload o1) in (st, o1 \<lparr> opt_aux_payload := t \<rparr>))"

text \<open>A writer for an argument that may be \<^verbatim>\<open>NULL\<close>.\<close>

definition if_given :: "'a option \<Rightarrow> ('a \<Rightarrow> 'o \<Rightarrow> ccm_status \<times> 'o) \<Rightarrow> 'o \<Rightarrow> ccm_status \<times> 'o" where
  "if_given arg f o1 = (case arg of None \<Rightarrow> (CCM_OK, o1) | Some a \<Rightarrow> f a o1)"

subsection \<open>Routing\<close>

definition route_buffered ::
  "cstring \<Rightarrow> cstring \<Rightarrow> cstring \<Rightarrow> Unif_AlgParams option \<Rightarrow> Unif_KeyRef option
     \<Rightarrow> Unif_Buffer option \<Rightarrow> Unif_Buffer option \<Rightarrow> Unif_Buffer option \<Rightarrow> ccm_status \<times> cstring" where
  "route_buffered request_id dm act pAlgParams pKey pPrimary pAuxIn pOutput =
     (case
        ccm_then (if_given pAlgParams (\<lambda>a. on_payload (\<lambda>sz. append_alg_params sz a)) (init_opts request_id)) (\<lambda>o1.
        ccm_then (if_given pKey (\<lambda>k. on_key_ref (\<lambda>sz. append_key_ref sz k)) o1) (\<lambda>o1.
        ccm_then (if_given pPrimary (\<lambda>b. on_payload (\<lambda>sz. append_buffer sz ''data'' b)) o1) (\<lambda>o1.
        ccm_then (if_given pAuxIn (\<lambda>b. on_aux_payload (\<lambda>sz. append_buffer sz ''aux'' b)) o1)
          (if_given pOutput (\<lambda>b. on_aux_payload (\<lambda>sz. append_buffer sz ''out'' b))))))
      of (CCM_OK, o1) \<Rightarrow> build_json dm act (alg_or_auto pAlgParams) o1 2048
       | _ \<Rightarrow> (CCM_ERR_BUFFER_TOO_SMALL, []))"

definition alg_only :: "32 word \<Rightarrow> Unif_AlgParams" where
  "alg_only w = \<lparr>alg_uiAlgID = w, alg_uiMode = 0, alg_uiPadding = 0, alg_uiHashAlgID = 0,
     alg_uiSecurityLevel = 0, alg_pExParams = 0\<rparr>"

subsection \<open>Environment\<close>

text \<open>The second component is what is stored through the pointer.\<close>

definition CCM_Initialize :: "c_ptr \<Rightarrow> ccm_status \<times> c_ptr option" where
  "CCM_Initialize phContext = (CCM_OK, if phContext \<noteq> 0 then Some phContext else None)"

definition CCM_Finalize :: "c_ptr \<Rightarrow> ccm_status" where
  "CCM_Finalize hContext = CCM_OK"

text \<open>
  \<open>has_buf\<close>: \<^verbatim>\<open>szVersion != NULL\<close>; \<open>len\<close>: the value behind \<^verbatim>\<open>puiVersionLen\<close>. The result
  holds the text copied, if any, and the value left behind \<^verbatim>\<open>puiVersionLen\<close>.
\<close>

definition CCM_GetVersion ::
  "bool \<Rightarrow> 32 word option \<Rightarrow> ccm_status \<times> cstring option \<times> 32 word option" where
  "CCM_GetVersion has_buf len =
     (let v = ''ccm-unified-api/2-four-categories'' in
      case len of
        None \<Rightarrow> (CCM_ERR_INVALID_ARGUMENT, None, len)
      | Some n \<Rightarrow>
          if \<not> has_buf then (CCM_ERR_INVALID_ARGUMENT, None, len)
          else if unat n \<le> length v then (CCM_ERR_BUFFER_TOO_SMALL, None, Some (of_nat (length v) + 1))
          else (CCM_OK, Some v, Some (of_nat (length v))))"

definition CCM_Login :: "cstring option \<Rightarrow> cstring option \<Rightarrow> ccm_status" where
  "CCM_Login szUserName szPin = (if szPin = None then CCM_ERR_INVALID_ARGUMENT else CCM_OK)"

definition CCM_ChangePin :: "cstring option \<Rightarrow> cstring option \<Rightarrow> ccm_status" where
  "CCM_ChangePin szOldPin szNewPin =
     (if szOldPin = None \<or> szNewPin = None then CCM_ERR_INVALID_ARGUMENT else CCM_OK)"

definition CCM_Logout :: ccm_status where
  "CCM_Logout = CCM_OK"

text \<open>\<open>snd\<close> of a writer: the code ignores its status here.\<close>

definition CCM_GetCapability :: "Unif_Buffer option \<Rightarrow> ccm_status \<times> cstring" where
  "CCM_GetCapability pCapabilityOut =
     (case pCapabilityOut of
        None \<Rightarrow> (CCM_ERR_INVALID_ARGUMENT, [])
      | Some b \<Rightarrow>
          (let o1 = init_opts ''ccm-capability'';
               o1 = snd (on_aux_payload (\<lambda>sz. append_buffer sz ''capability'' b) o1)
           in build_json ''device'' ''get_device_info'' 0 o1 2048))"

definition CCM_GenerateRandom :: "32 word \<Rightarrow> c_ptr \<Rightarrow> ccm_status \<times> cstring" where
  "CCM_GenerateRandom uiLength pucRandom =
     (if pucRandom = 0 \<and> uiLength \<noteq> 0 then (CCM_ERR_INVALID_ARGUMENT, [])
      else
        (let o1 = init_opts ''ccm-random'';
             o1 = snd (on_payload (\<lambda>sz. append_token sz ''length'' uiLength) o1);
             o1 = snd (on_aux_payload (\<lambda>sz. append_ptr sz ''random'' pucRandom) o1)
         in build_json ''device'' ''generate_random'' 0 o1 2048))"

subsection \<open>Crypto operations\<close>

definition CCM_Hash :: "Unif_AlgParams option \<Rightarrow> Unif_Buffer option \<Rightarrow> Unif_Buffer option \<Rightarrow> ccm_status \<times> cstring" where
  "CCM_Hash pAlgParams pData pHash =
     route_buffered ''ccm-hash'' ''hash'' ''hash'' pAlgParams None pData None pHash"

definition CCM_HashInit :: "Unif_AlgParams option \<Rightarrow> ccm_status \<times> cstring" where
  "CCM_HashInit pAlgParams =
     route_buffered ''ccm-hash-init'' ''hash'' ''hash'' pAlgParams None None None None"

definition CCM_HashUpdate :: "Unif_Buffer option \<Rightarrow> ccm_status \<times> cstring" where
  "CCM_HashUpdate pData =
     route_buffered ''ccm-hash-update'' ''hash'' ''hash'' (Some (alg_only 0)) None pData None None"

definition CCM_HashFinal :: "Unif_Buffer option \<Rightarrow> ccm_status \<times> cstring" where
  "CCM_HashFinal pHash =
     route_buffered ''ccm-hash-final'' ''hash'' ''hash'' (Some (alg_only 0)) None None None pHash"

definition CCM_Mac ::
  "Unif_AlgParams option \<Rightarrow> Unif_KeyRef option \<Rightarrow> Unif_Buffer option \<Rightarrow> Unif_Buffer option
     \<Rightarrow> Unif_Buffer option \<Rightarrow> ccm_status \<times> cstring" where
  "CCM_Mac pAlgParams pKey pIV pData pMac =
     route_buffered ''ccm-mac'' ''sym'' ''mac'' pAlgParams pKey pData pIV pMac"

definition CCM_SymEncrypt ::
  "Unif_AlgParams option \<Rightarrow> Unif_KeyRef option \<Rightarrow> Unif_Buffer option \<Rightarrow> Unif_Buffer option
     \<Rightarrow> Unif_Buffer option \<Rightarrow> ccm_status \<times> cstring" where
  "CCM_SymEncrypt pAlgParams pKey pIV pData pCipher =
     route_buffered ''ccm-sym-enc'' ''sym'' ''encrypt'' pAlgParams pKey pData pIV pCipher"

definition CCM_SymDecrypt ::
  "Unif_AlgParams option \<Rightarrow> Unif_KeyRef option \<Rightarrow> Unif_Buffer option \<Rightarrow> Unif_Buffer option
     \<Rightarrow> Unif_Buffer option \<Rightarrow> ccm_status \<times> cstring" where
  "CCM_SymDecrypt pAlgParams pKey pIV pCipher pData =
     route_buffered ''ccm-sym-dec'' ''sym'' ''decrypt'' pAlgParams pKey pCipher pIV pData"

definition CCM_AsymEncrypt ::
  "Unif_AlgParams option \<Rightarrow> Unif_KeyRef option \<Rightarrow> Unif_Buffer option \<Rightarrow> Unif_Buffer option
     \<Rightarrow> ccm_status \<times> cstring" where
  "CCM_AsymEncrypt pAlgParams pPublicKey pData pCipher =
     route_buffered ''ccm-asym-enc'' ''asym'' ''encrypt'' pAlgParams pPublicKey pData None pCipher"

definition CCM_AsymDecrypt ::
  "Unif_AlgParams option \<Rightarrow> Unif_KeyRef option \<Rightarrow> Unif_Buffer option \<Rightarrow> Unif_Buffer option
     \<Rightarrow> ccm_status \<times> cstring" where
  "CCM_AsymDecrypt pAlgParams pPrivateKey pCipher pData =
     route_buffered ''ccm-asym-dec'' ''asym'' ''decrypt'' pAlgParams pPrivateKey pCipher None pData"

subsection \<open>Key management\<close>

definition CCM_GenerateKeyPair ::
  "Unif_AlgParams option \<Rightarrow> 32 word \<Rightarrow> Unif_KeyRef option \<Rightarrow> Unif_KeyRef option \<Rightarrow> ccm_status \<times> cstring" where
  "CCM_GenerateKeyPair pAlgParams uiKeyIndex pPublicKey pPrivateKey =
     (case (pAlgParams, pPublicKey, pPrivateKey) of
        (Some a, Some pub, Some pri) \<Rightarrow>
          (let o1 = init_opts ''ccm-keypair'';
               o1 = snd (on_payload (\<lambda>sz. append_alg_params sz a) o1);
               o1 = snd (on_key_ref (\<lambda>sz. append_token sz ''key_index'' uiKeyIndex) o1);
               o1 = snd (on_aux_payload (\<lambda>sz. append_key_ref sz pub) o1);
               o1 = snd (on_aux_payload (\<lambda>sz. append_key_ref sz pri) o1)
           in build_json ''key'' ''generate_key_pair'' (alg_or_auto pAlgParams) o1 2048)
      | _ \<Rightarrow> (CCM_ERR_INVALID_ARGUMENT, []))"

definition CCM_GenerateSymKey ::
  "Unif_AlgParams option \<Rightarrow> 32 word \<Rightarrow> Unif_KeyRef option \<Rightarrow> ccm_status \<times> cstring" where
  "CCM_GenerateSymKey pAlgParams uiKeyIndex pKey =
     (case (pAlgParams, pKey) of
        (Some a, Some k) \<Rightarrow>
          (let o1 = init_opts ''ccm-sym-key'';
               o1 = snd (on_payload (\<lambda>sz. append_alg_params sz a) o1);
               o1 = snd (on_key_ref (\<lambda>sz. append_token sz ''key_index'' uiKeyIndex) o1);
               o1 = snd (on_aux_payload (\<lambda>sz. append_key_ref sz k) o1)
           in build_json ''key'' ''import_key'' (alg_or_auto pAlgParams) o1 2048)
      | _ \<Rightarrow> (CCM_ERR_INVALID_ARGUMENT, []))"

definition CCM_ImportKey ::
  "Unif_AlgParams option \<Rightarrow> Unif_Buffer option \<Rightarrow> Unif_KeyRef option \<Rightarrow> ccm_status \<times> cstring" where
  "CCM_ImportKey pAlgParams pKeyBlob pKey =
     route_buffered ''ccm-import-key'' ''key'' ''import_key'' pAlgParams pKey pKeyBlob None None"

text \<open>The parameters with the algorithm of the key, 0 for a null key.\<close>

definition alg_of_key :: "Unif_KeyRef option \<Rightarrow> Unif_AlgParams" where
  "alg_of_key pKey = alg_only (case pKey of None \<Rightarrow> 0 | Some k \<Rightarrow> key_uiAlgID k)"

definition CCM_ExportPublicKey :: "Unif_KeyRef option \<Rightarrow> Unif_Buffer option \<Rightarrow> ccm_status \<times> cstring" where
  "CCM_ExportPublicKey pKey pPublicKeyBlob =
     route_buffered ''ccm-export-pub'' ''key'' ''export_public_key'' (Some (alg_of_key pKey)) pKey
       None None pPublicKeyBlob"

definition CCM_DestroyKey :: "Unif_KeyRef option \<Rightarrow> ccm_status \<times> cstring" where
  "CCM_DestroyKey pKey =
     route_buffered ''ccm-destroy-key'' ''key'' ''destroy_key'' (Some (alg_of_key pKey)) pKey None None None"

definition CCM_GetKeyInfo :: "Unif_KeyRef option \<Rightarrow> Unif_Buffer option \<Rightarrow> ccm_status \<times> cstring" where
  "CCM_GetKeyInfo pKey pKeyInfo =
     route_buffered ''ccm-key-info'' ''key'' ''export_public_key'' (Some (alg_of_key pKey)) pKey
       None None pKeyInfo"

definition CCM_KemEncapsulate ::
  "Unif_AlgParams option \<Rightarrow> Unif_KeyRef option \<Rightarrow> Unif_Buffer option \<Rightarrow> Unif_Buffer option
     \<Rightarrow> ccm_status \<times> cstring" where
  "CCM_KemEncapsulate pAlgParams pPublicKey pCipherText pSharedSecret =
     route_buffered ''ccm-kem-encap'' ''pqc'' ''kem_encap'' pAlgParams pPublicKey None pCipherText pSharedSecret"

definition CCM_KemDecapsulate ::
  "Unif_AlgParams option \<Rightarrow> Unif_KeyRef option \<Rightarrow> Unif_Buffer option \<Rightarrow> Unif_Buffer option
     \<Rightarrow> ccm_status \<times> cstring" where
  "CCM_KemDecapsulate pAlgParams pPrivateKey pCipherText pSharedSecret =
     route_buffered ''ccm-kem-decap'' ''pqc'' ''kem_decap'' pAlgParams pPrivateKey pCipherText None pSharedSecret"

definition CCM_KeyAgreementInit ::
  "Unif_AlgParams option \<Rightarrow> Unif_KeyRef option \<Rightarrow> Unif_Buffer option \<Rightarrow> Unif_Buffer option
     \<Rightarrow> Unif_KeyRef option \<Rightarrow> ccm_status \<times> cstring" where
  "CCM_KeyAgreementInit pAlgParams pSelfPrivateKey pSelfID pAgreementData pAgreementHandle =
     (case (pAlgParams, pSelfPrivateKey, pSelfID, pAgreementData, pAgreementHandle) of
        (Some a, Some k, Some sid, Some dat, Some h) \<Rightarrow>
          (let o1 = init_opts ''ccm-agree-init'';
               o1 = snd (on_payload (\<lambda>sz. append_alg_params sz a) o1);
               o1 = snd (on_key_ref (\<lambda>sz. append_key_ref sz k) o1);
               o1 = snd (on_payload (\<lambda>sz. append_buffer sz ''self_id'' sid) o1);
               o1 = snd (on_aux_payload (\<lambda>sz. append_buffer sz ''agreement_data'' dat) o1);
               o1 = snd (on_aux_payload (\<lambda>sz. append_key_ref sz h) o1)
           in build_json ''key'' ''generate_key_pair'' (alg_or_auto pAlgParams) o1 2048)
      | _ \<Rightarrow> (CCM_ERR_INVALID_ARGUMENT, []))"

definition CCM_KeyAgreementComplete ::
  "Unif_AlgParams option \<Rightarrow> Unif_KeyRef option \<Rightarrow> Unif_Buffer option \<Rightarrow> Unif_Buffer option
     \<Rightarrow> Unif_KeyRef option \<Rightarrow> ccm_status \<times> cstring" where
  "CCM_KeyAgreementComplete pAlgParams pAgreementOrPrivateKey pPeerData pSelfData pSessionKey =
     (case (pAlgParams, pAgreementOrPrivateKey, pPeerData, pSelfData, pSessionKey) of
        (Some a, Some k, Some peer, Some self, Some sk) \<Rightarrow>
          (let o1 = init_opts ''ccm-agree-complete'';
               o1 = snd (on_payload (\<lambda>sz. append_alg_params sz a) o1);
               o1 = snd (on_key_ref (\<lambda>sz. append_key_ref sz k) o1);
               o1 = snd (on_payload (\<lambda>sz. append_buffer sz ''peer_data'' peer) o1);
               o1 = snd (on_aux_payload (\<lambda>sz. append_buffer sz ''self_data'' self) o1);
               o1 = snd (on_aux_payload (\<lambda>sz. append_key_ref sz sk) o1)
           in build_json ''key'' ''import_key'' (alg_or_auto pAlgParams) o1 2048)
      | _ \<Rightarrow> (CCM_ERR_INVALID_ARGUMENT, []))"

definition CCM_HybridKeyAgreement ::
  "Unif_AlgParams option \<Rightarrow> Unif_KeyRef option \<Rightarrow> Unif_KeyRef option \<Rightarrow> Unif_Buffer option
     \<Rightarrow> Unif_Buffer option \<Rightarrow> Unif_KeyRef option \<Rightarrow> ccm_status \<times> cstring" where
  "CCM_HybridKeyAgreement pAlgParams pClassicKey pPqcKey pPeerData pTranscript pSessionKey =
     (case (pAlgParams, pClassicKey, pPqcKey, pSessionKey) of
        (Some a, Some ck, Some pk, Some sk) \<Rightarrow>
          (let o1 = init_opts ''ccm-hybrid-agree'';
               o1 = snd (on_payload (\<lambda>sz. append_alg_params sz a) o1);
               o1 = snd (on_key_ref (\<lambda>sz. append_key_ref sz ck) o1);
               o1 = snd (on_key_ref (\<lambda>sz. append_key_ref sz pk) o1);
               o1 = snd (if_given pPeerData (\<lambda>b. on_payload (\<lambda>sz. append_buffer sz ''peer'' b)) o1);
               o1 = snd (if_given pTranscript (\<lambda>b. on_aux_payload (\<lambda>sz. append_buffer sz ''transcript'' b)) o1);
               o1 = snd (on_aux_payload (\<lambda>sz. append_key_ref sz sk) o1)
           in build_json ''pqc'' ''kem_encap'' (alg_or_auto pAlgParams) o1 2048)
      | _ \<Rightarrow> (CCM_ERR_INVALID_ARGUMENT, []))"

subsection \<open>Digital signature\<close>

text \<open>The domain of a signature: post-quantum for the Dilithium identifiers 18 to 20.\<close>

definition sign_domain :: "Unif_AlgParams option \<Rightarrow> cstring" where
  "sign_domain pAlgParams = (if alg_or_auto pAlgParams \<in> {18, 19, 20} then ''pqc'' else ''asym'')"

definition CCM_Sign ::
  "Unif_AlgParams option \<Rightarrow> Unif_KeyRef option \<Rightarrow> Unif_Buffer option \<Rightarrow> Unif_Buffer option
     \<Rightarrow> ccm_status \<times> cstring" where
  "CCM_Sign pAlgParams pPrivateKey pData pSignature =
     route_buffered ''ccm-sign'' (sign_domain pAlgParams) ''sign'' pAlgParams pPrivateKey pData None pSignature"

definition CCM_Verify ::
  "Unif_AlgParams option \<Rightarrow> Unif_KeyRef option \<Rightarrow> Unif_Buffer option \<Rightarrow> Unif_Buffer option
     \<Rightarrow> ccm_status \<times> cstring" where
  "CCM_Verify pAlgParams pPublicKey pData pSignature =
     route_buffered ''ccm-verify'' (sign_domain pAlgParams) ''verify'' pAlgParams pPublicKey pData pSignature None"

definition CCM_SignDigest ::
  "Unif_AlgParams option \<Rightarrow> Unif_KeyRef option \<Rightarrow> Unif_Buffer option \<Rightarrow> Unif_Buffer option
     \<Rightarrow> ccm_status \<times> cstring" where
  "CCM_SignDigest pAlgParams pPrivateKey pDigest pSignature = CCM_Sign pAlgParams pPrivateKey pDigest pSignature"

definition CCM_VerifyDigest ::
  "Unif_AlgParams option \<Rightarrow> Unif_KeyRef option \<Rightarrow> Unif_Buffer option \<Rightarrow> Unif_Buffer option
     \<Rightarrow> ccm_status \<times> cstring" where
  "CCM_VerifyDigest pAlgParams pPublicKey pDigest pSignature = CCM_Verify pAlgParams pPublicKey pDigest pSignature"

text \<open>The common body of the two hybrid operations.\<close>

definition hybrid_request ::
  "cstring \<Rightarrow> cstring \<Rightarrow> cstring \<Rightarrow> Unif_AlgParams option \<Rightarrow> Unif_KeyRef option \<Rightarrow> Unif_KeyRef option
     \<Rightarrow> Unif_Buffer option \<Rightarrow> Unif_Buffer option \<Rightarrow> ccm_status \<times> cstring" where
  "hybrid_request request_id act sequence pAlgParams pClassicKey pPqcKey pData pSignature =
     (case (pAlgParams, pClassicKey, pPqcKey, pData, pSignature) of
        (Some a, Some ck, Some pk, Some d, Some sig) \<Rightarrow>
          (let o1 = init_opts request_id;
               o1 = snd (on_payload (\<lambda>sz. append_alg_params sz a) o1);
               o1 = snd (on_key_ref (\<lambda>sz. append_key_ref sz ck) o1);
               o1 = snd (on_key_ref (\<lambda>sz. append_key_ref sz pk) o1);
               o1 = snd (on_payload (\<lambda>sz. append_buffer sz ''data'' d) o1);
               o1 = snd (on_aux_payload (\<lambda>sz. append_buffer sz ''signature'' sig) o1);
               o1 = o1 \<lparr> opt_sequence := snprintf_s 1024 sequence \<rparr>
           in build_json ''asym'' act (alg_or_auto pAlgParams) o1 2048)
      | _ \<Rightarrow> (CCM_ERR_INVALID_ARGUMENT, []))"

definition CCM_HybridSign ::
  "Unif_AlgParams option \<Rightarrow> Unif_KeyRef option \<Rightarrow> Unif_KeyRef option \<Rightarrow> Unif_Buffer option
     \<Rightarrow> Unif_Buffer option \<Rightarrow> ccm_status \<times> cstring" where
  "CCM_HybridSign = hybrid_request ''ccm-hybrid-sign'' ''sign'' ''asym:sign:classic:sm2>pqc:sign:pqc:dilithium3''"

definition CCM_HybridVerify ::
  "Unif_AlgParams option \<Rightarrow> Unif_KeyRef option \<Rightarrow> Unif_KeyRef option \<Rightarrow> Unif_Buffer option
     \<Rightarrow> Unif_Buffer option \<Rightarrow> ccm_status \<times> cstring" where
  "CCM_HybridVerify = hybrid_request ''ccm-hybrid-verify'' ''verify'' ''asym:verify:classic:sm2>pqc:verify:pqc:dilithium3''"

end
