(* ===== verification/Ccm_Gateway.thy ===== *)
theory Ccm_Gateway
  imports Ccm_Api Gateway_Server
begin

text \<open>
  The client library and the gateway together: what the parser of
  \<^verbatim>\<open>src/server/gateway/protocol.c\<close> makes of a line that \<^verbatim>\<open>src/client/api/ccm_api.c\<close> builds,
  and what the scheduler reads in a key reference it writes.
\<close>

subsection \<open>A line as an object of members\<close>

definition opt_member :: "cstring \<Rightarrow> cstring \<Rightarrow> (cstring \<times> cstring) list" where
  "opt_member name v = (if v = [] then [] else [(name, v)])"

definition request_members ::
  "cstring \<Rightarrow> cstring \<Rightarrow> cstring \<Rightarrow> ccm_json_options_t \<Rightarrow> (cstring \<times> cstring) list" where
  "request_members dm act alg opts =
     [(''request_id'', opt_request_id opts), (''domain'', dm), (''action'', act), (''algorithm'', alg)]
     @ opt_member ''key_ref'' (opt_key_ref opts) @ opt_member ''payload'' (opt_payload opts)
     @ opt_member ''aux_payload'' (opt_aux_payload opts) @ opt_member ''device_hint'' (opt_device_hint opts)
     @ opt_member ''preference'' (opt_preference opts) @ opt_member ''sequence'' (opt_sequence opts)"

lemma json_members_Cons:
  "json_members (m # ms) =
     json_member (fst m) (snd m) @ concat (map (\<lambda>m. CHR '','' # json_member (fst m) (snd m)) ms)"
proof (induction ms arbitrary: m)
  case Nil
  show ?case by (cases m) simp
next
  case (Cons n ms)
  show ?case by (cases m) (simp add: Cons)
qed

lemma field_text_member: "field_text name v comma = (if comma then '','' else []) @ json_member name (escape v)"
  by (simp add: field_text_def render_field_def json_member_def quoted_def)

lemma opt_field_member:
  "opt_field_text name v =
     concat (map (\<lambda>m. CHR '','' # json_member (fst m) (snd m)) (map (apsnd escape) (opt_member name v)))"
  by (simp add: opt_field_text_def opt_member_def field_text_member)

lemma request_text_object:
  "request_text dm act alg opts =
     json_object (map (apsnd escape) (request_members dm act alg opts)) @ [CHR 0x0A]"
  by (simp add: request_text_def request_members_def json_object_def json_members_Cons
      field_text_member opt_field_member)

text \<open>A byte that is written as it is.\<close>

definition plain_char :: "char \<Rightarrow> bool" where
  "plain_char c \<longleftrightarrow> c \<noteq> CHR 0x22 \<and> c \<noteq> CHR 0x5C \<and> 0x20 \<le> (of_char c :: nat)"

lemma escape_plain: "list_all plain_char v \<Longrightarrow> escape v = v"
  by (induction v) (auto simp: plain_char_def escape_char_def)

text \<open>Values a client may pass: plain texts within their arrays, none equal to a member name.\<close>

definition plain_options :: "ccm_json_options_t \<Rightarrow> bool" where
  "plain_options opts \<longleftrightarrow>
     list_all (\<lambda>v. list_all plain_char v \<and> v \<notin> set request_keys)
       [opt_request_id opts, opt_key_ref opts, opt_payload opts, opt_aux_payload opts,
        opt_device_hint opts, opt_preference opts, opt_sequence opts]
     \<and> opt_request_id opts \<noteq> [] \<and> length (opt_request_id opts) < 64
     \<and> length (opt_payload opts) < 1024 \<and> length (opt_aux_payload opts) < 1024
     \<and> length (opt_device_hint opts) < 256 \<and> length (opt_preference opts) < 256
     \<and> length (opt_sequence opts) < 1024"

definition plain_name :: "cstring \<Rightarrow> bool" where
  "plain_name v \<longleftrightarrow> list_all plain_char v \<and> v \<notin> set request_keys \<and> length v < MAX_FIELD_LEN"

lemma plain_domain: "plain_name (domain_to_string d)"
  by (cases d) (simp_all add: plain_name_def plain_char_def request_keys_def size_defs)

lemma plain_action: "plain_name (action_to_string a)"
  by (cases a) (simp_all add: plain_name_def plain_char_def request_keys_def size_defs)

lemma plain_algorithm: "plain_name (algorithm_text g)"
  by (cases g) (simp_all add: plain_name_def plain_char_def request_keys_def size_defs)

text \<open>The names of the algorithms are in the gateway's normal form.\<close>

lemma algorithm_text_normal:
  "normalize_algorithm_name (Some (algorithm_text g)) MAX_FIELD_LEN = Some (algorithm_text g)"
  by (cases g) (simp_all add: normalize_algorithm_name_def Let_def copy_lower_trim_eq is_space_def
      to_lower_def size_defs)

lemma request_keys_search: "\<forall>k \<in> set request_keys. search_key k"
  by code_simp

definition option_texts :: "ccm_json_options_t \<Rightarrow> cstring list" where
  "option_texts opts = [opt_request_id opts, opt_key_ref opts, opt_payload opts, opt_aux_payload opts,
     opt_device_hint opts, opt_preference opts, opt_sequence opts]"

definition all_members ::
  "cstring \<Rightarrow> cstring \<Rightarrow> cstring \<Rightarrow> ccm_json_options_t \<Rightarrow> (cstring \<times> cstring) list" where
  "all_members dm act alg opts =
     [(''request_id'', opt_request_id opts), (''domain'', dm), (''action'', act), (''algorithm'', alg),
      (''key_ref'', opt_key_ref opts), (''payload'', opt_payload opts),
      (''aux_payload'', opt_aux_payload opts), (''device_hint'', opt_device_hint opts),
      (''preference'', opt_preference opts), (''sequence'', opt_sequence opts)]"

lemma opt_member_subset: "(n, v) \<in> M \<Longrightarrow> set (opt_member n v) \<subseteq> M"
  by (simp add: opt_member_def)

lemma request_members_subset: "set (request_members dm act alg opts) \<subseteq> set (all_members dm act alg opts)"
proof -
  have "(n, v) \<in> set (all_members dm act alg opts) \<Longrightarrow> set (opt_member n v) \<subseteq> set (all_members dm act alg opts)" for n v
    by (rule opt_member_subset)
  then show ?thesis
    unfolding request_members_def set_append by (intro Un_least) (simp_all add: all_members_def)
qed

lemma request_members_cases:
  assumes "m \<in> set (request_members dm act alg opts)"
  shows "fst m \<in> set request_keys \<and> snd m \<in> {dm, act, alg} \<union> set (option_texts opts)"
proof -
  have "\<forall>m \<in> set (all_members dm act alg opts).
      fst m \<in> set request_keys \<and> snd m \<in> {dm, act, alg} \<union> set (option_texts opts)"
    by (simp add: all_members_def request_keys_def option_texts_def)
  then show ?thesis using assms request_members_subset by blast
qed

lemma request_members_plain:
  assumes "plain_options opts" and "plain_name dm" and "plain_name act" and "plain_name alg"
    and "m \<in> set (request_members dm act alg opts)"
  shows "list_all plain_char (snd m) \<and> snd m \<notin> set request_keys"
proof -
  have "list_all (\<lambda>v. list_all plain_char v \<and> v \<notin> set request_keys) (option_texts opts)"
    using assms(1) by (simp add: plain_options_def option_texts_def)
  then show ?thesis using request_members_cases [OF assms(5)] assms(2-4)
    by (auto simp: plain_name_def list_all_iff [of _ "option_texts opts"])
qed

lemma request_keys_printable: "k \<in> set request_keys \<Longrightarrow> quote_free k \<and> list_all plain_char k"
  by (auto simp: request_keys_def quote_free_def plain_char_def)

lemma plain_quote_free: "list_all plain_char v \<Longrightarrow> quote_free v"
  by (auto simp: quote_free_def plain_char_def list_all_iff)

text \<open>The text of a plain request is the object of its members, on which the search is a lookup.\<close>

lemma plain_request:
  assumes "plain_options opts" and "plain_name dm" and "plain_name act" and "plain_name alg"
  shows "request_text dm act alg opts = json_object (request_members dm act alg opts) @ [CHR 0x0A]"
    and "\<forall>k \<in> set request_keys. searchable (request_members dm act alg opts) k"
proof -
  have p: "list_all plain_char (snd m) \<and> snd m \<notin> set request_keys \<and> quote_free (fst m)"
    if "m \<in> set (request_members dm act alg opts)" for m
    using request_members_plain [OF assms that] request_members_cases [OF that] request_keys_printable by blast
  have "map (apsnd escape) (request_members dm act alg opts) = request_members dm act alg opts"
    by (rule map_idI) (use p escape_plain in \<open>auto simp: apsnd_def map_prod_def split: prod.splits\<close>)
  then show "request_text dm act alg opts = json_object (request_members dm act alg opts) @ [CHR 0x0A]"
    by (simp add: request_text_object)
  show "\<forall>k \<in> set request_keys. searchable (request_members dm act alg opts) k"
    using p request_keys_search plain_quote_free
    by (fastforce simp: searchable_def list_all_iff)
qed

lemma map_of_opt_member:
  "map_of (opt_member n v @ ms) k = (if k = n \<and> v \<noteq> [] then Some v else map_of ms k)"
  by (simp add: opt_member_def)

lemma map_of_last_member: "map_of (opt_member n v) k = (if k = n \<and> v \<noteq> [] then Some v else None)"
  by (simp add: opt_member_def)

lemma map_of_request_members:
  "map_of (request_members dm act alg opts) ''request_id'' = Some (opt_request_id opts)"
  "map_of (request_members dm act alg opts) ''domain'' = Some dm"
  "map_of (request_members dm act alg opts) ''action'' = Some act"
  "map_of (request_members dm act alg opts) ''algorithm'' = Some alg"
  by (simp_all add: request_members_def)

lemma member_or_empty_request:
  "member_or_empty (request_members dm act alg opts) ''key_ref'' sz =
      (if length (opt_key_ref opts) < sz then opt_key_ref opts else [])"
  "member_or_empty (request_members dm act alg opts) ''payload'' sz =
      (if length (opt_payload opts) < sz then opt_payload opts else [])"
  "member_or_empty (request_members dm act alg opts) ''aux_payload'' sz =
      (if length (opt_aux_payload opts) < sz then opt_aux_payload opts else [])"
  "member_or_empty (request_members dm act alg opts) ''device_hint'' sz =
      (if length (opt_device_hint opts) < sz then opt_device_hint opts else [])"
  "member_or_empty (request_members dm act alg opts) ''user_pin'' sz = []"
  "member_or_empty (request_members dm act alg opts) ''preference'' sz =
      (if length (opt_preference opts) < sz then opt_preference opts else [])"
  "member_or_empty (request_members dm act alg opts) ''sequence'' sz =
      (if length (opt_sequence opts) < sz then opt_sequence opts else [])"
  by (simp_all add: member_or_empty_def request_members_def map_of_opt_member map_of_last_member
      del: map_of_append)

definition parsed_request ::
  "api_domain_t \<Rightarrow> api_action_t \<Rightarrow> cstring \<Rightarrow> ccm_json_options_t \<Rightarrow> request_t" where
  "parsed_request d a alg opts = \<lparr>
     req_request_id = opt_request_id opts, req_domain = d, req_action = a, req_algorithm = alg,
     req_key_ref = (if length (opt_key_ref opts) < MAX_FIELD_LEN then opt_key_ref opts else []),
     req_payload = opt_payload opts, req_aux_payload = opt_aux_payload opts,
     req_device_hint = opt_device_hint opts, req_user_pin = [],
     req_preference = parse_preference (Some (opt_preference opts)),
     req_sequence = opt_sequence opts\<rparr>"

lemma built_line:
  assumes "build_json dm act w opts 2048 = (CCM_OK, line)" and "plain_options opts"
  shows "unat w < length ccm_algorithm_ids \<and> length line < 2048
    \<and> line = request_text dm act (algorithm_text (ccm_algorithm_ids ! unat w)) opts"
proof -
  have "opt_request_id opts \<noteq> []" using assms(2) by (simp add: plain_options_def)
  from build_json_write [OF _ this, of 2048 dm act w] assms(1)
  show ?thesis by (cases "unat w < length ccm_algorithm_ids") (auto simp: sn_append_OK eq_commute [of "(CCM_OK, line)"])
qed

text \<open>No newline and no NUL, so that a line is read whole.\<close>

definition printable :: "cstring \<Rightarrow> bool" where
  "printable s \<longleftrightarrow> list_all (\<lambda>c. 0x20 \<le> (of_char c :: nat)) s"

lemma printable_append [simp]: "printable (s @ t) \<longleftrightarrow> printable s \<and> printable t"
  by (simp add: printable_def)

lemma printable_Cons [simp]: "printable (c # s) \<longleftrightarrow> 0x20 \<le> (of_char c :: nat) \<and> printable s"
  by (simp add: printable_def)

lemma printable_Nil [simp]: "printable []"
  by (simp add: printable_def)

lemma plain_printable: "list_all plain_char v \<Longrightarrow> printable v"
  by (auto simp: printable_def plain_char_def list_all_iff)

lemma json_object_printable:
  "\<forall>m \<in> set ms. printable (fst m) \<and> printable (snd m) \<Longrightarrow> printable (json_object ms)"
proof -
  have "\<forall>m \<in> set ms. printable (fst m) \<and> printable (snd m) \<Longrightarrow> printable (json_members ms)" for ms
    by (induction ms rule: json_members.induct) (simp_all add: json_member_def quoted_def)
  then show "\<forall>m \<in> set ms. printable (fst m) \<and> printable (snd m) \<Longrightarrow> printable (json_object ms)"
    by (simp add: json_object_def)
qed

lemma request_members_printable:
  assumes "plain_options opts" and "plain_name dm" and "plain_name act" and "plain_name alg"
  shows "printable (json_object (request_members dm act alg opts))"
proof (intro json_object_printable ballI)
  fix m assume m: "m \<in> set (request_members dm act alg opts)"
  show "printable (fst m) \<and> printable (snd m)"
    using request_members_plain [OF assms m] request_members_cases [OF m] request_keys_printable plain_printable
    by blast
qed

lemma printable_no_newline: "printable s \<Longrightarrow> CHR 0x0A \<notin> set s \<and> no_nul s"
  by (auto simp: printable_def no_nul_def list_all_iff)

lemma request_parsed:
  assumes "build_json (domain_to_string d) (action_to_string a) w opts 2048 = (CCM_OK, line)"
    and "plain_options opts" and "d \<noteq> DOMAIN_UNKNOWN" and "a \<noteq> ACTION_UNKNOWN"
  obtains json where "line = json @ [CHR 0x0A]" "length json < 2047" "printable json"
    "parse_request_json json 256 =
       Inr (parsed_request d a (algorithm_text (ccm_algorithm_ids ! unat w)) opts)"
proof -
  let ?alg = "algorithm_text (ccm_algorithm_ids ! unat w)"
  let ?ms = "request_members (domain_to_string d) (action_to_string a) ?alg opts"
  have names: "plain_name (domain_to_string d)" "plain_name (action_to_string a)" "plain_name ?alg"
    by (simp_all add: plain_domain plain_action plain_algorithm)
  note b = built_line [OF assms(1,2)]
  have line: "line = json_object ?ms @ [CHR 0x0A]"
    using b plain_request(1) [OF assms(2) names] by simp
  have lens: "length (opt_request_id opts) < MAX_ID_LEN" "length (opt_payload opts) < MAX_PAYLOAD_LEN"
    "length (opt_aux_payload opts) < MAX_PAYLOAD_LEN" "length (opt_device_hint opts) < MAX_FIELD_LEN"
    "length (opt_preference opts) < MAX_FIELD_LEN" "length (opt_sequence opts) < MAX_PAYLOAD_LEN"
    using assms(2) by (simp_all add: plain_options_def size_defs)
  have known: "parse_domain (Some (domain_to_string d)) = d" "parse_action (Some (action_to_string a)) = a"
    using dom_codec.parse_to_str [OF assms(3)] act_codec.parse_to_str [OF assms(4)] by simp_all
  have "parse_request_json (json_object ?ms) 256 = Inr (parsed_request d a ?alg opts)"
    by (subst parse_request_json_object_aux [OF plain_request(2) [OF assms(2) names],
          of "opt_request_id opts" "domain_to_string d" "action_to_string a" ?alg ?alg 256])
      (use names lens known assms(3,4) algorithm_text_normal
        in \<open>simp_all add: map_of_request_members plain_name_def member_or_empty_request parsed_request_def\<close>)
  with that [OF line] b line request_members_printable [OF assms(2) names] show thesis by simp
qed

lemma request_accepted:
  assumes "build_json (domain_to_string d) (action_to_string a) w opts 2048 = (CCM_OK, line)"
    and "plain_options opts" and "d \<noteq> DOMAIN_UNKNOWN" and "a \<noteq> ACTION_UNKNOWN"
  shows "accept_line (map Byte line @ evs) = Inr (parsed_request d a (algorithm_text (ccm_algorithm_ids ! unat w)) opts)"
proof -
  obtain json where j: "line = json @ [CHR 0x0A]" "length json < 2047" "printable json"
    "parse_request_json json 256 = Inr (parsed_request d a (algorithm_text (ccm_algorithm_ids ! unat w)) opts)"
    using request_parsed [OF assms(1-4)] by blast
  have "json \<noteq> []" using j(4) by (auto simp: parse_request_json_def extract_json_string_def quoted_def)
  then show ?thesis
    using j printable_no_newline [OF j(3)] read_line_bytes [of json 2047 evs] by (simp add: accept_line_def)
qed

subsection \<open>Key references\<close>

lemma starts_with_name:
  "starts_with_str t name \<and> starts_with_str (drop (length name) t) ''='' \<longleftrightarrow> starts_with_str t (name @ ''='')"
proof -
  have "starts_with_str t (name @ ''='') \<longleftrightarrow> (\<exists>r. t = (name @ ''='') @ r)" by (rule starts_with_str_iff)
  also have "\<dots> \<longleftrightarrow> starts_with_str t name \<and> starts_with_str (drop (length name) t) ''=''"
    by (auto simp: starts_with_str_iff)
  finally show ?thesis by simp
qed

lemma strtok_semi:
  "t \<noteq> [] \<Longrightarrow> CHR '';'' \<notin> set t \<Longrightarrow> strtok CHR '';'' (t @ semi ts) = Some (t, drop 1 (semi ts))"
  by (cases ts) (simp_all add: strtok_last strtok_plain)

text \<open>The loop over the tokens finds the first token of the name.\<close>

lemma find_token_semi:
  assumes "\<forall>t \<in> set ts. t \<noteq> [] \<and> CHR '';'' \<notin> set t"
  shows "find_token name sz (drop 1 (semi ts)) =
    (case find (\<lambda>t. starts_with_str t (name @ ''='')) ts of
       None \<Rightarrow> None
     | Some t \<Rightarrow> let v = snprintf_s sz (drop (length name + 1) t) in if v = [] then None else Some v)"
  using assms
proof (induction ts)
  case Nil
  then show ?case by (subst find_token.simps) simp
next
  case (Cons t ts)
  then have "strtok CHR '';'' (drop 1 (semi (t # ts))) = Some (t, drop 1 (semi ts))"
    using strtok_semi [of t ts] by simp
  with Cons show ?case
    by (subst find_token.simps) (simp add: starts_with_name del: semi_Cons)
qed

lemma dec_nat_no_semi: "CHR '';'' \<notin> set (dec_nat n)"
proof -
  have "\<not> is_digit CHR '';''" by code_simp
  then show ?thesis using dec_nat_digits [of n] by (auto simp: list_all_iff)
qed

lemma hex_char_no_semi: "n < 16 \<Longrightarrow> hex_char n \<noteq> CHR '';''"
proof
  assume "n < 16" and "hex_char n = CHR '';''"
  then have "(of_char (hex_char n) :: nat) = 59" and "n < 16" by simp_all
  then show False by (auto simp: hex_char_def take_bit_eq_mod split: if_splits)
qed

lemma hex_nat_no_semi: "CHR '';'' \<notin> set (hex_nat n)"
proof (induction n rule: hex_nat.induct)
  case (1 n)
  then show ?case using hex_char_no_semi [of n] hex_char_no_semi [of "n mod 16"]
    by (subst hex_nat.simps) (auto simp: eq_commute [of "CHR '';''"])
qed

lemma key_ref_tokens_ok:
  assumes "CHR '';'' \<notin> set (key_szKeyId k)" and "CHR '';'' \<notin> set (key_szDeviceId k)"
  shows "\<forall>t \<in> set (key_ref_tokens k). t \<noteq> [] \<and> CHR '';'' \<notin> set t"
  using assms dec_nat_no_semi hex_nat_no_semi
  by (auto simp: key_ref_tokens_def name_tokens_def num_token_def ptr_token_def fmt_ptr_def)

lemma dec_nat_eq_iff: "dec_nat m = dec_nat n \<longleftrightarrow> m = n"
  using nat_of_digits_dec_nat by metis

lemma dec_nat_small: "dec_nat 1 = ''1''" "dec_nat 2 = ''2''" "dec_nat 3 = ''3''" "dec_nat 4 = ''4''"
  by (simp_all add: dec_nat.simps char_of_def bit_Suc_0_iff)

lemma dec_nat_no_name: "\<not> is_digit c \<Longrightarrow> dec_nat n \<noteq> c # s"
  using dec_nat_head [of n] by auto

lemma written_key_ref:
  assumes "append_key_ref 512 k [] = (CCM_OK, t)"
  shows "t = drop 1 (semi (key_ref_tokens k)) \<and> t \<noteq> []"
proof -
  have "append_key_ref 512 k [] = sn_append 512 [] (tokens_after [] (key_ref_tokens k))"
    by (rule writes_tokensD [OF append_key_ref_write]) simp
  with assms have "t = drop 1 (semi (key_ref_tokens k))"
    by (auto simp: sn_append_OK tokens_after_def eq_commute [of "(CCM_OK, t)"])
  then show ?thesis by (simp add: key_ref_tokens_def num_token_def)
qed

lemma get_token_semi:
  assumes "t = drop 1 (semi ts)" and "t \<noteq> []" and "length t < MAX_FIELD_LEN"
    and "\<forall>t \<in> set ts. t \<noteq> [] \<and> CHR '';'' \<notin> set t" and "name \<noteq> []"
  shows "key_ref_get_token t name MAX_FIELD_LEN =
    (case find (\<lambda>t. starts_with_str t (name @ ''='')) ts of
       None \<Rightarrow> None
     | Some u \<Rightarrow> let v = snprintf_s MAX_FIELD_LEN (drop (length name + 1) u) in if v = [] then None else Some v)"
  using assms(2,3,5) find_token_semi [OF assms(4), of name MAX_FIELD_LEN, folded assms(1)]
  by (simp add: key_ref_get_token_def)

lemma length_token_semi: "x @ u \<in> set ts \<Longrightarrow> length u \<le> length (drop 1 (semi ts))"
proof (induction ts)
  case (Cons t ts)
  have "length u \<le> length (semi ts)" if "x @ u \<in> set ts" using Cons.IH [OF that] by simp
  with Cons.prems show ?case by auto
qed simp

text \<open>How the scheduler reads the number of a key source.\<close>

lemma source_names:
  "(if dec_nat n = ''internal_index'' then 1
    else if dec_nat n = ''session_handle'' then 2
    else if dec_nat n = ''external_key'' then 3
    else if dec_nat n = ''managed_key'' then 4
    else if dec_nat n = ''1'' then 1
    else if dec_nat n = ''2'' then 2
    else if dec_nat n = ''3'' then 3
    else if dec_nat n = ''4'' then 4
    else 0) = (if n \<le> 4 then n else 0)
   \<and> (dec_nat n = ''1'' \<or> dec_nat n = ''internal_index'' \<longleftrightarrow> n = 1)"
proof -
  have "\<not> is_digit CHR ''i''" "\<not> is_digit CHR ''s''" "\<not> is_digit CHR ''e''" "\<not> is_digit CHR ''m''"
    by code_simp+
  then show ?thesis unfolding dec_nat_small [symmetric] dec_nat_eq_iff
    by (auto simp: dec_nat_no_name)
qed

lemma number_source:
  assumes "key_ref_get_token t ''source'' MAX_FIELD_LEN = Some (dec_nat n)"
  shows "key_ref_source_value t = (if n \<le> 4 then n else 0) \<and> (key_ref_is_internal_index t \<longleftrightarrow> n = 1)"
  using source_names [of n]
  unfolding key_ref_source_value_def key_ref_is_internal_index_def assms option.case strcmp_eq_0 .

definition sample_key :: Unif_KeyRef where
  "sample_key = \<lparr>key_uiAlgID = 1, key_uiUsage = 1, key_uiSource = 1, key_uiKeyIndex = 3,
     key_hKeyHandle = 0, key_pExternalKey = 0, key_szKeyId = ''k1'', key_szDeviceId = ''card0''\<rparr>"

lemma sample_key_tokens:
  "append_key_ref 512 k [] = sn_append 512 [] (drop 1 (semi (key_ref_tokens k)))"
  using writes_tokensD [OF append_key_ref_write, of "[]" 512 k] by (simp add: tokens_after_def)

lemmas sample_key_texts = sample_key_tokens key_ref_tokens_def name_tokens_def num_token_def ptr_token_def
  fmt_ptr_def sample_key_def sn_append_def dec_nat_small [simplified] size_defs

lemma sample_key_written:
  "fst (append_key_ref 512 sample_key []) = CCM_OK \<and> length (snd (append_key_ref 512 sample_key [])) < MAX_FIELD_LEN"
  by (simp add: sample_key_texts)

lemma injected_key_written:
  "fst (append_key_ref 512 (sample_key \<lparr> key_szKeyId := ''k;device_id=other'' \<rparr>) []) = CCM_OK
   \<and> length (snd (append_key_ref 512 (sample_key \<lparr> key_szKeyId := ''k;device_id=other'' \<rparr>) [])) < MAX_FIELD_LEN"
  by (simp add: sample_key_texts)

subsection \<open>Properties\<close>

text \<open>
  The gateway reads what the client writes: a line \<^verbatim>\<open>build_json\<close> completes, from
  plain values, is one line of text that the gateway parses into a request with the client's
  domain, action, algorithm name and texts, and no PIN. A key reference of 256 bytes or more,
  which the client's array of 512 bytes allows, is dropped.
\<close>

lemma ccm_line_is_parsed:
  assumes "build_json (domain_to_string d) (action_to_string a) w opts 2048 = (CCM_OK, line)"
    and "plain_options opts" and "d \<noteq> DOMAIN_UNKNOWN" and "a \<noteq> ACTION_UNKNOWN"
  shows "\<exists>json. line = json @ [CHR 0x0A] \<and> CHR 0x0A \<notin> set json \<and> length json < 2047
    \<and> parse_request_json json 256 = Inr \<lparr>
        req_request_id = opt_request_id opts, req_domain = d, req_action = a,
        req_algorithm = algorithm_text (ccm_algorithm_ids ! unat w),
        req_key_ref = (if length (opt_key_ref opts) < MAX_FIELD_LEN then opt_key_ref opts else []),
        req_payload = opt_payload opts, req_aux_payload = opt_aux_payload opts,
        req_device_hint = opt_device_hint opts, req_user_pin = [],
        req_preference = parse_preference (Some (opt_preference opts)),
        req_sequence = opt_sequence opts\<rparr>"
  using request_parsed [OF assms] printable_no_newline unfolding parsed_request_def by metis

definition sample_options :: ccm_json_options_t where
  "sample_options = (init_opts ''ccm-hash'') \<lparr> opt_payload := ''data'' \<rparr>"

lemma sample_options_plain: "plain_options sample_options"
  by (simp add: plain_options_def sample_options_def init_opts_def request_keys_def plain_char_def)

lemma sample_build: "\<exists>line. build_json (domain_to_string DOMAIN_HASH) (action_to_string ACTION_HASH) 7
    sample_options 2048 = (CCM_OK, line)"
proof -
  let ?t = "request_text ''hash'' ''hash'' ''sm3'' sample_options"
  have "escape (opt_request_id sample_options) = opt_request_id sample_options"
    "escape (opt_payload sample_options) = opt_payload sample_options"
    using sample_options_plain escape_plain by (auto simp: plain_options_def)
  moreover have "escape ''hash'' = ''hash''" "escape ''sm3'' = ''sm3''"
    by (rule escape_plain, simp add: plain_char_def)+
  ultimately have "length ?t < 2048"
    by (simp add: request_text_def field_text_def render_field_def opt_field_text_def)
      (simp add: sample_options_def init_opts_def)
  then have "sn_append 2048 [] ?t = (CCM_OK, ?t)" by (simp add: sn_append_def)
  moreover have "opt_request_id sample_options \<noteq> []" using sample_options_plain by (simp add: plain_options_def)
  ultimately show ?thesis
    using build_json_write [of 2048 sample_options "''hash''" "''hash''" 7] by (simp add: ccm_algorithm_ids_def)
qed

text \<open>
  Property C39. End to end, no request of the client library passes a gateway with a PIN: the
  library never writes a \<^verbatim>\<open>user_pin\<close> member, so whatever plain line it builds is accepted by
  the accepting thread and then refused with status 401, without touching a device. The PIN
  given to \<^verbatim>\<open>CCM_Login\<close> is dropped.
\<close>

theorem ccm_request_is_refused:
  assumes "build_json (domain_to_string d) (action_to_string a) w opts 2048 = (CCM_OK, line)"
    and "plain_options opts" and "d \<noteq> DOMAIN_UNKNOWN" and "a \<noteq> ACTION_UNKNOWN"
    and "gateway_pin st \<noteq> []"
  shows "\<exists>req msg. accept_line (map Byte line @ evs) = Inr req
    \<and> req_request_id req = opt_request_id opts
    \<and> scheduler_execute skf (Some st) req state =
        (False, build_error_response req STATUS_UNAUTHORIZED msg, state)"
proof -
  let ?req = "parsed_request d a (algorithm_text (ccm_algorithm_ids ! unat w)) opts"
  have "req_user_pin ?req = []" "req_request_id ?req = opt_request_id opts"
    by (simp_all add: parsed_request_def)
  then show ?thesis
    using mismatched_pin [OF assms(5), of ?req skf state] assms(5) request_accepted [OF assms(1-4)] by auto
qed

theorem ccm_request_is_refused_witness:
  "\<exists>line req msg. build_json ''hash'' ''hash'' 7 sample_options 2048 = (CCM_OK, line)
    \<and> accept_line (map Byte line @ []) = Inr req
    \<and> scheduler_execute classic_driver_ops (Some sample_settings) req (sample_registry, ()) =
        (False, build_error_response req STATUS_UNAUTHORIZED msg, (sample_registry, ()))"
proof -
  have names: "domain_to_string DOMAIN_HASH = ''hash''" "action_to_string ACTION_HASH = ''hash''"
    by code_simp+
  obtain line where b: "build_json (domain_to_string DOMAIN_HASH) (action_to_string ACTION_HASH) 7
      sample_options 2048 = (CCM_OK, line)" using sample_build by blast
  have pin: "gateway_pin sample_settings \<noteq> []" by (simp add: sample_settings_def)
  from ccm_request_is_refused [OF b sample_options_plain _ _ pin, of "[]" classic_driver_ops "(sample_registry, ())"] b
  show ?thesis unfolding names by fastforce
qed

text \<open>
  Property C40. The scheduler reads a key reference as the client wrote it: the key index, the
  device name and the source of the key come back, and exactly the keys of source 1 are bound
  to their device. It holds when the names have no semicolon and the text is short enough for
  the gateway's 256 bytes.
\<close>

theorem key_ref_read_back:
  assumes "append_key_ref 512 k [] = (CCM_OK, t)" and "length t < MAX_FIELD_LEN"
    and "CHR '';'' \<notin> set (key_szKeyId k)" and "CHR '';'' \<notin> set (key_szDeviceId k)"
  shows "key_ref_get_token t ''key_index'' MAX_FIELD_LEN = Some (dec_nat (unat (key_uiKeyIndex k)))
    \<and> key_ref_get_token t ''device_id'' MAX_FIELD_LEN =
        (if key_szDeviceId k = [] then None else Some (key_szDeviceId k))
    \<and> key_ref_source_value t = (if unat (key_uiSource k) \<le> 4 then unat (key_uiSource k) else 0)
    \<and> (key_ref_is_internal_index t \<longleftrightarrow> unat (key_uiSource k) = 1)"
proof -
  note t = written_key_ref [OF assms(1)]
  note get = get_token_semi [OF conjunct1 [OF t] conjunct2 [OF t] assms(2) key_ref_tokens_ok [OF assms(3,4)]]
  have len: "length u < MAX_FIELD_LEN" if "x @ u \<in> set (key_ref_tokens k)" for x u
    using length_token_semi [OF that] t assms(2) by simp
  have source: "key_ref_get_token t ''source'' MAX_FIELD_LEN = Some (dec_nat (unat (key_uiSource k)))"
    using len [of "''source=''"] by (simp add: get key_ref_tokens_def num_token_def starts_with_str_def)
  have index: "key_ref_get_token t ''key_index'' MAX_FIELD_LEN = Some (dec_nat (unat (key_uiKeyIndex k)))"
    using len [of "''key_index=''"] by (simp add: get key_ref_tokens_def num_token_def starts_with_str_def)
  have device: "key_ref_get_token t ''device_id'' MAX_FIELD_LEN =
      (if key_szDeviceId k = [] then None else Some (key_szDeviceId k))"
    using len [of "''device_id=''" "key_szDeviceId k"]
    by (simp add: get key_ref_tokens_def name_tokens_def num_token_def ptr_token_def starts_with_str_def)
  show ?thesis using index device number_source [OF source] by simp
qed

theorem key_ref_read_back_witness:
  "\<exists>t. append_key_ref 512 sample_key [] = (CCM_OK, t)
    \<and> key_ref_get_token t ''device_id'' MAX_FIELD_LEN = Some ''card0'' \<and> key_ref_is_internal_index t"
proof -
  note w = sample_key_written
  have k: "CHR '';'' \<notin> set (key_szKeyId sample_key)" "CHR '';'' \<notin> set (key_szDeviceId sample_key)"
    "key_szDeviceId sample_key = ''card0''" "unat (key_uiSource sample_key) = 1"
    by (simp_all add: sample_key_def)
  have a: "append_key_ref 512 sample_key [] = (CCM_OK, snd (append_key_ref 512 sample_key []))"
    using w by (metis prod.collapse)
  from key_ref_read_back [OF a conjunct2 [OF w] k(1,2)] a k(3,4) show ?thesis by auto
qed

text \<open>
  The names of a key are not checked by the client: a key name with
  \<open>;device_id=\<close> in it adds a token of its own, which the scheduler finds before the key's own
  device name. Whatever \<^verbatim>\<open>szDeviceId\<close> says, a key of source 1 is then bound to the device named
  in \<^verbatim>\<open>szKeyId\<close>.
\<close>

lemma key_id_injects_device:
  assumes "append_key_ref 512 k [] = (CCM_OK, t)" and "length t < MAX_FIELD_LEN"
    and "key_szKeyId k = a @ '';device_id='' @ e" and "CHR '';'' \<notin> set a" and "e \<noteq> []"
    and "CHR '';'' \<notin> set e" and "CHR '';'' \<notin> set (key_szDeviceId k)" and "unat (key_uiSource k) = 1"
  shows "resolve_device_hint_from_key_ref (zero_request \<lparr> req_key_ref := t \<rparr>) t MAX_FIELD_LEN 256 = Inr e"
proof -
  note w = written_key_ref [OF assms(1)]
  let ?ts = "key_ref_tokens (k \<lparr> key_szKeyId := [], key_szDeviceId := [] \<rparr>)
      @ [''key_id='' @ a, ''device_id='' @ e]
      @ (if key_szDeviceId k = [] then [] else [''device_id='' @ key_szDeviceId k])"
  have "semi (key_ref_tokens k) = semi ?ts"
    using assms(3) by (simp add: key_ref_tokens_def name_tokens_def)
  then have t: "t = drop 1 (semi ?ts)" using w by simp
  have ok: "\<forall>t \<in> set ?ts. t \<noteq> [] \<and> CHR '';'' \<notin> set t"
    using assms(4,6,7) key_ref_tokens_ok [of "k \<lparr> key_szKeyId := [], key_szDeviceId := [] \<rparr>"] by auto
  note get = get_token_semi [OF t conjunct2 [OF w] assms(2) ok]
  have len: "length u < MAX_FIELD_LEN" if "x @ u \<in> set ?ts" for x u
    using length_token_semi [OF that] t assms(2) by simp
  have source: "key_ref_get_token t ''source'' MAX_FIELD_LEN = Some (dec_nat (unat (key_uiSource k)))"
    using len [of "''source=''"]
    by (simp add: get key_ref_tokens_def name_tokens_def num_token_def starts_with_str_def)
  have device: "key_ref_get_token t ''device_id'' MAX_FIELD_LEN = Some e"
    using len [of "''device_id=''" e] assms(5)
    by (simp add: get key_ref_tokens_def name_tokens_def num_token_def ptr_token_def starts_with_str_def)
  have "length e < MAX_FIELD_LEN" using len [of "''device_id=''" e] by simp
  then show ?thesis using device number_source [OF source] assms(8)
    by (simp add: resolve_device_hint_from_key_ref_def zero_request_def)
qed

end
