(* ===== verification/Ccm_Operations.thy ===== *)
theory Ccm_Operations
  imports Ccm_Gateway
begin

text \<open>
  The public operations of \<^verbatim>\<open>src/client/api/ccm_api.c\<close> from end to end: for known algorithms and
  plain key names each builds a complete line, which the gateway accepts as the request it
  stands for, with its arguments; only a key reference that is too long for the gateway is lost.
\<close>

subsection \<open>Lengths of tokens\<close>

lemma length_hex_nat: "n < 16 ^ k \<Longrightarrow> 0 < k \<Longrightarrow> length (hex_nat n) \<le> k"
proof (induction k arbitrary: n)
  case (Suc k)
  show ?case
  proof (cases "n < 16")
    case True
    then show ?thesis by (simp add: hex_nat.simps [of n])
  next
    case False
    then have "n div 16 < 16 ^ k" "0 < k"
      using Suc.prems by (auto simp: less_mult_imp_div_less mult.commute intro: Suc_leI gr0I)
    with Suc.IH [of "n div 16"] False show ?thesis by (simp add: hex_nat.simps [of n])
  qed
qed simp

lemma length_num_token: "length (num_token name v) \<le> length name + 11"
proof -
  have "unat v < 2 ^ 32" by (rule order.strict_trans2 [OF unsigned_less]) simp
  then have "unat v < 10 ^ 10" by simp
  then show ?thesis using length_dec_nat [of "unat v" 10] by (simp add: num_token_def)
qed

lemma length_ptr_token: "length (ptr_token name p) \<le> length name + 19"
proof -
  have "unat p < 2 ^ 64" by (rule order.strict_trans2 [OF unsigned_less]) simp
  then have "unat p < 16 ^ 16" by simp
  then show ?thesis using length_hex_nat [of "unat p" 16] by (simp add: ptr_token_def fmt_ptr_def)
qed

subsection \<open>Plain tokens\<close>

definition plain_token :: "cstring \<Rightarrow> bool" where
  "plain_token t \<longleftrightarrow> list_all plain_char t \<and> CHR ''='' \<in> set t"

lemma plain_char_const: "list_all plain_char ''key_id=''" "list_all plain_char ''device_id=''" "list_all plain_char ''(nil)''"
    "list_all plain_char ''0x''" "plain_char CHR '';''" "plain_char CHR ''=''"
  by (simp_all add: plain_char_def)

lemma plain_char_code: "plain_char c \<longleftrightarrow> 32 \<le> (of_char c :: nat) \<and> of_char c \<noteq> (34 :: nat) \<and> of_char c \<noteq> (92 :: nat)"
proof -
  have "c = CHR 0x22 \<longleftrightarrow> of_char c = (of_char (CHR 0x22) :: nat)" "c = CHR 0x5C \<longleftrightarrow> of_char c = (of_char (CHR 0x5C) :: nat)"
    by (simp_all only: of_char_eq_iff)
  then show ?thesis by (auto simp: plain_char_def)
qed

lemma dec_nat_plain: "list_all plain_char (dec_nat n)"
proof -
  have "is_digit c \<Longrightarrow> plain_char c" for c by (auto simp: is_digit_def plain_char_code Let_def)
  then show ?thesis using dec_nat_digits [of n] by (auto simp: list_all_iff)
qed

lemma hex_char_plain: "n < 16 \<Longrightarrow> plain_char (hex_char n)"
  by (simp add: hex_char_def plain_char_code take_bit_eq_mod)

lemma hex_nat_plain: "list_all plain_char (hex_nat n)"
proof (induction n rule: hex_nat.induct)
  case (1 n)
  then show ?case using hex_char_plain [of n] hex_char_plain [of "n mod 16"] by (subst hex_nat.simps) auto
qed

lemma num_token_plain: "list_all plain_char name \<Longrightarrow> plain_token (num_token name v)"
  by (simp add: plain_token_def num_token_def dec_nat_plain plain_char_const)

lemma ptr_token_plain: "list_all plain_char name \<Longrightarrow> plain_token (ptr_token name p)"
  using hex_nat_plain by (auto simp: plain_token_def ptr_token_def fmt_ptr_def plain_char_def)

text \<open>Names within their arrays that are written as they are.\<close>

definition plain_key :: "Unif_KeyRef \<Rightarrow> bool" where
  "plain_key k \<longleftrightarrow> list_all plain_char (key_szKeyId k) \<and> length (key_szKeyId k) < 64
     \<and> list_all plain_char (key_szDeviceId k) \<and> length (key_szDeviceId k) < 64"

text \<open>A writer of the plain tokens \<open>ts\<close>, which take at most \<open>n\<close> bytes.\<close>

definition writes_plain :: "nat \<Rightarrow> cstring list \<Rightarrow> nat \<Rightarrow> (cstring \<Rightarrow> ccm_status \<times> cstring) \<Rightarrow> bool" where
  "writes_plain sz ts n f \<longleftrightarrow> writes_tokens sz f ts \<and> list_all plain_token ts \<and> ts \<noteq> [] \<and> length (semi ts) \<le> n"

lemma alg_params_plain: "writes_plain sz (alg_params_tokens a) 130 (append_alg_params sz a)"
proof -
  have "list_all plain_token (alg_params_tokens a)"
    by (simp add: alg_params_tokens_def num_token_plain ptr_token_plain plain_char_def)
  moreover have "length (semi (alg_params_tokens a)) \<le> 130"
    using length_num_token [of "''mode''" "alg_uiMode a"] length_num_token [of "''padding''" "alg_uiPadding a"]
      length_num_token [of "''hash_alg''" "alg_uiHashAlgID a"]
      length_num_token [of "''security_level''" "alg_uiSecurityLevel a"]
      length_ptr_token [of "''ex_params''" "alg_pExParams a"]
    by (simp add: alg_params_tokens_def)
  ultimately show ?thesis
    unfolding writes_plain_def using append_alg_params_write [of sz a] by (simp add: alg_params_tokens_def)
qed

lemma key_ref_plain:
  assumes "plain_key k"
  shows "writes_plain sz (key_ref_tokens k) 290 (append_key_ref sz k)"
proof -
  have "list_all plain_token (key_ref_tokens k)"
    using assms plain_char_const
    by (auto simp: key_ref_tokens_def name_tokens_def plain_key_def plain_token_def [of "_ # _"]
        intro!: num_token_plain ptr_token_plain) (simp_all add: plain_char_def)
  moreover have "length (semi (key_ref_tokens k)) \<le> 290"
    using length_num_token [of "''alg''" "key_uiAlgID k"] length_num_token [of "''usage''" "key_uiUsage k"]
      length_num_token [of "''source''" "key_uiSource k"] length_num_token [of "''key_index''" "key_uiKeyIndex k"]
      length_ptr_token [of "''key_handle''" "key_hKeyHandle k"]
      length_ptr_token [of "''external_key''" "key_pExternalKey k"] assms
    by (simp add: key_ref_tokens_def name_tokens_def plain_key_def)
  ultimately show ?thesis
    unfolding writes_plain_def using append_key_ref_write [of sz k] by (simp add: key_ref_tokens_def)
qed

lemma buffer_plain:
  assumes "list_all plain_char name" "length name \<le> 14"
  shows "writes_plain sz (buffer_tokens name b) 50 (append_buffer sz name b)"
proof -
  have "list_all plain_token (buffer_tokens name b)"
    using assms(1) by (simp add: buffer_tokens_def num_token_plain ptr_token_plain plain_char_def)
  moreover have "length (semi (buffer_tokens name b)) \<le> 50"
    using length_ptr_token [of name "buf_pucData b"] length_num_token [of "''len''" "buf_uiDataLen b"] assms(2)
    by (simp add: buffer_tokens_def)
  ultimately show ?thesis
    unfolding writes_plain_def using append_buffer_write [of sz name b] by (simp add: buffer_tokens_def)
qed

lemma token_plain:
  assumes "list_all plain_char name" "length name \<le> 14"
  shows "writes_plain sz [num_token name v] 50 (append_token sz name v)"
  unfolding writes_plain_def using length_num_token [of name v] assms
  by (simp add: append_token_write num_token_plain)

lemma pointer_plain:
  assumes "list_all plain_char name" "length name \<le> 14"
  shows "writes_plain sz [ptr_token name p] 50 (append_ptr sz name p)"
  unfolding writes_plain_def using length_ptr_token [of name p] assms
  by (simp add: append_ptr_write ptr_token_plain)

subsection \<open>The options an operation fills\<close>

definition plain_text :: "cstring \<Rightarrow> bool" where
  "plain_text t \<longleftrightarrow> list_all plain_char t \<and> (t = [] \<or> CHR ''='' \<in> set t)"

lemma plain_text_no_key: "plain_text t \<Longrightarrow> t \<notin> set request_keys"
  by (auto simp: plain_text_def request_keys_def)

lemma semi_plain: "list_all plain_token ts \<Longrightarrow> list_all plain_char (semi ts)"
  by (induction ts) (simp_all add: plain_token_def plain_char_def)

text \<open>The text of some tokens, as it stands in a buffer of its own.\<close>

definition joined :: "cstring list \<Rightarrow> cstring" where
  "joined ts = drop 1 (semi ts)"

lemma joined_Nil [simp]: "joined [] = []"
  by (simp add: joined_def)

lemma length_joined: "length (joined ts) \<le> length (semi ts)"
  by (simp add: joined_def)

lemma joined_append: "list_all plain_token ts \<Longrightarrow>
    joined (ts @ us) = joined ts @ tokens_after (joined ts) us"
proof (cases ts)
  case (Cons t ts')
  assume "list_all plain_token ts"
  with Cons show ?thesis by (auto simp: joined_def tokens_after_def plain_token_def)
qed (simp add: joined_def tokens_after_def)

text \<open>Writing more tokens into a buffer of \<open>sz\<close> bytes, which cuts what does not fit.\<close>

lemma plain_write:
  assumes "writes_plain sz us m f" and "list_all plain_token ts" and "m < sz"
    and "plain_text (take (sz - 1) (joined ts))"
  defines "out \<equiv> take (sz - 1) (joined ts)"
  shows "snd (f out) = take (sz - 1) (joined (ts @ us))"
    and "plain_text (take (sz - 1) (joined (ts @ us)))"
    and "length (semi ts) + m < sz \<Longrightarrow> fst (f out) = CCM_OK"
proof -
  have us: "list_all plain_token us" "us \<noteq> []" "length (semi us) \<le> m"
    and f: "f out = sn_append sz out (tokens_after out us)"
    using assms(1,3) by (auto simp: writes_plain_def writes_tokens_def out_def)
  have empty: "out = [] \<longleftrightarrow> joined ts = []" using assms(3) us(2,3) by (cases us) (auto simp: out_def)
  then have app: "joined (ts @ us) = joined ts @ tokens_after out us"
    using joined_append [OF assms(2), of us] by (simp add: tokens_after_def)
  show eq: "snd (f out) = take (sz - 1) (joined (ts @ us))"
    using f assms(3) by (cases "length (joined ts) \<le> sz - 1") (auto simp: app sn_append_def out_def)
  have chars: "list_all plain_char (tokens_after out us)"
    using semi_plain [OF us(1)] by (auto simp: tokens_after_def list_all_iff dest: in_set_dropD)
  have "CHR ''='' \<in> set (take (sz - 1) (tokens_after [] us))"
    using us assms(3) by (cases us) (auto simp: tokens_after_def plain_token_def)
  then show "plain_text (take (sz - 1) (joined (ts @ us)))"
    using assms(4) chars empty unfolding app
    by (cases "joined ts = []") (auto simp: plain_text_def out_def list_all_iff dest: in_set_takeD)
  show "fst (f out) = CCM_OK" if "length (semi ts) + m < sz"
  proof -
    have "length out + length (tokens_after out us) < sz"
      using that us(3) length_joined [of ts] by (auto simp: tokens_after_def out_def)
    then show ?thesis using f by (simp add: sn_append_def)
  qed
qed

text \<open>
  Options as the operations fill them: the key reference, the payload and the second payload
  hold the tokens \<open>ks\<close>, \<open>ps\<close> and \<open>xs\<close>. Only the key reference can be cut; its tokens take at most
  \<open>nk\<close> bytes, those of the payloads at most \<open>np\<close> and \<open>nx\<close>.
\<close>

definition holding ::
  "nat \<Rightarrow> nat \<Rightarrow> nat \<Rightarrow> cstring list \<Rightarrow> cstring list \<Rightarrow> cstring list \<Rightarrow> ccm_json_options_t \<Rightarrow> bool" where
  "holding nk np nx ks ps xs o1 \<longleftrightarrow>
     opt_key_ref o1 = take 511 (joined ks) \<and> opt_payload o1 = joined ps \<and> opt_aux_payload o1 = joined xs
     \<and> list_all plain_token (ks @ ps @ xs)
     \<and> plain_text (take 511 (joined ks)) \<and> plain_text (joined ps) \<and> plain_text (joined xs)
     \<and> length (semi ks) \<le> nk \<and> length (semi ps) \<le> np \<and> length (semi xs) \<le> nx \<and> np < 1024 \<and> nx < 1024
     \<and> opt_request_id o1 \<noteq> [] \<and> list_all plain_char (opt_request_id o1) \<and> opt_request_id o1 \<notin> set request_keys
     \<and> length (opt_request_id o1) < 64 \<and> opt_device_hint o1 = [] \<and> opt_preference o1 = []
     \<and> list_all plain_char (opt_sequence o1) \<and> opt_sequence o1 \<notin> set request_keys \<and> length (opt_sequence o1) < 64"

lemma holding_init:
  assumes "rid \<noteq> []" "list_all plain_char rid" "rid \<notin> set request_keys" "length rid < 64"
  shows "holding 0 0 0 [] [] [] (init_opts rid)"
  using assms by (simp add: holding_def init_opts_def plain_text_def snprintf_s_def request_keys_def)

lemma semi_fits: "length (semi ts) < 1024 \<Longrightarrow> take 1023 (joined ts) = joined ts"
  using length_joined [of ts] by simp

lemma key_ref_holding:
  assumes "writes_plain 512 us m (f 512)" and "holding nk np nx ks ps xs o1" and "m < 512"
  shows "holding (nk + m) np nx (ks @ us) ps xs (snd (on_key_ref f o1))"
    and "nk + m < 512 \<Longrightarrow> fst (on_key_ref f o1) = CCM_OK"
  using plain_write [OF assms(1), of ks] assms
  by (auto simp: holding_def on_key_ref_def writes_plain_def split: prod.split)

lemma payload_holding:
  assumes "writes_plain 1024 us m (f 1024)" and "holding nk np nx ks ps xs o1" and "np + m < 1024"
  shows "holding nk (np + m) nx ks (ps @ us) xs (snd (on_payload f o1))"
    and "fst (on_payload f o1) = CCM_OK"
proof -
  have us: "list_all plain_token us" "length (semi us) \<le> m" using assms(1) by (simp_all add: writes_plain_def)
  have "length (semi ps) < 1024" "length (semi (ps @ us)) < 1024"
    using assms(2,3) us(2) by (simp_all add: holding_def)
  note fits = this [THEN semi_fits]
  with plain_write [OF assms(1), of ps] assms(2,3) us
  show "holding nk (np + m) nx ks (ps @ us) xs (snd (on_payload f o1))" "fst (on_payload f o1) = CCM_OK"
    by (auto simp: holding_def on_payload_def split: prod.split)
qed

lemma aux_payload_holding:
  assumes "writes_plain 1024 us m (f 1024)" and "holding nk np nx ks ps xs o1" and "nx + m < 1024"
  shows "holding nk np (nx + m) ks ps (xs @ us) (snd (on_aux_payload f o1))"
    and "fst (on_aux_payload f o1) = CCM_OK"
proof -
  have us: "list_all plain_token us" "length (semi us) \<le> m" using assms(1) by (simp_all add: writes_plain_def)
  have "length (semi xs) < 1024" "length (semi (xs @ us)) < 1024"
    using assms(2,3) us(2) by (simp_all add: holding_def)
  note fits = this [THEN semi_fits]
  with plain_write [OF assms(1), of xs] assms(2,3) us
  show "holding nk np (nx + m) ks ps (xs @ us) (snd (on_aux_payload f o1))" "fst (on_aux_payload f o1) = CCM_OK"
    by (auto simp: holding_def on_aux_payload_def split: prod.split)
qed

subsection \<open>The line of an operation\<close>

lemma length_opt_field_text: "list_all plain_char v \<Longrightarrow> length (opt_field_text name v) \<le> length name + length v + 6"
  by (simp add: opt_field_text_def field_text_def render_field_def escape_plain)

lemma length_field_text: "list_all plain_char v \<Longrightarrow> length (field_text name v comma) \<le> length name + length v + 6"
  by (simp add: field_text_def render_field_def escape_plain)

text \<open>
  A complete line is built, which the gateway accepts as a request with the domain, the action
  and the algorithm, with the tokens \<open>ps\<close> and \<open>xs\<close> as its two payloads, and with the tokens \<open>ks\<close> as
  its key reference when their text fits the 256 bytes the gateway has for it. A longer one
  is dropped by the gateway, so a key reference the client had to cut never arrives.
\<close>

definition understood ::
  "api_domain_t \<Rightarrow> api_action_t \<Rightarrow> 32 word \<Rightarrow> cstring list \<Rightarrow> cstring list \<Rightarrow> cstring list
     \<Rightarrow> ccm_status \<times> cstring \<Rightarrow> bool" where
  "understood d a w ks ps xs r \<longleftrightarrow> fst r = CCM_OK \<and>
     (\<forall>evs. \<exists>req. accept_line (map Byte (snd r) @ evs) = Inr req \<and> req_domain req = d \<and> req_action req = a
        \<and> req_algorithm req = algorithm_text (ccm_algorithm_ids ! unat w)
        \<and> req_key_ref req = (if length (joined ks) < MAX_FIELD_LEN then joined ks else [])
        \<and> req_payload req = joined ps \<and> req_aux_payload req = joined xs)"

lemma build_understood:
  assumes "holding nk np nx ks ps xs o1" and "np + nx \<le> 900" and "unat w < length ccm_algorithm_ids"
    and "d \<noteq> DOMAIN_UNKNOWN" and "a \<noteq> ACTION_UNKNOWN"
  shows "understood d a w ks ps xs (build_json (domain_to_string d) (action_to_string a) w o1 2048)"
proof -
  let ?alg = "algorithm_text (ccm_algorithm_ids ! unat w)"
  let ?line = "request_text (domain_to_string d) (action_to_string a) ?alg o1"
  have lens: "length (opt_key_ref o1) \<le> 511" "length (opt_payload o1) \<le> np" "length (opt_aux_payload o1) \<le> nx"
    using assms(1) length_joined [of ps] length_joined [of xs] by (auto simp: holding_def)
  have plain: "plain_options o1"
    using assms(1) lens plain_text_no_key by (auto simp: holding_def plain_options_def plain_text_def request_keys_def)
  have names: "list_all plain_char (domain_to_string d)" "list_all plain_char (action_to_string a)" "list_all plain_char ?alg"
    using plain_domain plain_action plain_algorithm by (simp_all add: plain_name_def)
  have short: "length (domain_to_string d) \<le> 7" "length (action_to_string a) \<le> 30" "length ?alg < 64"
    by (simp_all add: name_lengths algorithm_text_short)
  have o1: "opt_device_hint o1 = []" "opt_preference o1 = []" "length (opt_request_id o1) < 64"
    "length (opt_sequence o1) < 64" "list_all plain_char (opt_request_id o1)" "list_all plain_char (opt_sequence o1)"
    "list_all plain_char (opt_key_ref o1)" "list_all plain_char (opt_payload o1)" "list_all plain_char (opt_aux_payload o1)"
    using assms(1) by (simp_all add: holding_def plain_text_def)
  have none: "opt_field_text name [] = []" for name by (simp add: opt_field_text_def)
  have "length ?line < 2048"
    using assms(2) short lens o1(3,4)
      length_field_text [OF o1(5), of "''request_id''" False]
      length_field_text [OF names(1), of "''domain''" True] length_field_text [OF names(2), of "''action''" True]
      length_field_text [OF names(3), of "''algorithm''" True]
      length_opt_field_text [OF o1(7), of "''key_ref''"] length_opt_field_text [OF o1(8), of "''payload''"]
      length_opt_field_text [OF o1(9), of "''aux_payload''"] length_opt_field_text [OF o1(6), of "''sequence''"]
    by (simp add: request_text_def o1(1,2) none)
  then have b: "build_json (domain_to_string d) (action_to_string a) w o1 2048 = (CCM_OK, ?line)"
    using build_json_write [of 2048 o1 "domain_to_string d" "action_to_string a" w] assms(1,3)
    by (simp add: holding_def sn_append_def)
  have "opt_key_ref o1 = take 511 (joined ks)" "opt_payload o1 = joined ps" "opt_aux_payload o1 = joined xs"
    using assms(1) by (simp_all add: holding_def)
  moreover have "(if length (take 511 t) < MAX_FIELD_LEN then take 511 t else []) = (if length t < MAX_FIELD_LEN then t else [])"
    for t :: cstring by (auto simp: MAX_FIELD_LEN_def min_def split: if_splits)
  ultimately show ?thesis unfolding understood_def
    using request_accepted [OF b plain assms(4,5)] by (simp only: b parsed_request_def fst_conv snd_conv request_t.select_convs simp_thms) simp
qed

subsection \<open>Every operation\<close>

text \<open>Each rule takes the state before an argument of the operation is written to the one after.\<close>

lemma holding_steps:
  "holding nk np nx ks ps xs o1 \<Longrightarrow> plain_key k \<Longrightarrow>
     holding (nk + 290) np nx (ks @ key_ref_tokens k) ps xs (snd (on_key_ref (\<lambda>sz. append_key_ref sz k) o1))"
  "holding nk np nx ks ps xs o1 \<Longrightarrow> np + 130 < 1024 \<Longrightarrow>
     holding nk (np + 130) nx ks (ps @ alg_params_tokens a) xs (snd (on_payload (\<lambda>sz. append_alg_params sz a) o1))"
  "holding nk np nx ks ps xs o1 \<Longrightarrow> nx + 290 < 1024 \<Longrightarrow> plain_key k \<Longrightarrow>
     holding nk np (nx + 290) ks ps (xs @ key_ref_tokens k) (snd (on_aux_payload (\<lambda>sz. append_key_ref sz k) o1))"
  "holding nk np nx ks ps xs o1 \<Longrightarrow> np + 50 < 1024 \<Longrightarrow> list_all plain_char name \<Longrightarrow> length name \<le> 14 \<Longrightarrow>
     holding nk (np + 50) nx ks (ps @ buffer_tokens name b) xs (snd (on_payload (\<lambda>sz. append_buffer sz name b) o1))"
  "holding nk np nx ks ps xs o1 \<Longrightarrow> nx + 50 < 1024 \<Longrightarrow> list_all plain_char name \<Longrightarrow> length name \<le> 14 \<Longrightarrow>
     holding nk np (nx + 50) ks ps (xs @ buffer_tokens name b) (snd (on_aux_payload (\<lambda>sz. append_buffer sz name b) o1))"
  "holding nk np nx ks ps xs o1 \<Longrightarrow> list_all plain_char name \<Longrightarrow> length name \<le> 14 \<Longrightarrow>
     holding (nk + 50) np nx (ks @ [num_token name v]) ps xs (snd (on_key_ref (\<lambda>sz. append_token sz name v) o1))"
  "holding nk np nx ks ps xs o1 \<Longrightarrow> np + 50 < 1024 \<Longrightarrow> list_all plain_char name \<Longrightarrow> length name \<le> 14 \<Longrightarrow>
     holding nk (np + 50) nx ks (ps @ [num_token name v]) xs (snd (on_payload (\<lambda>sz. append_token sz name v) o1))"
  "holding nk np nx ks ps xs o1 \<Longrightarrow> nx + 50 < 1024 \<Longrightarrow> list_all plain_char name \<Longrightarrow> length name \<le> 14 \<Longrightarrow>
     holding nk np (nx + 50) ks ps (xs @ [ptr_token name p]) (snd (on_aux_payload (\<lambda>sz. append_ptr sz name p) o1))"
  by (rule key_ref_holding(1) payload_holding(1) aux_payload_holding(1), rule key_ref_plain alg_params_plain buffer_plain
      token_plain pointer_plain; simp)+

lemma steps_OK:
  "plain_key k \<Longrightarrow> holding nk np nx ks ps xs o1 \<Longrightarrow> nk + 290 < 512 \<Longrightarrow> fst (on_key_ref (\<lambda>sz. append_key_ref sz k) o1) = CCM_OK"
  "holding nk np nx ks ps xs o1 \<Longrightarrow> np + 130 < 1024 \<Longrightarrow> fst (on_payload (\<lambda>sz. append_alg_params sz a) o1) = CCM_OK"
  "list_all plain_char name \<Longrightarrow> length name \<le> 14 \<Longrightarrow> holding nk np nx ks ps xs o1 \<Longrightarrow> np + 50 < 1024 \<Longrightarrow> fst (on_payload (\<lambda>sz. append_buffer sz name b) o1) = CCM_OK"
  "list_all plain_char name \<Longrightarrow> length name \<le> 14 \<Longrightarrow> holding nk np nx ks ps xs o1 \<Longrightarrow> nx + 50 < 1024 \<Longrightarrow> fst (on_aux_payload (\<lambda>sz. append_buffer sz name b) o1) = CCM_OK"
  by ((rule key_ref_holding(2), rule key_ref_plain; simp), (rule payload_holding(2), rule alg_params_plain; simp),
      (rule payload_holding(2), rule buffer_plain; simp), (rule aux_payload_holding(2), rule buffer_plain; simp))

text \<open>The tokens of an argument that may be a null pointer.\<close>

definition given :: "('a \<Rightarrow> cstring list) \<Rightarrow> 'a option \<Rightarrow> cstring list" where
  "given g arg = (case arg of None \<Rightarrow> [] | Some a \<Rightarrow> g a)"

lemma given_simps [simp]: "given g None = []" "given g (Some a) = g a"
  by (simp_all add: given_def)

lemma holding_mono: "holding nk np nx ks ps xs o1 \<Longrightarrow> nk \<le> mk \<Longrightarrow> np \<le> mp \<Longrightarrow> nx \<le> mx \<Longrightarrow> mp < 1024 \<Longrightarrow> mx < 1024 \<Longrightarrow>
    holding mk mp mx ks ps xs o1"
  by (auto simp: holding_def)

lemma if_given_holding:
  assumes "holding nk np nx ks ps xs o1" and "nk \<le> mk" "np \<le> mp" "nx \<le> mx" "mp < 1024" "mx < 1024"
    and "\<And>a. arg = Some a \<Longrightarrow> holding mk mp mx (ks @ g a) (ps @ h a) (xs @ e a) (snd (f a o1))"
  shows "holding mk mp mx (ks @ given g arg) (ps @ given h arg) (xs @ given e arg) (snd (if_given arg f o1))"
  using assms(7) holding_mono [OF assms(1-6)] by (cases arg) (auto simp: if_given_def)

lemma given_none [simp]: "given (\<lambda>a. []) arg = []"
  by (cases arg) simp_all

lemma if_given_OK:
  assumes "\<And>a. arg = Some a \<Longrightarrow> fst (f a o1) = CCM_OK"
  shows "fst (if_given arg f o1) = CCM_OK"
  using assms by (cases arg) (auto simp: if_given_def)

text \<open>A step of \<^verbatim>\<open>route_buffered\<close> that has room does not end it.\<close>

lemma ccm_then_fst: "fst r = CCM_OK \<Longrightarrow> ccm_then r f = f (snd r)"
  by (cases r) (simp add: ccm_then_def)

lemma route_understood:
  assumes rid: "rid \<noteq> []" "list_all plain_char rid" "rid \<notin> set request_keys" "length rid < 64"
    and alg: "w = alg_or_auto pAlg" "unat w < length ccm_algorithm_ids" and key: "\<And>k. pKey = Some k \<Longrightarrow> plain_key k"
    and names: "dm = domain_to_string d" "act = action_to_string a" "d \<noteq> DOMAIN_UNKNOWN" "a \<noteq> ACTION_UNKNOWN"
    and tokens: "ks = given key_ref_tokens pKey"
      "ps = given alg_params_tokens pAlg @ given (buffer_tokens ''data'') pPrimary"
      "xs = given (buffer_tokens ''aux'') pAuxIn @ given (buffer_tokens ''out'') pOutput"
  shows "understood d a w ks ps xs (route_buffered rid dm act pAlg pKey pPrimary pAuxIn pOutput)"
proof -
  let ?s1 = "if_given pAlg (\<lambda>a. on_payload (\<lambda>sz. append_alg_params sz a))"
  let ?s2 = "if_given pKey (\<lambda>k. on_key_ref (\<lambda>sz. append_key_ref sz k))"
  let ?s3 = "if_given pPrimary (\<lambda>b. on_payload (\<lambda>sz. append_buffer sz ''data'' b))"
  let ?s4 = "if_given pAuxIn (\<lambda>b. on_aux_payload (\<lambda>sz. append_buffer sz ''aux'' b))"
  let ?s5 = "if_given pOutput (\<lambda>b. on_aux_payload (\<lambda>sz. append_buffer sz ''out'' b))"
  define o1 where "o1 = snd (?s1 (init_opts rid))"
  define o2 where "o2 = snd (?s2 o1)"
  define o3 where "o3 = snd (?s3 o2)"
  define o4 where "o4 = snd (?s4 o3)"
  define o5 where "o5 = snd (?s5 o4)"
  let ?none = "\<lambda>a. [] :: cstring list"
  let ?k = "given key_ref_tokens pKey" and ?p = "given alg_params_tokens pAlg"
    and ?d = "given (buffer_tokens ''data'') pPrimary" and ?x = "given (buffer_tokens ''aux'') pAuxIn"
  have h0: "holding 0 0 0 [] [] [] (init_opts rid)" by (rule holding_init [OF rid])
  have h1: "holding 0 130 0 [] ?p [] o1"
    using if_given_holding [OF h0, of 0 130 0 pAlg ?none alg_params_tokens ?none] holding_steps(2) [OF h0]
    by (simp add: o1_def)
  have h2: "holding 290 130 0 ?k ?p [] o2"
    using if_given_holding [OF h1, of 290 130 0 pKey key_ref_tokens ?none ?none] holding_steps(1) [OF h1] key
    by (simp add: o2_def)
  have h3: "holding 290 180 0 ?k (?p @ ?d) [] o3"
    using if_given_holding [OF h2, of 290 180 0 pPrimary ?none "buffer_tokens ''data''" ?none] holding_steps(4) [OF h2, of "''data''"]
    by (simp add: o3_def plain_char_def)
  have h4: "holding 290 180 50 ?k (?p @ ?d) ?x o4"
    using if_given_holding [OF h3, of 290 180 50 pAuxIn ?none ?none "buffer_tokens ''aux''"] holding_steps(5) [OF h3, of "''aux''"]
    by (simp add: o4_def plain_char_def)
  have h5: "holding 290 180 100 ks ps xs o5"
    using if_given_holding [OF h4, of 290 180 100 pOutput ?none ?none "buffer_tokens ''out''"] holding_steps(5) [OF h4, of "''out''"]
    by (simp add: o5_def tokens plain_char_def)
  have ok: "fst (?s1 (init_opts rid)) = CCM_OK" "fst (?s2 o1) = CCM_OK" "fst (?s3 o2) = CCM_OK" "fst (?s4 o3) = CCM_OK"
    "fst (?s5 o4) = CCM_OK"
    using steps_OK(2) [OF h0] steps_OK(1) [OF _ h1] steps_OK(3) [OF _ _ h2] steps_OK(4) [OF _ _ h3] steps_OK(4) [OF _ _ h4]
    by (intro if_given_OK; simp add: plain_char_def key)+
  have "route_buffered rid dm act pAlg pKey pPrimary pAuxIn pOutput = build_json dm act (alg_or_auto pAlg) o5 2048"
    unfolding route_buffered_def ccm_then_fst [OF ok(1)] o1_def [symmetric] ccm_then_fst [OF ok(2)] o2_def [symmetric]
      ccm_then_fst [OF ok(3)] o3_def [symmetric] ccm_then_fst [OF ok(4)] o4_def [symmetric]
    using ok(5) by (cases "?s5 o4") (simp add: o5_def)
  then show ?thesis using build_understood [OF h5 _ alg(2) names(3,4)] alg(1) names(1,2) by simp
qed

lemma auto_known [simp]: "ccm_algorithm_ids \<noteq> []"
  by (simp add: ccm_algorithm_ids_def)

lemma alg_or_auto_Some: "alg_or_auto (Some a) = alg_uiAlgID a"
  by (simp add: alg_or_auto_def)

lemma alg_only_ID [simp]: "alg_uiAlgID (alg_only w) = w"
  by (simp add: alg_only_def)

lemma alg_of_key_ID [simp]: "alg_uiAlgID (alg_of_key (Some k)) = key_uiAlgID k"
  by (simp add: alg_of_key_def)

named_theorems operation_understood "the gateway understands the line of the operation"

lemmas routed_operations = CCM_Hash_def CCM_HashInit_def CCM_HashUpdate_def CCM_HashFinal_def CCM_Mac_def
  CCM_SymEncrypt_def CCM_SymDecrypt_def CCM_AsymEncrypt_def CCM_AsymDecrypt_def CCM_ImportKey_def
  CCM_ExportPublicKey_def CCM_DestroyKey_def CCM_GetKeyInfo_def CCM_KemEncapsulate_def
  CCM_KemDecapsulate_def CCM_Sign_def CCM_Verify_def CCM_SignDigest_def CCM_VerifyDigest_def sign_domain_def

lemma routed_understood [operation_understood]:
  assumes known: "unat (alg_uiAlgID a) < length ccm_algorithm_ids" and key: "plain_key k"
  shows
    "understood DOMAIN_HASH ACTION_HASH (alg_uiAlgID a) []
       (alg_params_tokens a @ given (buffer_tokens ''data'') data) (given (buffer_tokens ''out'') out)
       (CCM_Hash (Some a) data out)"
    "understood DOMAIN_HASH ACTION_HASH (alg_uiAlgID a) []
       (alg_params_tokens a) []
       (CCM_HashInit (Some a))"
    "understood DOMAIN_HASH ACTION_HASH 0 []
       (alg_params_tokens (alg_only 0) @ given (buffer_tokens ''data'') data) []
       (CCM_HashUpdate data)"
    "understood DOMAIN_HASH ACTION_HASH 0 []
       (alg_params_tokens (alg_only 0)) (given (buffer_tokens ''out'') out)
       (CCM_HashFinal out)"
    "understood DOMAIN_SYM ACTION_MAC (alg_uiAlgID a) (key_ref_tokens k)
       (alg_params_tokens a @ given (buffer_tokens ''data'') data) (given (buffer_tokens ''aux'') iv @ given (buffer_tokens ''out'') out)
       (CCM_Mac (Some a) (Some k) iv data out)"
    "understood DOMAIN_SYM ACTION_ENCRYPT (alg_uiAlgID a) (key_ref_tokens k)
       (alg_params_tokens a @ given (buffer_tokens ''data'') data) (given (buffer_tokens ''aux'') iv @ given (buffer_tokens ''out'') out)
       (CCM_SymEncrypt (Some a) (Some k) iv data out)"
    "understood DOMAIN_SYM ACTION_DECRYPT (alg_uiAlgID a) (key_ref_tokens k)
       (alg_params_tokens a @ given (buffer_tokens ''data'') data) (given (buffer_tokens ''aux'') iv @ given (buffer_tokens ''out'') out)
       (CCM_SymDecrypt (Some a) (Some k) iv data out)"
    "understood DOMAIN_ASYM ACTION_ENCRYPT (alg_uiAlgID a) (key_ref_tokens k)
       (alg_params_tokens a @ given (buffer_tokens ''data'') data) (given (buffer_tokens ''out'') out)
       (CCM_AsymEncrypt (Some a) (Some k) data out)"
    "understood DOMAIN_ASYM ACTION_DECRYPT (alg_uiAlgID a) (key_ref_tokens k)
       (alg_params_tokens a @ given (buffer_tokens ''data'') data) (given (buffer_tokens ''out'') out)
       (CCM_AsymDecrypt (Some a) (Some k) data out)"
    "understood DOMAIN_KEY ACTION_IMPORT_KEY (alg_uiAlgID a) (key_ref_tokens k)
       (alg_params_tokens a @ given (buffer_tokens ''data'') data) []
       (CCM_ImportKey (Some a) data (Some k))"
    "understood DOMAIN_PQC ACTION_KEM_ENCAP (alg_uiAlgID a) (key_ref_tokens k)
       (alg_params_tokens a) (given (buffer_tokens ''aux'') data @ given (buffer_tokens ''out'') out)
       (CCM_KemEncapsulate (Some a) (Some k) data out)"
    "understood DOMAIN_PQC ACTION_KEM_DECAP (alg_uiAlgID a) (key_ref_tokens k)
       (alg_params_tokens a @ given (buffer_tokens ''data'') data) (given (buffer_tokens ''out'') out)
       (CCM_KemDecapsulate (Some a) (Some k) data out)"
  unfolding routed_operations
  by (rule route_understood; simp add: alg_or_auto_Some known key plain_char_def request_keys_def)+

definition sign_dom :: "Unif_AlgParams \<Rightarrow> api_domain_t" where
  "sign_dom a = (if alg_uiAlgID a \<in> {18, 19, 20} then DOMAIN_PQC else DOMAIN_ASYM)"

lemma signatures_understood [operation_understood]:
  assumes known: "unat (alg_uiAlgID a) < length ccm_algorithm_ids" and key: "plain_key k"
  shows
    "understood (sign_dom a) ACTION_SIGN (alg_uiAlgID a) (key_ref_tokens k)
       (alg_params_tokens a @ given (buffer_tokens ''data'') data) (given (buffer_tokens ''out'') out)
       (CCM_Sign (Some a) (Some k) data out)"
    "understood (sign_dom a) ACTION_VERIFY (alg_uiAlgID a) (key_ref_tokens k)
       (alg_params_tokens a @ given (buffer_tokens ''data'') data) (given (buffer_tokens ''aux'') out)
       (CCM_Verify (Some a) (Some k) data out)"
    "understood (sign_dom a) ACTION_SIGN (alg_uiAlgID a) (key_ref_tokens k)
       (alg_params_tokens a @ given (buffer_tokens ''data'') data) (given (buffer_tokens ''out'') out)
       (CCM_SignDigest (Some a) (Some k) data out)"
    "understood (sign_dom a) ACTION_VERIFY (alg_uiAlgID a) (key_ref_tokens k)
       (alg_params_tokens a @ given (buffer_tokens ''data'') data) (given (buffer_tokens ''aux'') out)
       (CCM_VerifyDigest (Some a) (Some k) data out)"
  unfolding routed_operations
  by (rule route_understood; simp add: alg_or_auto_Some known key plain_char_def request_keys_def sign_dom_def)+

lemma key_operations_understood [operation_understood]:
  assumes known: "unat (key_uiAlgID k) < length ccm_algorithm_ids" and key: "plain_key k"
  shows
    "understood DOMAIN_KEY ACTION_EXPORT_PUBLIC_KEY (key_uiAlgID k) (key_ref_tokens k)
       (alg_params_tokens (alg_only (key_uiAlgID k))) (given (buffer_tokens ''out'') out)
       (CCM_ExportPublicKey (Some k) out)"
    "understood DOMAIN_KEY ACTION_EXPORT_PUBLIC_KEY (key_uiAlgID k) (key_ref_tokens k)
       (alg_params_tokens (alg_only (key_uiAlgID k))) (given (buffer_tokens ''out'') out)
       (CCM_GetKeyInfo (Some k) out)"
    "understood DOMAIN_KEY ACTION_DESTROY_KEY (key_uiAlgID k) (key_ref_tokens k)
       (alg_params_tokens (alg_only (key_uiAlgID k))) []
       (CCM_DestroyKey (Some k))"
  unfolding routed_operations
  by (rule route_understood; simp add: alg_or_auto_Some known key plain_char_def request_keys_def alg_of_key_def)+

text \<open>The operations that ignore the status of their writers: a key reference may be cut.\<close>

lemma built_understood:
  assumes "holding nk np nx ks' ps' xs' o1" "np + nx \<le> 900" "w = v" "unat w < length ccm_algorithm_ids"
    and "dm = domain_to_string d" "act = action_to_string a" "d \<noteq> DOMAIN_UNKNOWN" "a \<noteq> ACTION_UNKNOWN"
    and "ks = ks'" "ps = ps'" "xs = xs'"
  shows "understood d a w ks ps xs (build_json dm act v o1 2048)"
  using build_understood [OF assms(1,2,4,7,8)] assms(3,5,6,9-11) by simp

lemma if_given_some [simp]: "if_given (Some a) f = f a" "if_given None f = Pair CCM_OK"
  by (auto simp: if_given_def fun_eq_iff)

lemma holding_sequence:
  assumes "holding nk np nx ks ps xs o1" and "list_all plain_char t" "t \<notin> set request_keys" "length t < 64"
  shows "holding nk np nx ks ps xs (o1 \<lparr> opt_sequence := snprintf_s 1024 t \<rparr>)"
  using assms by (simp add: holding_def snprintf_s_def)

lemmas built_operations = CCM_GetCapability_def CCM_GenerateRandom_def CCM_GenerateKeyPair_def
  CCM_GenerateSymKey_def CCM_KeyAgreementInit_def CCM_KeyAgreementComplete_def
  CCM_HybridKeyAgreement_def CCM_HybridSign_def CCM_HybridVerify_def hybrid_request_def Let_def
  prod.case option.case if_given_some

lemma environment_understood [operation_understood]:
    "understood DOMAIN_DEVICE ACTION_GET_DEVICE_INFO 0 []
       [] (buffer_tokens ''capability'' b)
       (CCM_GetCapability (Some b))"
    "p \<noteq> 0 \<Longrightarrow> understood DOMAIN_DEVICE ACTION_GENERATE_RANDOM 0 [] [num_token ''length'' n] [ptr_token ''random'' p]
       (CCM_GenerateRandom n p)"
  unfolding built_operations
  by (simp_all only: simp_thms if_False) ((rule built_understood, (rule holding_steps holding_init)+;
      simp add: plain_char_def request_keys_def)+)

lemma built_key_operations_understood [operation_understood]:
  assumes known: "unat (alg_uiAlgID a) < length ccm_algorithm_ids" and key: "plain_key k" "plain_key l" "plain_key m"
  shows
    "understood DOMAIN_KEY ACTION_GENERATE_KEY_PAIR (alg_uiAlgID a) [num_token ''key_index'' i]
       (alg_params_tokens a) (key_ref_tokens k @ key_ref_tokens l)
       (CCM_GenerateKeyPair (Some a) i (Some k) (Some l))"
    "understood DOMAIN_KEY ACTION_IMPORT_KEY (alg_uiAlgID a) [num_token ''key_index'' i]
       (alg_params_tokens a) (key_ref_tokens k)
       (CCM_GenerateSymKey (Some a) i (Some k))"
    "understood DOMAIN_KEY ACTION_GENERATE_KEY_PAIR (alg_uiAlgID a) (key_ref_tokens k)
       (alg_params_tokens a @ buffer_tokens ''self_id'' b) (buffer_tokens ''agreement_data'' c @ key_ref_tokens l)
       (CCM_KeyAgreementInit (Some a) (Some k) (Some b) (Some c) (Some l))"
    "understood DOMAIN_KEY ACTION_IMPORT_KEY (alg_uiAlgID a) (key_ref_tokens k)
       (alg_params_tokens a @ buffer_tokens ''peer_data'' b) (buffer_tokens ''self_data'' c @ key_ref_tokens l)
       (CCM_KeyAgreementComplete (Some a) (Some k) (Some b) (Some c) (Some l))"
    "understood DOMAIN_PQC ACTION_KEM_ENCAP (alg_uiAlgID a) (key_ref_tokens k @ key_ref_tokens l)
       (alg_params_tokens a @ buffer_tokens ''peer'' b) (buffer_tokens ''transcript'' c @ key_ref_tokens m)
       (CCM_HybridKeyAgreement (Some a) (Some k) (Some l) (Some b) (Some c) (Some m))"
  unfolding built_operations
  by (rule built_understood, (rule holding_steps holding_init)+;
      simp add: known key plain_char_def request_keys_def alg_or_auto_Some)+

lemma hybrid_signatures_understood [operation_understood]:
  assumes known: "unat (alg_uiAlgID a) < length ccm_algorithm_ids" and key: "plain_key k" "plain_key l"
  shows
    "understood DOMAIN_ASYM ACTION_SIGN (alg_uiAlgID a) (key_ref_tokens k @ key_ref_tokens l)
       (alg_params_tokens a @ buffer_tokens ''data'' b) (buffer_tokens ''signature'' c)
       (CCM_HybridSign (Some a) (Some k) (Some l) (Some b) (Some c))"
    "understood DOMAIN_ASYM ACTION_VERIFY (alg_uiAlgID a) (key_ref_tokens k @ key_ref_tokens l)
       (alg_params_tokens a @ buffer_tokens ''data'' b) (buffer_tokens ''signature'' c)
       (CCM_HybridVerify (Some a) (Some k) (Some l) (Some b) (Some c))"
  unfolding built_operations
  by (rule built_understood, rule holding_sequence, (rule holding_steps holding_init)+;
      simp add: known key plain_char_def request_keys_def alg_or_auto_Some)+

subsection \<open>Properties\<close>

text \<open>
  Property C18. The client library from end to end: for a known algorithm and plain key names
  that fit their arrays, and whatever handles, addresses and lengths it is given, every
  operation builds a complete line, which the gateway accepts as a request with the domain,
  action and algorithm the operation stands for and with all of its arguments, in the order
  of the code, in the two payloads. The key reference arrives when its text has at most 255
  bytes and is empty otherwise, in particular for the two keys of a hybrid operation that the
  client may have had to cut to its 511 bytes.
\<close>

theorem ccm_operations_are_understood:
  assumes "unat (alg_uiAlgID a) < length ccm_algorithm_ids" and "unat (key_uiAlgID k) < length ccm_algorithm_ids"
    and "plain_key k" and "plain_key l" and "plain_key m" and "p \<noteq> 0"
  shows "list_all (\<lambda>(d, act, w, ks, ps, xs, r). understood d act w ks ps xs r)
    [(DOMAIN_DEVICE, ACTION_GET_DEVICE_INFO, 0, [],
        [], buffer_tokens ''capability'' b,
        CCM_GetCapability (Some b)),
     (DOMAIN_DEVICE, ACTION_GENERATE_RANDOM, 0, [],
        [num_token ''length'' n], [ptr_token ''random'' p],
        CCM_GenerateRandom n p),
     (DOMAIN_HASH, ACTION_HASH, alg_uiAlgID a, [],
        alg_params_tokens a @ given (buffer_tokens ''data'') data, given (buffer_tokens ''out'') out,
        CCM_Hash (Some a) data out),
     (DOMAIN_HASH, ACTION_HASH, alg_uiAlgID a, [],
        alg_params_tokens a, [],
        CCM_HashInit (Some a)),
     (DOMAIN_HASH, ACTION_HASH, 0, [],
        alg_params_tokens (alg_only 0) @ given (buffer_tokens ''data'') data, [],
        CCM_HashUpdate data),
     (DOMAIN_HASH, ACTION_HASH, 0, [],
        alg_params_tokens (alg_only 0), given (buffer_tokens ''out'') out,
        CCM_HashFinal out),
     (DOMAIN_SYM, ACTION_MAC, alg_uiAlgID a, key_ref_tokens k,
        alg_params_tokens a @ given (buffer_tokens ''data'') data, given (buffer_tokens ''aux'') iv @ given (buffer_tokens ''out'') out,
        CCM_Mac (Some a) (Some k) iv data out),
     (DOMAIN_SYM, ACTION_ENCRYPT, alg_uiAlgID a, key_ref_tokens k,
        alg_params_tokens a @ given (buffer_tokens ''data'') data, given (buffer_tokens ''aux'') iv @ given (buffer_tokens ''out'') out,
        CCM_SymEncrypt (Some a) (Some k) iv data out),
     (DOMAIN_SYM, ACTION_DECRYPT, alg_uiAlgID a, key_ref_tokens k,
        alg_params_tokens a @ given (buffer_tokens ''data'') data, given (buffer_tokens ''aux'') iv @ given (buffer_tokens ''out'') out,
        CCM_SymDecrypt (Some a) (Some k) iv data out),
     (DOMAIN_ASYM, ACTION_ENCRYPT, alg_uiAlgID a, key_ref_tokens k,
        alg_params_tokens a @ given (buffer_tokens ''data'') data, given (buffer_tokens ''out'') out,
        CCM_AsymEncrypt (Some a) (Some k) data out),
     (DOMAIN_ASYM, ACTION_DECRYPT, alg_uiAlgID a, key_ref_tokens k,
        alg_params_tokens a @ given (buffer_tokens ''data'') data, given (buffer_tokens ''out'') out,
        CCM_AsymDecrypt (Some a) (Some k) data out),
     (DOMAIN_KEY, ACTION_GENERATE_KEY_PAIR, alg_uiAlgID a, [num_token ''key_index'' i],
        alg_params_tokens a, key_ref_tokens k @ key_ref_tokens l,
        CCM_GenerateKeyPair (Some a) i (Some k) (Some l)),
     (DOMAIN_KEY, ACTION_IMPORT_KEY, alg_uiAlgID a, [num_token ''key_index'' i],
        alg_params_tokens a, key_ref_tokens k,
        CCM_GenerateSymKey (Some a) i (Some k)),
     (DOMAIN_KEY, ACTION_IMPORT_KEY, alg_uiAlgID a, key_ref_tokens k,
        alg_params_tokens a @ given (buffer_tokens ''data'') data, [],
        CCM_ImportKey (Some a) data (Some k)),
     (DOMAIN_KEY, ACTION_EXPORT_PUBLIC_KEY, key_uiAlgID k, key_ref_tokens k,
        alg_params_tokens (alg_only (key_uiAlgID k)), given (buffer_tokens ''out'') out,
        CCM_ExportPublicKey (Some k) out),
     (DOMAIN_KEY, ACTION_EXPORT_PUBLIC_KEY, key_uiAlgID k, key_ref_tokens k,
        alg_params_tokens (alg_only (key_uiAlgID k)), given (buffer_tokens ''out'') out,
        CCM_GetKeyInfo (Some k) out),
     (DOMAIN_KEY, ACTION_DESTROY_KEY, key_uiAlgID k, key_ref_tokens k,
        alg_params_tokens (alg_only (key_uiAlgID k)), [],
        CCM_DestroyKey (Some k)),
     (DOMAIN_PQC, ACTION_KEM_ENCAP, alg_uiAlgID a, key_ref_tokens k,
        alg_params_tokens a, given (buffer_tokens ''aux'') data @ given (buffer_tokens ''out'') out,
        CCM_KemEncapsulate (Some a) (Some k) data out),
     (DOMAIN_PQC, ACTION_KEM_DECAP, alg_uiAlgID a, key_ref_tokens k,
        alg_params_tokens a @ given (buffer_tokens ''data'') data, given (buffer_tokens ''out'') out,
        CCM_KemDecapsulate (Some a) (Some k) data out),
     (DOMAIN_KEY, ACTION_GENERATE_KEY_PAIR, alg_uiAlgID a, key_ref_tokens k,
        alg_params_tokens a @ buffer_tokens ''self_id'' b, buffer_tokens ''agreement_data'' c @ key_ref_tokens l,
        CCM_KeyAgreementInit (Some a) (Some k) (Some b) (Some c) (Some l)),
     (DOMAIN_KEY, ACTION_IMPORT_KEY, alg_uiAlgID a, key_ref_tokens k,
        alg_params_tokens a @ buffer_tokens ''peer_data'' b, buffer_tokens ''self_data'' c @ key_ref_tokens l,
        CCM_KeyAgreementComplete (Some a) (Some k) (Some b) (Some c) (Some l)),
     (DOMAIN_PQC, ACTION_KEM_ENCAP, alg_uiAlgID a, key_ref_tokens k @ key_ref_tokens l,
        alg_params_tokens a @ buffer_tokens ''peer'' b, buffer_tokens ''transcript'' c @ key_ref_tokens m,
        CCM_HybridKeyAgreement (Some a) (Some k) (Some l) (Some b) (Some c) (Some m)),
     (sign_dom a, ACTION_SIGN, alg_uiAlgID a, key_ref_tokens k,
        alg_params_tokens a @ given (buffer_tokens ''data'') data, given (buffer_tokens ''out'') out,
        CCM_Sign (Some a) (Some k) data out),
     (sign_dom a, ACTION_VERIFY, alg_uiAlgID a, key_ref_tokens k,
        alg_params_tokens a @ given (buffer_tokens ''data'') data, given (buffer_tokens ''aux'') out,
        CCM_Verify (Some a) (Some k) data out),
     (sign_dom a, ACTION_SIGN, alg_uiAlgID a, key_ref_tokens k,
        alg_params_tokens a @ given (buffer_tokens ''data'') data, given (buffer_tokens ''out'') out,
        CCM_SignDigest (Some a) (Some k) data out),
     (sign_dom a, ACTION_VERIFY, alg_uiAlgID a, key_ref_tokens k,
        alg_params_tokens a @ given (buffer_tokens ''data'') data, given (buffer_tokens ''aux'') out,
        CCM_VerifyDigest (Some a) (Some k) data out),
     (DOMAIN_ASYM, ACTION_SIGN, alg_uiAlgID a, key_ref_tokens k @ key_ref_tokens l,
        alg_params_tokens a @ buffer_tokens ''data'' b, buffer_tokens ''signature'' c,
        CCM_HybridSign (Some a) (Some k) (Some l) (Some b) (Some c)),
     (DOMAIN_ASYM, ACTION_VERIFY, alg_uiAlgID a, key_ref_tokens k @ key_ref_tokens l,
        alg_params_tokens a @ buffer_tokens ''data'' b, buffer_tokens ''signature'' c,
        CCM_HybridVerify (Some a) (Some k) (Some l) (Some b) (Some c))]"
  by (simp only: list.pred_inject prod.case simp_thms) (intro conjI operation_understood, (rule assms)+)

definition sample_alg :: Unif_AlgParams where
  "sample_alg = alg_only 7"

theorem ccm_operations_are_understood_witness:
  "understood DOMAIN_HASH ACTION_HASH 7 [] (alg_params_tokens sample_alg) [] (CCM_Hash (Some sample_alg) None None)
   \<and> understood DOMAIN_PQC ACTION_KEM_ENCAP 7 (key_ref_tokens sample_key @ key_ref_tokens sample_key)
       (alg_params_tokens sample_alg @ buffer_tokens ''peer'' \<lparr>buf_pucData = 1, buf_uiDataLen = 2\<rparr>)
       (buffer_tokens ''transcript'' \<lparr>buf_pucData = 1, buf_uiDataLen = 2\<rparr> @ key_ref_tokens sample_key)
       (CCM_HybridKeyAgreement (Some sample_alg) (Some sample_key) (Some sample_key)
          (Some \<lparr>buf_pucData = 1, buf_uiDataLen = 2\<rparr>) (Some \<lparr>buf_pucData = 1, buf_uiDataLen = 2\<rparr>) (Some sample_key))"
proof -
  have s: "plain_key sample_key" "unat (key_uiAlgID sample_key) < length ccm_algorithm_ids"
    "unat (alg_uiAlgID sample_alg) < length ccm_algorithm_ids" "alg_uiAlgID sample_alg = 7" "(1 :: c_ptr) \<noteq> 0"
    by (simp_all add: plain_key_def sample_key_def plain_char_def ccm_algorithm_ids_def sample_alg_def)
  from ccm_operations_are_understood [OF s(3,2,1,1,1,5), of "\<lparr>buf_pucData = 1, buf_uiDataLen = 2\<rparr>" 0 None None None 0
      "\<lparr>buf_pucData = 1, buf_uiDataLen = 2\<rparr>"]
  show ?thesis by (simp only: list.pred_inject prod.case s(4) simp_thms given_simps append_Nil2)
qed

end
