(* ===== verification/Client_Tests.thy ===== *)
theory Client_Tests
  imports Ccm_Operations
begin

text \<open>
  The client tests of \<^verbatim>\<open>tests/test_runner.c\<close>, run on the model: the names of the algorithms, and
  one call of every operation of the client library, wherever the arrays of the test lie.
\<close>

definition algorithm_id :: "ccm_algorithm_id_t \<Rightarrow> 32 word" where
  "algorithm_id a = of_nat (length (takeWhile (\<lambda>b. b \<noteq> a) ccm_algorithm_ids))"

definition test_ccm_api_builds_unified_requests_with_algorithm_id :: bool where
  "test_ccm_api_builds_unified_requests_with_algorithm_id \<longleftrightarrow>
     CCM_AlgorithmName (algorithm_id CCM_ALG_SM2) 64 = (CCM_OK, ''sm2'')
     \<and> CCM_AlgorithmName (algorithm_id CCM_ALG_SM4_CBC) 64 = (CCM_OK, ''sm4-cbc'')
     \<and> CCM_AlgorithmName (algorithm_id CCM_ALG_MLKEM768) 64 = (CCM_OK, ''mlkem768'')
     \<and> CCM_AlgorithmName (algorithm_id CCM_ALG_DILITHIUM3) 64 = (CCM_OK, ''dilithium3'')"

lemma test_ccm_api_builds_unified_requests_with_algorithm_id_passes:
  test_ccm_api_builds_unified_requests_with_algorithm_id
  by code_simp

text \<open>The addresses of the arrays are arguments of the test; they only appear in the texts.\<close>

definition make_unif_inputs ::
  "c_ptr \<Rightarrow> 32 word \<Rightarrow> c_ptr \<Rightarrow> 32 word \<Rightarrow> Unif_AlgParams \<times> Unif_KeyRef \<times> Unif_Buffer \<times> Unif_Buffer" where
  "make_unif_inputs data data_len buf buf_len =
     (\<lparr>alg_uiAlgID = algorithm_id CCM_ALG_SM2, alg_uiMode = mode_value CCM_MODE_NONE,
       alg_uiPadding = padding_value CCM_PADDING_NONE, alg_uiHashAlgID = algorithm_id CCM_ALG_SM3,
       alg_uiSecurityLevel = 0, alg_pExParams = 0\<rparr>,
      \<lparr>key_uiAlgID = algorithm_id CCM_ALG_SM2, key_uiUsage = key_usage_value CCM_KEY_USAGE_SIGN,
       key_uiSource = key_source_value CCM_KEY_SOURCE_INTERNAL_INDEX, key_uiKeyIndex = 1,
       key_hKeyHandle = 0, key_pExternalKey = 0, key_szKeyId = [], key_szDeviceId = []\<rparr>,
      \<lparr>buf_pucData = data, buf_uiDataLen = data_len\<rparr>, \<lparr>buf_pucData = buf, buf_uiDataLen = buf_len\<rparr>)"

text \<open>
  \<open>used alg key a u\<close> is the key with the algorithm and the usage the test gives it before a
  call. The three parts of the test are the environment, the operations with one key, and the
  operations with two.
\<close>

definition used :: "Unif_KeyRef \<Rightarrow> ccm_algorithm_id_t \<Rightarrow> ccm_key_usage_t \<Rightarrow> Unif_KeyRef" where
  "used key a u = key \<lparr> key_uiAlgID := algorithm_id a, key_uiUsage := key_usage_value u \<rparr>"

definition alg_as :: "Unif_AlgParams \<Rightarrow> ccm_algorithm_id_t \<Rightarrow> Unif_AlgParams" where
  "alg_as alg a = alg \<lparr> alg_uiAlgID := algorithm_id a \<rparr>"

definition test_environment :: "c_ptr \<Rightarrow> Unif_Buffer \<Rightarrow> bool" where
  "test_environment ctx out \<longleftrightarrow>
     fst (CCM_Initialize ctx) = CCM_OK
     \<and> fst (CCM_GetVersion (buf_pucData out \<noteq> 0) (Some (buf_uiDataLen out))) = CCM_OK
     \<and> CCM_Login (Some ''user'') (Some ''123456'') = CCM_OK
     \<and> CCM_ChangePin (Some ''123456'') (Some ''654321'') = CCM_OK
     \<and> CCM_Logout = CCM_OK
     \<and> CCM_Finalize ctx = CCM_OK
     \<and> fst (CCM_GetCapability (Some out)) = CCM_OK
     \<and> fst (CCM_GenerateRandom (buf_uiDataLen out) (buf_pucData out)) = CCM_OK"

definition test_crypto_operations ::
  "Unif_AlgParams \<Rightarrow> Unif_KeyRef \<Rightarrow> Unif_Buffer \<Rightarrow> Unif_Buffer \<Rightarrow> Unif_Buffer \<Rightarrow> bool" where
  "test_crypto_operations alg key iv inp out \<longleftrightarrow> list_all (\<lambda>r. fst r = CCM_OK)
     [CCM_Hash (Some (alg_as alg CCM_ALG_SM3)) (Some inp) (Some out),
      CCM_HashInit (Some (alg_as alg CCM_ALG_SM3)),
      CCM_HashUpdate (Some inp),
      CCM_HashFinal (Some out),
      CCM_Mac (Some (alg_as alg CCM_ALG_SM4_MAC)) (Some (used key CCM_ALG_SM4_MAC CCM_KEY_USAGE_DERIVE))
        (Some iv) (Some inp) (Some out),
      CCM_SymEncrypt (Some (alg_as alg CCM_ALG_SM4_CBC)) (Some (used key CCM_ALG_SM4_CBC CCM_KEY_USAGE_ENCRYPT))
        (Some iv) (Some inp) (Some out),
      CCM_SymDecrypt (Some (alg_as alg CCM_ALG_SM4_CBC)) (Some (used key CCM_ALG_SM4_CBC CCM_KEY_USAGE_ENCRYPT))
        (Some iv) (Some inp) (Some out),
      CCM_AsymEncrypt (Some (alg_as alg CCM_ALG_SM2)) (Some (used key CCM_ALG_SM2 CCM_KEY_USAGE_ENCRYPT))
        (Some inp) (Some out),
      CCM_AsymDecrypt (Some (alg_as alg CCM_ALG_SM2)) (Some (used key CCM_ALG_SM2 CCM_KEY_USAGE_DECRYPT))
        (Some inp) (Some out)]"

definition test_key_management ::
  "Unif_AlgParams \<Rightarrow> Unif_KeyRef \<Rightarrow> Unif_KeyRef \<Rightarrow> Unif_Buffer \<Rightarrow> Unif_Buffer \<Rightarrow> bool" where
  "test_key_management alg key second_key inp out \<longleftrightarrow>
     (let a = alg_as alg CCM_ALG_DILITHIUM3; k = used key CCM_ALG_DILITHIUM3 CCM_KEY_USAGE_SIGN;
          kem = alg_as alg CCM_ALG_MLKEM768; kk = used second_key CCM_ALG_MLKEM768 CCM_KEY_USAGE_KEM;
          sm2 = alg_as alg CCM_ALG_SM2; sk = used key CCM_ALG_SM2 CCM_KEY_USAGE_SIGN
      in list_all (\<lambda>r. fst r = CCM_OK)
     [CCM_GenerateKeyPair (Some a) 7 (Some k) (Some second_key),
      CCM_GenerateSymKey (Some a) 8 (Some k),
      CCM_ImportKey (Some a) (Some inp) (Some k),
      CCM_ExportPublicKey (Some k) (Some out),
      CCM_GetKeyInfo (Some k) (Some out),
      CCM_DestroyKey (Some k),
      CCM_KemEncapsulate (Some kem) (Some kk) (Some out) (Some out),
      CCM_KemDecapsulate (Some kem) (Some kk) (Some inp) (Some out),
      CCM_KeyAgreementInit (Some sm2) (Some sk) (Some inp) (Some out) (Some kk),
      CCM_KeyAgreementComplete (Some sm2) (Some sk) (Some inp) (Some out) (Some kk),
      CCM_HybridKeyAgreement (Some kem) (Some sk) (Some kk) (Some inp) (Some out) (Some kk)])"

definition test_signatures ::
  "Unif_AlgParams \<Rightarrow> Unif_KeyRef \<Rightarrow> Unif_KeyRef \<Rightarrow> Unif_Buffer \<Rightarrow> Unif_Buffer \<Rightarrow> bool" where
  "test_signatures alg key second_key inp out \<longleftrightarrow>
     (let a = alg_as alg CCM_ALG_SM2; k = used key CCM_ALG_SM2 CCM_KEY_USAGE_SIGN;
          v = used key CCM_ALG_SM2 CCM_KEY_USAGE_VERIFY
      in list_all (\<lambda>r. fst r = CCM_OK)
     [CCM_Sign (Some a) (Some k) (Some inp) (Some out),
      CCM_Verify (Some a) (Some v) (Some inp) (Some out),
      CCM_SignDigest (Some a) (Some v) (Some inp) (Some out),
      CCM_VerifyDigest (Some a) (Some v) (Some inp) (Some out),
      CCM_HybridSign (Some a) (Some v) (Some (used second_key CCM_ALG_DILITHIUM3 CCM_KEY_USAGE_SIGN))
        (Some inp) (Some out),
      CCM_HybridVerify (Some a) (Some v) (Some (used second_key CCM_ALG_DILITHIUM3 CCM_KEY_USAGE_VERIFY))
        (Some inp) (Some out)])"

definition test_ccm_four_category_structured_api_entrypoints :: "c_ptr \<Rightarrow> c_ptr \<Rightarrow> c_ptr \<Rightarrow> c_ptr \<Rightarrow> bool" where
  "test_ccm_four_category_structured_api_entrypoints ctx data_bytes out_bytes iv_bytes =
     (case make_unif_inputs data_bytes 3 out_bytes 2048 of (alg, key, inp, out) \<Rightarrow>
        let second_key = (used key CCM_ALG_MLKEM768 CCM_KEY_USAGE_KEM) \<lparr> key_uiKeyIndex := 2 \<rparr>;
            iv = \<lparr>buf_pucData = iv_bytes, buf_uiDataLen = 16\<rparr>
        in test_environment ctx out
          \<and> test_crypto_operations alg key iv inp out
          \<and> test_key_management alg key second_key inp out
          \<and> test_signatures alg key second_key inp out)"

lemma algorithm_id_known: "unat (algorithm_id a) < length ccm_algorithm_ids"
  by (cases a) (simp_all add: algorithm_id_def ccm_algorithm_ids_def)

lemma known_ids: "unat (alg_uiAlgID (alg_as p a)) < length ccm_algorithm_ids"
    "unat (key_uiAlgID (used k a u)) < length ccm_algorithm_ids"
  by (simp_all add: alg_as_def used_def algorithm_id_known)

lemma plain_used: "plain_key k \<Longrightarrow> plain_key (used k a u)"
  by (simp add: used_def plain_key_def)

lemma understood_OK: "understood d a w ks ps xs r \<Longrightarrow> fst r = CCM_OK"
  by (simp add: understood_def)

lemmas operation_OK = operation_understood [THEN understood_OK]

lemma test_environment_passes: "p \<noteq> 0 \<Longrightarrow> test_environment ctx \<lparr>buf_pucData = p, buf_uiDataLen = 2048\<rparr>"
  unfolding test_environment_def
  by (intro conjI operation_OK)
    (simp_all add: CCM_Initialize_def CCM_GetVersion_def Let_def CCM_Login_def CCM_ChangePin_def CCM_Logout_def
      CCM_Finalize_def)

lemma test_crypto_operations_passes: "plain_key key \<Longrightarrow> test_crypto_operations alg key iv inp out"
  unfolding test_crypto_operations_def list.pred_inject(2)
  by (intro conjI list.pred_inject(1) operation_OK) (assumption | rule known_ids plain_used)+

lemma test_key_management_passes:
  "plain_key key \<Longrightarrow> plain_key second_key \<Longrightarrow> test_key_management alg key second_key inp out"
  unfolding test_key_management_def list.pred_inject(2) Let_def
  by (intro conjI list.pred_inject(1) operation_OK) (assumption | rule known_ids plain_used)+

lemma test_signatures_passes:
  "plain_key key \<Longrightarrow> plain_key second_key \<Longrightarrow> test_signatures alg key second_key inp out"
  unfolding test_signatures_def list.pred_inject(2) Let_def
  by (intro conjI list.pred_inject(1) operation_OK) (assumption | rule known_ids plain_used)+

lemma test_ccm_four_category_structured_api_entrypoints_passes:
  assumes "out_bytes \<noteq> 0"
  shows "test_ccm_four_category_structured_api_entrypoints ctx data_bytes out_bytes iv_bytes"
proof -
  obtain alg key inp where m: "make_unif_inputs data_bytes 3 out_bytes 2048
      = (alg, key, inp, \<lparr>buf_pucData = out_bytes, buf_uiDataLen = 2048\<rparr>)" and k: "plain_key key"
    by (simp add: make_unif_inputs_def plain_key_def)
  have "plain_key (used key CCM_ALG_MLKEM768 CCM_KEY_USAGE_KEM \<lparr>key_uiKeyIndex := 2\<rparr>)"
    using k by (simp add: used_def plain_key_def)
  with k show ?thesis
    unfolding test_ccm_four_category_structured_api_entrypoints_def m prod.case Let_def
    by (intro conjI test_environment_passes [OF assms] test_crypto_operations_passes test_key_management_passes
        test_signatures_passes)
qed

end
