(* ===== verification/Skf_Library.thy ===== *)
theory Skf_Library
  imports Drivers
begin

text \<open>
  The boundary of \<^verbatim>\<open>src/server/driver/skf_adapter.c\<close>: the vendor's SKF library, the dynamic
  loader and the environment are parameters, gathered in the record \<open>skf_env\<close>; the calls the
  adapter makes are the values of \<open>skf_call\<close>, one constructor for each function it
  calls. Then the conversions of the adapter between texts and bytes.
\<close>

subsection \<open>The library\<close>

type_synonym byte = "8 word"

text \<open>A handle; 0 is the null handle.\<close>

type_synonym skf_handle = "64 word"

text \<open>
  The calls, by the handle they work on; a call carries its arguments that hold information,
  output buffers are in the reply. First the operations of an open device, then those of an
  open application, an open container and a temporary handle of a key or a digest.
\<close>

datatype skf_device_op =
    SKF_GetDevInfo
  | SKF_GenRandom "32 word"
  | SKF_ECCVerify "byte list" "byte list" "byte list"
  | SKF_RSAVerify "byte list" "byte list" "byte list"
  | SKF_ExtECCEncrypt "byte list" "byte list"
  | SKF_ExtRSAPubKeyOperation "byte list" "byte list"
  | SKF_Encap_Kyber "byte list"
  | SKF_Decap_Kyber "byte list" "byte list"
  | SKF_Sign_Dilithium "byte list" "byte list"
  | SKF_Verify_Dilithium "byte list" "byte list" "byte list"

datatype skf_app_op =
    SKF_VerifyPIN cstring
  | SKF_DeleteContainer cstring
  | SKF_CreateFile cstring "32 word"
  | SKF_ReadFile cstring "32 word"
  | SKF_WriteFile cstring "byte list"
  | SKF_DeleteFile cstring

datatype skf_container_op =
    SKF_GenECCKeyPair "32 word"
  | SKF_GenRSAKeyPair "32 word"
  | SKF_ExportPublicKey
  | SKF_ECCSignData "byte list"
  | SKF_RSASignData "byte list"
  | SKF_ECCDecrypt "32 word" "byte list"
  | SKF_RSADecrypt "32 word" "byte list"

datatype skf_temp_op =
    SKF_EncryptInit
  | SKF_Encrypt "byte list"
  | SKF_DecryptInit
  | SKF_Decrypt "byte list"
  | SKF_Mac "byte list"
  | SKF_Digest "byte list"

text \<open>The calls that open and close, and the operations on an open handle.\<close>

datatype skf_call =
    Dlopen cstring
  | Dlclose skf_handle
  | SKF_EnumDev_length
  | SKF_EnumDev "32 word"
  | SKF_ConnectDev cstring
  | SKF_DisConnectDev skf_handle
  | SKF_OpenApplication skf_handle cstring
  | SKF_CloseApplication skf_handle
  | SKF_OpenContainer skf_handle cstring
  | SKF_CloseContainer skf_handle
  | SKF_SetSymmKey skf_handle "byte list" "32 word"
  | SKF_DigestInit skf_handle "32 word"
  | SKF_CloseHandle skf_handle
  | On_device skf_handle skf_device_op
  | On_app skf_handle skf_app_op
  | On_container skf_handle skf_container_op
  | On_temp skf_handle skf_temp_op

text \<open>
  What a call leaves: the return value, the handle stored through a handle pointer, the bytes
  of the (first and second) output buffer up to the length the library reports, which is at
  most the capacity it was given, the number stored through a count pointer, and the text
  arrays of \<^verbatim>\<open>SKF_EnumDev\<close> (\<open>r_text1\<close>) and \<^verbatim>\<open>SKF_GetDevInfo\<close> (label, serial number and
  manufacturer).
\<close>

record skf_reply =
  r_rv :: "32 word"
  r_handle :: skf_handle
  r_bytes :: "byte list"
  r_bytes2 :: "byte list"
  r_count :: "32 word"
  r_text1 :: string
  r_text2 :: string
  r_text3 :: string

text \<open>
  \<open>env_get\<close> is \<^verbatim>\<open>getenv\<close>; \<open>env_symbol\<close> tells whether \<^verbatim>\<open>dlsym\<close> finds a name; \<open>env_dlerror\<close> is the
  text \<^verbatim>\<open>dlerror\<close> gives after a failure on a name; \<open>env_calloc\<close> whether an allocation succeeds;
  \<open>env_errbuf\<close> is what \<^verbatim>\<open>errbuf\<close> holds on entry, which one branch leaves there.
\<close>

record 'w skf_env =
  env_call :: "skf_call \<Rightarrow> 'w \<Rightarrow> skf_reply \<times> 'w"
  env_get :: "cstring \<Rightarrow> cstring option"
  env_symbol :: "cstring \<Rightarrow> bool"
  env_dlerror :: "cstring \<Rightarrow> cstring option"
  env_calloc :: "nat \<Rightarrow> bool"
  env_errbuf :: cstring

definition SAR_OK :: "32 word" where "SAR_OK = 0"
definition SGD_SM3 :: "32 word" where "SGD_SM3 = 0x00000001"
definition SGD_SHA256 :: "32 word" where "SGD_SHA256 = 0x00000004"
definition SGD_SM2_1 :: "32 word" where "SGD_SM2_1 = 0x00020100"
definition SGD_SM2_3 :: "32 word" where "SGD_SM2_3 = 0x00020400"
definition SGD_RSA_SIGN :: "32 word" where "SGD_RSA_SIGN = 0x00010100"
definition SGD_RSA_ENC :: "32 word" where "SGD_RSA_ENC = 0x00010200"
definition SGD_SM4_ECB :: "32 word" where "SGD_SM4_ECB = 0x00000401"
definition SGD_SM4_CBC :: "32 word" where "SGD_SM4_CBC = 0x00000402"

text \<open>The sizes of the adapter's buffers and of the vendor's structs.\<close>

definition GM3000_MAX_IO :: nat where "GM3000_MAX_IO = 2048"
definition GM3000_MAX_NAME :: nat where "GM3000_MAX_NAME = 256"
definition GM3000_RESULT_HEX :: nat where "GM3000_RESULT_HEX = 512"
definition ECCPUBLICKEYBLOB_size :: nat where "ECCPUBLICKEYBLOB_size = 4 + 64 + 64"
definition ECCSIGNATUREBLOB_size :: nat where "ECCSIGNATUREBLOB_size = 64 + 64"
definition ECCCIPHERBLOB_size :: nat where "ECCCIPHERBLOB_size = 64 + 64 + 32 + 4 + 256"
definition RSAPUBLICKEYBLOB_size :: nat where "RSAPUBLICKEYBLOB_size = 4 + 4 + 256 + 4"
definition KyberPublicKey_size :: nat where "KyberPublicKey_size = 4 + 2048"
definition KyberPrivateKey_size :: nat where "KyberPrivateKey_size = 4 + 4096"
definition DilithiumPublicKey_size :: nat where "DilithiumPublicKey_size = 4 + 3072"
definition DilithiumPrivateKey_size :: nat where "DilithiumPrivateKey_size = 4 + 5120"

lemmas skf_sizes = GM3000_MAX_IO_def GM3000_MAX_NAME_def GM3000_RESULT_HEX_def
  ECCPUBLICKEYBLOB_size_def ECCSIGNATUREBLOB_size_def ECCCIPHERBLOB_size_def RSAPUBLICKEYBLOB_size_def
  KyberPublicKey_size_def KyberPrivateKey_size_def DilithiumPublicKey_size_def DilithiumPrivateKey_size_def

subsection \<open>Bytes and texts\<close>

definition byte_of_char :: "char \<Rightarrow> byte" where
  "byte_of_char c = of_char c"

definition hex_digit :: "char \<Rightarrow> nat option" where
  "hex_digit c =
     (let n = of_char c :: nat in
      if 48 \<le> n \<and> n \<le> 57 then Some (n - 48)
      else if 97 \<le> n \<and> n \<le> 102 then Some (n - 97 + 10)
      else if 65 \<le> n \<and> n \<le> 70 then Some (n - 65 + 10)
      else None)"

definition hex_separator :: "char \<Rightarrow> bool" where
  "hex_separator c \<longleftrightarrow> c \<in> {CHR '' '', CHR '':'', CHR ''-''}"

text \<open>\<open>cap\<close> is the room left in \<^verbatim>\<open>out\<close>; \<open>None\<close> is the return value \<open>-1\<close>.\<close>

function decode_hex :: "nat \<Rightarrow> cstring \<Rightarrow> byte list option" where
  "decode_hex cap hex =
     (case dropWhile hex_separator hex of
        [] \<Rightarrow> Some []
      | [c] \<Rightarrow> None
      | c # d # r \<Rightarrow>
          (case (hex_digit c, hex_digit d) of
             (Some hi, Some lo) \<Rightarrow>
               if cap = 0 then None
               else map_option (Cons (of_nat (hi * 16 + lo))) (decode_hex (cap - 1) r)
           | _ \<Rightarrow> None))"
  by pat_completeness auto

termination
proof (relation "measure (\<lambda>(cap, hex). length hex)")
  fix cap :: nat and hex :: cstring and c t d r
  assume "dropWhile hex_separator hex = c # t" and "t = d # r"
  then have "length (c # d # r) \<le> length hex" by (metis length_dropWhile_le)
  then show "((cap - 1, r), cap, hex) \<in> measure (\<lambda>(cap, hex). length hex)" by simp
qed simp

declare decode_hex.simps [simp del]

text \<open>No text is the null pointer.\<close>

definition input_to_bytes :: "nat \<Rightarrow> cstring option \<Rightarrow> byte list option" where
  "input_to_bytes out_cap text =
     (case text of
        None \<Rightarrow> Some []
      | Some s \<Rightarrow>
          if starts_with_str s ''hex:'' then decode_hex out_cap (drop 4 s)
          else if out_cap < length s then None
          else Some (map byte_of_char s))"

text \<open>\<open>room\<close> is \<^verbatim>\<open>out_sz - pos\<close>.\<close>

fun bytes_to_hex :: "byte list \<Rightarrow> nat \<Rightarrow> cstring" where
  "bytes_to_hex [] room = []"
| "bytes_to_hex (b # bs) room =
     (if 2 < room
      then hex_char (unat b div 16) # hex_char (unat b mod 16) # bytes_to_hex bs (room - 2)
      else [])"

text \<open>
  \<^verbatim>\<open>strtoul(s, &end, 10)\<close> on a 64-bit \<^verbatim>\<open>unsigned long\<close>; \<open>None\<close> when no digit is converted or
  the value is out of range (\<^verbatim>\<open>errno\<close> is set).
\<close>

definition strtoul10 :: "cstring \<Rightarrow> nat option" where
  "strtoul10 s =
     (let t = dropWhile is_space s;
          neg = starts_with_str t ''-'';
          u = (if neg \<or> starts_with_str t ''+'' then drop 1 t else t);
          ds = takeWhile is_digit u;
          n = nat_of_digits ds
      in if ds = [] \<or> 2 ^ 64 \<le> n then None
         else Some (if neg then (2 ^ 64 - n) mod 2 ^ 64 else n))"

text \<open>The cast to \<^verbatim>\<open>ULONG\<close> keeps 32 bits.\<close>

definition parse_ulong :: "cstring \<Rightarrow> 32 word \<Rightarrow> 32 word option" where
  "parse_ulong text fallback =
     (if text = [] then Some fallback else map_option of_nat (strtoul10 text))"

definition alg_to_skf_id :: "cstring \<Rightarrow> 32 word" where
  "alg_to_skf_id algorithm =
     (if algorithm = ''sm3'' then SGD_SM3
      else if algorithm = ''sha256'' then SGD_SHA256
      else if algorithm = ''sm2'' \<or> algorithm = ''sm2-sign'' then SGD_SM2_1
      else if algorithm = ''sm2-enc'' then SGD_SM2_3
      else if algorithm = ''rsa'' \<or> algorithm = ''rsa-sign'' then SGD_RSA_SIGN
      else if algorithm = ''rsa-enc'' then SGD_RSA_ENC
      else if algorithm = ''sm4'' \<or> algorithm = ''sm4-cbc'' then SGD_SM4_CBC
      else if algorithm = ''sm4-ecb'' then SGD_SM4_ECB
      else 0)"

definition split_pair :: "cstring \<Rightarrow> nat \<Rightarrow> nat \<Rightarrow> (cstring \<times> cstring) option" where
  "split_pair text left_sz right_sz =
     (case strchr text CHR ''|'' of
        None \<Rightarrow> None
      | Some sep \<Rightarrow>
          (let n = length text - length sep in
           if left_sz \<le> n then None
           else Some (take n text, snprintf_s right_sz (drop 1 sep))))"

text \<open>A struct of \<open>n\<close> bytes that was zeroed before the bytes \<open>bs\<close> were written to it.\<close>

definition blob :: "nat \<Rightarrow> byte list \<Rightarrow> byte list" where
  "blob n bs = take n (bs @ replicate n 0)"

text \<open>The bytes written at the start of the zeroed struct; their number is \<^verbatim>\<open>*actual_len\<close>.\<close>

definition blob_from_hex :: "cstring \<Rightarrow> nat \<Rightarrow> byte list option" where
  "blob_from_hex text blob_sz =
     (if text = [] then None
      else decode_hex blob_sz (if starts_with_str text ''hex:'' then drop 4 text else text))"

text \<open>\<^verbatim>\<open>%08X\<close>.\<close>

definition hex_char_upper :: "nat \<Rightarrow> char" where
  "hex_char_upper n = (if n < 10 then char_of (48 + n) else char_of (55 + n))"

fun hex_fixed_upper :: "nat \<Rightarrow> nat \<Rightarrow> cstring" where
  "hex_fixed_upper 0 n = []"
| "hex_fixed_upper (Suc k) n = hex_fixed_upper k (n div 16) @ [hex_char_upper (n mod 16)]"

definition fmt_rv :: "32 word \<Rightarrow> cstring" where
  "fmt_rv rv = ''0x'' @ hex_fixed_upper 8 (unat rv)"

definition fmt_u :: "32 word \<Rightarrow> cstring" where
  "fmt_u n = dec_nat (unat n)"

end
