(* ===== verification/Skf_Adapter.thy ===== *)
theory Skf_Adapter
  imports Skf_Library
begin

text \<open>
  \<^verbatim>\<open>src/server/driver/skf_adapter.c\<close>: loading the vendor library, opening and closing its
  handles, and the way a handler of the GM3000 adapter returns. The state \<open>'w\<close> is that of the outside: it is
  threaded through every call of the library, in the order the code makes them. A function that
  returns \<open>-1\<close> after writing \<^verbatim>\<open>errbuf\<close> returns \<open>Inl\<close> the whole text; it is cut to the size of
  \<^verbatim>\<open>errbuf\<close> where a handler returns it.
\<close>

subsection \<open>The library and the session\<close>

text \<open>The handle of the library and the names whose function pointer is not null.\<close>

record skf_runtime_t =
  rt_lib :: skf_handle
  rt_symbols :: "cstring list"

record skf_session_t =
  dev :: skf_handle
  app :: skf_handle
  container :: skf_handle

definition zero_session :: skf_session_t where
  "zero_session = \<lparr>dev = 0, app = 0, container = 0\<rparr>"

definition rt_has :: "skf_runtime_t \<Rightarrow> cstring \<Rightarrow> bool" where
  "rt_has rt name \<longleftrightarrow> name \<in> set (rt_symbols rt)"

definition last_dl_error :: "'w skf_env \<Rightarrow> cstring \<Rightarrow> cstring" where
  "last_dl_error L name = (case env_dlerror L name of Some msg \<Rightarrow> msg | None \<Rightarrow> ''unknown dlerror'')"

text \<open>
  One \<^verbatim>\<open>LOAD_REQ\<close> or \<^verbatim>\<open>LOAD_OPT\<close>: the names found so far are the state, \<open>Inl\<close> is the return
  value \<open>-1\<close>.
\<close>

definition load_symbol :: "'w skf_env \<Rightarrow> bool \<Rightarrow> cstring \<Rightarrow> cstring list \<Rightarrow> cstring + cstring list" where
  "load_symbol L required name found =
     (if env_symbol L name then Inr (found @ [name])
      else if required
      then Inl (''missing SKF symbol '' @ name @ '': '' @ last_dl_error L name)
      else Inr found)"

fun load_symbols :: "'w skf_env \<Rightarrow> bool \<Rightarrow> cstring list \<Rightarrow> cstring list \<Rightarrow> cstring + cstring list" where
  "load_symbols L required [] found = Inr found"
| "load_symbols L required (name # names) found =
     (case load_symbol L required name found of
        Inl e \<Rightarrow> Inl e
      | Inr found \<Rightarrow> load_symbols L required names found)"

definition skf_required :: "cstring list" where
  "skf_required = [''SKF_EnumDev'', ''SKF_ConnectDev'', ''SKF_DisConnectDev'', ''SKF_GetDevInfo'', ''SKF_GenRandom'']"

definition skf_optional :: "cstring list" where
  "skf_optional =
     [''SKF_OpenApplication'', ''SKF_CloseApplication'', ''SKF_VerifyPIN'', ''SKF_CreateContainer'',
      ''SKF_DeleteContainer'', ''SKF_OpenContainer'', ''SKF_CloseContainer'', ''SKF_GenECCKeyPair'',
      ''SKF_GenRSAKeyPair'', ''SKF_ExportPublicKey'', ''SKF_ECCSignData'', ''SKF_ECCVerify'',
      ''SKF_RSASignData'', ''SKF_RSAVerify'', ''SKF_ExtECCEncrypt'', ''SKF_ECCDecrypt'',
      ''SKF_ExtRSAPubKeyOperation'', ''SKF_RSADecrypt'', ''SKF_SetSymmKey'', ''SKF_EncryptInit'',
      ''SKF_Encrypt'', ''SKF_DecryptInit'', ''SKF_Decrypt'', ''SKF_Mac'', ''SKF_DigestInit'',
      ''SKF_Digest'', ''SKF_CloseHandle'', ''SKF_CreateFile'', ''SKF_DeleteFile'', ''SKF_ReadFile'',
      ''SKF_WriteFile'', ''SKF_GenerateKeyPairKyber'', ''SKF_Encap_Kyber'', ''SKF_Decap_Kyber'',
      ''SKF_GenerateKeyPair_Dilithium'', ''SKF_Sign_Dilithium'', ''SKF_Verify_Dilithium'']"

definition missing_symbol :: "cstring \<Rightarrow> cstring" where
  "missing_symbol name = ''GM3000 SKF library does not export required symbol '' @ name"

definition set_and_nonempty :: "cstring option \<Rightarrow> cstring option" where
  "set_and_nonempty v = (case v of Some s \<Rightarrow> if s = [] then None else Some s | None \<Rightarrow> None)"

definition env_or_default :: "'w skf_env \<Rightarrow> cstring \<Rightarrow> cstring \<Rightarrow> cstring" where
  "env_or_default L name fallback =
     (case set_and_nonempty (env_get L name) of Some v \<Rightarrow> v | None \<Rightarrow> fallback)"

text \<open>
  The recurring step: a call of the library, \<open>ok\<close> of the reply when it returns \<open>SAR_OK\<close>, the
  text \<^verbatim>\<open>"<what> failed rv=0x%08X"\<close> otherwise.
\<close>

definition failed_text :: "cstring \<Rightarrow> skf_reply \<Rightarrow> cstring" where
  "failed_text what r = what @ '' failed rv='' @ fmt_rv (r_rv r)"

definition invoke ::
  "'w skf_env \<Rightarrow> cstring \<Rightarrow> skf_call \<Rightarrow> (skf_reply \<Rightarrow> 'a) \<Rightarrow> 'w \<Rightarrow> (cstring + 'a) \<times> 'w" where
  "invoke L what c ok w =
     (let (r, w) = env_call L c w in
      (if r_rv r \<noteq> SAR_OK then Inl (failed_text what r) else Inr (ok r), w))"

text \<open>The test of a function pointer before its use.\<close>

definition with_symbol ::
  "skf_runtime_t \<Rightarrow> cstring \<Rightarrow> ('w \<Rightarrow> (cstring + 'a) \<times> 'w) \<Rightarrow> 'w \<Rightarrow> (cstring + 'a) \<times> 'w" where
  "with_symbol rt name body w = (if rt_has rt name then body w else (Inl (missing_symbol name), w))"

definition GM3000_DEFAULT_LIB :: cstring where
  "GM3000_DEFAULT_LIB = ''./vendor/libgm3000.1.0.so''"

definition open_runtime :: "'w skf_env \<Rightarrow> 'w \<Rightarrow> (cstring + skf_runtime_t) \<times> 'w" where
  "open_runtime L w =
     (let lib_path = env_or_default L ''GM3000_SKF_LIB'' GM3000_DEFAULT_LIB;
          (r, w) = env_call L (Dlopen lib_path) w in
      if r_handle r = 0
      then (Inl (''dlopen '' @ lib_path @ '' failed: '' @ last_dl_error L lib_path), w)
      else case load_symbols L True skf_required [] of
        Inl e \<Rightarrow> (Inl e, w)
      | Inr found \<Rightarrow>
          (case load_symbols L False skf_optional found of
             Inl e \<Rightarrow> (Inl e, w)
           | Inr found \<Rightarrow> (Inr \<lparr>rt_lib = r_handle r, rt_symbols = found\<rparr>, w)))"

definition close_runtime :: "'w skf_env \<Rightarrow> skf_runtime_t \<Rightarrow> 'w \<Rightarrow> 'w" where
  "close_runtime L rt w = (if rt_lib rt = 0 then w else snd (env_call L (Dlclose (rt_lib rt)) w))"

definition enum_first_device :: "'w skf_env \<Rightarrow> 'w \<Rightarrow> (cstring + cstring) \<times> 'w" where
  "enum_first_device L w =
     (let (r, w) = env_call L SKF_EnumDev_length w in
      if r_rv r \<noteq> SAR_OK \<or> r_count r = 0
      then (Inl (''SKF_EnumDev length failed rv='' @ fmt_rv (r_rv r) @ '' len='' @ fmt_u (r_count r)), w)
      else if \<not> env_calloc L (unat (r_count r) + 1)
      then (Inl ''out of memory enumerating SKF devices'', w)
      else
        let (r', w) = env_call L (SKF_EnumDev (r_count r)) w;
            name = c_string (take (unat (r_count r)) (r_text1 r')) in
        if r_rv r' \<noteq> SAR_OK \<or> name = []
        then (Inl (failed_text ''SKF_EnumDev'' r'), w)
        else (Inr (snprintf_s GM3000_MAX_NAME name), w))"

definition open_device :: "'w skf_env \<Rightarrow> 'w \<Rightarrow> (cstring + skf_session_t) \<times> 'w" where
  "open_device L w =
     (let (res, w) = (case set_and_nonempty (env_get L ''GM3000_SKF_DEVICE'') of
                        Some name \<Rightarrow> (Inr name, w)
                      | None \<Rightarrow> enum_first_device L w) in
      case res of
        Inl e \<Rightarrow> (Inl e, w)
      | Inr dev_name \<Rightarrow>
          invoke L (''SKF_ConnectDev('' @ dev_name @ '')'') (SKF_ConnectDev dev_name)
            (\<lambda>r. zero_session \<lparr> dev := r_handle r \<rparr>) w)"

text \<open>The session is passed on in every case: the handle field is written by the library.\<close>

definition open_app ::
  "'w skf_env \<Rightarrow> skf_runtime_t \<Rightarrow> skf_session_t \<Rightarrow> 'w \<Rightarrow> (cstring + unit) \<times> skf_session_t \<times> 'w" where
  "open_app L rt sess w =
     (if \<not> rt_has rt ''SKF_OpenApplication'' then (Inl (missing_symbol ''SKF_OpenApplication''), sess, w)
      else case set_and_nonempty (env_get L ''GM3000_SKF_APP'') of
        None \<Rightarrow> (Inl ''GM3000_SKF_APP is required for this operation'', sess, w)
      | Some app_name \<Rightarrow>
          (let (r, w) = env_call L (SKF_OpenApplication (dev sess) app_name) w;
               sess = sess \<lparr> app := r_handle r \<rparr> in
           if r_rv r \<noteq> SAR_OK
           then (Inl (failed_text (''SKF_OpenApplication('' @ app_name @ '')'') r), sess, w)
           else (Inr (), sess, w)))"

definition container_name_from_call :: "'w skf_env \<Rightarrow> translated_call_t \<Rightarrow> cstring" where
  "container_name_from_call L call =
     (if call_key_ref (tc_call call) \<noteq> [] then call_key_ref (tc_call call)
      else case set_and_nonempty (env_get L ''GM3000_SKF_CONTAINER'') of
        Some name \<Rightarrow> name
      | None \<Rightarrow> ''default'')"

definition open_container ::
  "'w skf_env \<Rightarrow> skf_runtime_t \<Rightarrow> skf_session_t \<Rightarrow> translated_call_t \<Rightarrow> 'w
     \<Rightarrow> (cstring + unit) \<times> skf_session_t \<times> 'w" where
  "open_container L rt sess call w =
     (let name = container_name_from_call L call in
      if \<not> rt_has rt ''SKF_OpenContainer'' then (Inl (missing_symbol ''SKF_OpenContainer''), sess, w)
      else
        let (r, w) = env_call L (SKF_OpenContainer (app sess) name) w;
            sess = sess \<lparr> container := r_handle r \<rparr> in
        if r_rv r \<noteq> SAR_OK
        then (Inl (failed_text (''SKF_OpenContainer('' @ name @ '')'') r), sess, w)
        else (Inr (), sess, w))"

text \<open>The call of \<^verbatim>\<open>SKF_VerifyPIN\<close> and its error text; the count is the number of retries left.\<close>

definition verify_pin ::
  "'w skf_env \<Rightarrow> skf_session_t \<Rightarrow> cstring \<Rightarrow> (skf_reply \<Rightarrow> 'a) \<Rightarrow> 'w \<Rightarrow> (cstring + 'a) \<times> 'w" where
  "verify_pin L sess pin ok w =
     (let (r, w) = env_call L (On_app (app sess) (SKF_VerifyPIN pin)) w in
      (if r_rv r \<noteq> SAR_OK then Inl (failed_text ''SKF_VerifyPIN'' r @ '' retry='' @ fmt_u (r_count r))
       else Inr (ok r), w))"

definition verify_pin_if_set ::
  "'w skf_env \<Rightarrow> skf_runtime_t \<Rightarrow> skf_session_t \<Rightarrow> 'w \<Rightarrow> (cstring + unit) \<times> 'w" where
  "verify_pin_if_set L rt sess w =
     (case set_and_nonempty (env_get L ''GM3000_SKF_PIN'') of
        None \<Rightarrow> (Inr (), w)
      | Some pin \<Rightarrow> with_symbol rt ''SKF_VerifyPIN'' (verify_pin L sess pin (\<lambda>r. ())) w)"

text \<open>A handle that is set is closed by its function, when the library has it.\<close>

definition close_one :: "'w skf_env \<Rightarrow> bool \<Rightarrow> skf_handle \<Rightarrow> skf_call \<Rightarrow> 'w \<Rightarrow> 'w" where
  "close_one L has h c w = (if h \<noteq> 0 \<and> has then snd (env_call L c w) else w)"

definition close_session :: "'w skf_env \<Rightarrow> skf_runtime_t \<Rightarrow> skf_session_t \<Rightarrow> 'w \<Rightarrow> 'w" where
  "close_session L rt sess w =
     (let w = close_one L (rt_has rt ''SKF_CloseContainer'') (container sess) (SKF_CloseContainer (container sess)) w;
          w = close_one L (rt_has rt ''SKF_CloseApplication'') (app sess) (SKF_CloseApplication (app sess)) w
      in close_one L True (dev sess) (SKF_DisConnectDev (dev sess)) w)"

definition open_base :: "'w skf_env \<Rightarrow> 'w \<Rightarrow> (cstring + skf_runtime_t \<times> skf_session_t) \<times> 'w" where
  "open_base L w =
     (case open_runtime L w of
        (Inl e, w) \<Rightarrow> (Inl e, w)
      | (Inr rt, w) \<Rightarrow>
          (case open_device L w of
             (Inl e, w) \<Rightarrow> (Inl e, close_runtime L rt w)
           | (Inr sess, w) \<Rightarrow> (Inr (rt, sess), w)))"

definition close_all :: "'w skf_env \<Rightarrow> skf_runtime_t \<Rightarrow> skf_session_t \<Rightarrow> 'w \<Rightarrow> 'w" where
  "close_all L rt sess w = close_runtime L rt (close_session L rt sess w)"

definition open_app_container ::
  "'w skf_env \<Rightarrow> translated_call_t \<Rightarrow> bool \<Rightarrow> 'w \<Rightarrow> (cstring + skf_runtime_t \<times> skf_session_t) \<times> 'w" where
  "open_app_container L call want_pin w =
     (case open_base L w of
        (Inl e, w) \<Rightarrow> (Inl e, w)
      | (Inr (rt, sess), w) \<Rightarrow>
          (case open_app L rt sess w of
             (Inl e, sess, w) \<Rightarrow> (Inl e, close_all L rt sess w)
           | (Inr _, sess, w) \<Rightarrow>
               (case if want_pin then verify_pin_if_set L rt sess w else (Inr (), w) of
                  (Inl e, w) \<Rightarrow> (Inl e, close_all L rt sess w)
                | (Inr _, w) \<Rightarrow>
                    (case open_container L rt sess call w of
                       (Inl e, sess, w) \<Rightarrow> (Inl e, close_all L rt sess w)
                     | (Inr _, sess, w) \<Rightarrow> (Inr (rt, sess), w)))))"

text \<open>
  The opening of the handlers that need an application and no container: when \<^verbatim>\<open>open_app\<close>
  fails they return through \<^verbatim>\<open>finalize_error_or_success\<close>.
\<close>

definition open_base_app :: "'w skf_env \<Rightarrow> 'w \<Rightarrow> (cstring + skf_runtime_t \<times> skf_session_t) \<times> 'w" where
  "open_base_app L w =
     (case open_base L w of
        (Inl e, w) \<Rightarrow> (Inl e, w)
      | (Inr (rt, sess), w) \<Rightarrow>
          (case open_app L rt sess w of
             (Inl e, sess, w) \<Rightarrow> (Inl e, close_all L rt sess w)
           | (Inr _, sess, w) \<Rightarrow> (Inr (rt, sess), w)))"

subsection \<open>How a handler returns\<close>

definition adapter_fail :: "nat \<Rightarrow> cstring \<Rightarrow> response_t \<Rightarrow> 'w \<Rightarrow> (cstring + unit) \<times> response_t \<times> 'w" where
  "adapter_fail esz m resp w = (Inl (snprintf_s esz m), resp, w)"

text \<open>
  The return through \<^verbatim>\<open>finalize_error_or_success\<close>: \<open>res\<close> is the error text or the text for
  \<^verbatim>\<open>resp->result\<close>.
\<close>

definition finalize_error_or_success ::
  "'w skf_env \<Rightarrow> nat \<Rightarrow> response_t \<Rightarrow> skf_runtime_t \<Rightarrow> skf_session_t \<Rightarrow> (cstring + cstring) \<times> 'w
     \<Rightarrow> (cstring + unit) \<times> response_t \<times> 'w" where
  "finalize_error_or_success L esz resp rt sess rw =
     (let w = close_all L rt sess (snd rw) in
      case fst rw of Inl m \<Rightarrow> adapter_fail esz m resp w | Inr s \<Rightarrow> adapter_ok s resp w)"

text \<open>The frame of a handler: open the session, run the body, close everything.\<close>

definition in_session ::
  "'w skf_env \<Rightarrow> nat \<Rightarrow> response_t \<Rightarrow> (cstring + skf_runtime_t \<times> skf_session_t) \<times> 'w
     \<Rightarrow> (skf_runtime_t \<Rightarrow> skf_session_t \<Rightarrow> 'w \<Rightarrow> (cstring + cstring) \<times> 'w)
     \<Rightarrow> (cstring + unit) \<times> response_t \<times> 'w" where
  "in_session L esz resp opened body =
     (case opened of
        (Inl m, w) \<Rightarrow> adapter_fail esz m resp w
      | (Inr (rt, sess), w) \<Rightarrow> finalize_error_or_success L esz resp rt sess (body rt sess w))"

definition hex_result :: "byte list \<Rightarrow> cstring" where
  "hex_result bs = bytes_to_hex bs GM3000_RESULT_HEX"

text \<open>The texts \<^verbatim>\<open>"unsupported gm3000 <what> action=%s"\<close>.\<close>

definition unsupported_action :: "cstring \<Rightarrow> translated_call_t \<Rightarrow> cstring" where
  "unsupported_action what call =
     ''unsupported gm3000 '' @ what @ '' action='' @ action_to_string (call_action (tc_call call))"

end
