(* ===== verification/Skf_Handlers.thy ===== *)
theory Skf_Handlers
  imports Skf_Adapter
begin

text \<open>
  The seven handlers of \<^verbatim>\<open>src/server/driver/skf_adapter.c\<close>. Each has a body, the part between
  the opening of the session and \<^verbatim>\<open>finalize_error_or_success\<close>: \<open>Inl\<close> is \<^verbatim>\<open>rc = -1\<close> with the text
  for \<^verbatim>\<open>errbuf\<close>, \<open>Inr\<close> is \<^verbatim>\<open>rc = 0\<close> with the text for \<^verbatim>\<open>resp->result\<close>. At the end the adapter
  is an instance of the contract of \<open>Drivers\<close>.
\<close>

subsection \<open>Devices\<close>

definition device_info_text :: "skf_reply \<Rightarrow> cstring" where
  "device_info_text r =
     ''gm3000-device(label='' @ c_string (take 32 (r_text1 r))
     @ '',serial='' @ c_string (take 32 (r_text2 r))
     @ '',manufacturer='' @ c_string (take 64 (r_text3 r)) @ '')''"

definition device_body ::
  "'w skf_env \<Rightarrow> translated_call_t \<Rightarrow> skf_runtime_t \<Rightarrow> skf_session_t \<Rightarrow> 'w \<Rightarrow> (cstring + cstring) \<times> 'w" where
  "device_body L call rt sess w =
     (if call_action (tc_call call) = ACTION_GET_DEVICE_INFO
      then invoke L ''SKF_GetDevInfo'' (On_device (dev sess) SKF_GetDevInfo) device_info_text w
      else if call_action (tc_call call) = ACTION_GENERATE_RANDOM
      then (case parse_ulong (call_payload (tc_call call)) 16 of
              None \<Rightarrow> (Inl (''invalid random length payload='' @ call_payload (tc_call call)), w)
            | Some out_len \<Rightarrow>
                if GM3000_MAX_IO < unat out_len
                then (Inl (''invalid random length payload='' @ call_payload (tc_call call)), w)
                else invoke L ''SKF_GenRandom'' (On_device (dev sess) (SKF_GenRandom out_len))
                  (\<lambda>r. ''gm3000-random('' @ fmt_u out_len @ '',''
                         @ hex_result (take (unat out_len) (r_bytes r)) @ '')'') w)
      else (Inl (unsupported_action ''device'' call), w))"

definition gm3000_device_manage :: "'w skf_env \<Rightarrow> 'w adapter_handler" where
  "gm3000_device_manage L d call resp esz w =
     in_session L esz (fill_common d call resp) (open_base L w) (device_body L call)"

subsection \<open>Keys\<close>

definition key_access ::
  "'w skf_env \<Rightarrow> skf_runtime_t \<Rightarrow> skf_session_t \<Rightarrow> 'w \<Rightarrow> (cstring + cstring) \<times> 'w" where
  "key_access L rt sess =
     with_symbol rt ''SKF_VerifyPIN'' (\<lambda>w.
       case set_and_nonempty (env_get L ''GM3000_SKF_PIN'') of
         None \<Rightarrow> (Inl ''GM3000_SKF_PIN is required for get_private_key_access'', w)
       | Some pin \<Rightarrow> verify_pin L sess pin
           (\<lambda>r. ''gm3000-key-access-ok(retry='' @ fmt_u (r_count r) @ '')'') w)"

definition key_generate_pair ::
  "'w skf_env \<Rightarrow> skf_runtime_t \<Rightarrow> skf_session_t \<Rightarrow> translated_call_t \<Rightarrow> 'w \<Rightarrow> (cstring + cstring) \<times> 'w" where
  "key_generate_pair L rt sess call =
     (if call_algorithm (tc_call call) = ''sm2''
      then with_symbol rt ''SKF_GenECCKeyPair''
        (invoke L ''SKF_GenECCKeyPair'' (On_container (container sess) (SKF_GenECCKeyPair SGD_SM2_1))
           (\<lambda>r. ''gm3000-keypair(sm2,pub=hex:'' @ hex_result (blob ECCPUBLICKEYBLOB_size (r_bytes r)) @ '')''))
      else if call_algorithm (tc_call call) = ''rsa''
      then with_symbol rt ''SKF_GenRSAKeyPair''
        (let bits = (case parse_ulong (call_payload (tc_call call)) 2048 of None \<Rightarrow> 2048 | Some n \<Rightarrow> n) in
         invoke L ''SKF_GenRSAKeyPair'' (On_container (container sess) (SKF_GenRSAKeyPair bits))
           (\<lambda>r. ''gm3000-keypair(rsa,pub=hex:'' @ hex_result (blob RSAPUBLICKEYBLOB_size (r_bytes r)) @ '')''))
      else (\<lambda>w. (Inl (missing_symbol ''PQC key-pair function for requested algorithm''), w)))"

definition key_export :: "'w skf_env \<Rightarrow> skf_runtime_t \<Rightarrow> skf_session_t \<Rightarrow> 'w \<Rightarrow> (cstring + cstring) \<times> 'w" where
  "key_export L rt sess =
     with_symbol rt ''SKF_ExportPublicKey''
       (invoke L ''SKF_ExportPublicKey'' (On_container (container sess) SKF_ExportPublicKey)
          (\<lambda>r. ''gm3000-export-public-key(hex:'' @ hex_result (r_bytes r) @ '')''))"

text \<open>The key handle is closed at once: the imported key is not kept.\<close>

definition key_import ::
  "'w skf_env \<Rightarrow> skf_runtime_t \<Rightarrow> skf_session_t \<Rightarrow> translated_call_t \<Rightarrow> 'w \<Rightarrow> (cstring + cstring) \<times> 'w" where
  "key_import L rt sess call =
     with_symbol rt ''SKF_SetSymmKey'' (\<lambda>w.
       let alg = (if alg_to_skf_id (call_algorithm (tc_call call)) = 0 then SGD_SM4_CBC
                  else alg_to_skf_id (call_algorithm (tc_call call)));
           text = (if call_payload (tc_call call) \<noteq> [] then call_payload (tc_call call)
                   else call_aux_payload (tc_call call))
       in case input_to_bytes GM3000_MAX_IO (Some text) of
            None \<Rightarrow> (Inl ''import_key requires key bytes in payload or aux_payload'', w)
          | Some key \<Rightarrow>
              if key = [] then (Inl ''import_key requires key bytes in payload or aux_payload'', w)
              else
                let (r, w) = env_call L (SKF_SetSymmKey (dev sess) key alg) w in
                if r_rv r \<noteq> SAR_OK then (Inl (failed_text ''SKF_SetSymmKey(import)'' r), w)
                else (Inr (''gm3000-import-key(transient,'' @ dec_nat (length key) @ ''-bytes)''),
                      close_one L (rt_has rt ''SKF_CloseHandle'') (r_handle r) (SKF_CloseHandle (r_handle r)) w))"

definition key_destroy ::
  "'w skf_env \<Rightarrow> skf_runtime_t \<Rightarrow> skf_session_t \<Rightarrow> translated_call_t \<Rightarrow> 'w \<Rightarrow> (cstring + cstring) \<times> 'w" where
  "key_destroy L rt sess call =
     (let name = container_name_from_call L call in
      with_symbol rt ''SKF_DeleteContainer''
        (invoke L (''SKF_DeleteContainer('' @ name @ '')'') (On_app (app sess) (SKF_DeleteContainer name))
           (\<lambda>r. ''gm3000-destroy-key('' @ name @ '')'')))"

definition key_body ::
  "'w skf_env \<Rightarrow> translated_call_t \<Rightarrow> skf_runtime_t \<Rightarrow> skf_session_t \<Rightarrow> 'w \<Rightarrow> (cstring + cstring) \<times> 'w" where
  "key_body L call rt sess =
     (case call_action (tc_call call) of
        ACTION_GET_PRIVATE_KEY_ACCESS \<Rightarrow> key_access L rt sess
      | ACTION_RELEASE_PRIVATE_KEY_ACCESS \<Rightarrow> (\<lambda>w. (Inr ''gm3000-key-access-released'', w))
      | ACTION_GENERATE_KEY_PAIR \<Rightarrow> key_generate_pair L rt sess call
      | ACTION_EXPORT_PUBLIC_KEY \<Rightarrow> key_export L rt sess
      | ACTION_IMPORT_KEY \<Rightarrow> key_import L rt sess call
      | ACTION_DESTROY_KEY \<Rightarrow> key_destroy L rt sess call
      | _ \<Rightarrow> (\<lambda>w. (Inl (unsupported_action ''key'' call), w)))"

definition gm3000_key_manage :: "'w skf_env \<Rightarrow> 'w adapter_handler" where
  "gm3000_key_manage L d call resp esz w =
     in_session L esz (fill_common d call resp)
       (if call_action (tc_call call) \<in> {ACTION_GET_PRIVATE_KEY_ACCESS, ACTION_RELEASE_PRIVATE_KEY_ACCESS, ACTION_DESTROY_KEY}
        then open_base_app L w else open_app_container L call True w)
       (key_body L call)"

subsection \<open>Asymmetric operations\<close>

definition asym_sign ::
  "'w skf_env \<Rightarrow> byte list \<Rightarrow> skf_runtime_t \<Rightarrow> skf_session_t \<Rightarrow> bool \<Rightarrow> 'w \<Rightarrow> (cstring + cstring) \<times> 'w" where
  "asym_sign L inp rt sess sm2 =
     (if sm2
      then with_symbol rt ''SKF_ECCSignData''
        (invoke L ''SKF_ECCSignData'' (On_container (container sess) (SKF_ECCSignData inp))
           (\<lambda>r. ''gm3000-sign(sm2,hex:''
              @ bytes_to_hex (blob ECCSIGNATUREBLOB_size (r_bytes r)) (ECCSIGNATUREBLOB_size * 2 + 1) @ '')''))
      else with_symbol rt ''SKF_RSASignData''
        (invoke L ''SKF_RSASignData'' (On_container (container sess) (SKF_RSASignData inp))
           (\<lambda>r. ''gm3000-sign(rsa,hex:'' @ hex_result (r_bytes r) @ '')'')))"

text \<open>An algorithm that is neither leaves \<^verbatim>\<open>errbuf\<close> as it was.\<close>

definition asym_verify ::
  "'w skf_env \<Rightarrow> translated_call_t \<Rightarrow> byte list \<Rightarrow> skf_runtime_t \<Rightarrow> skf_session_t \<Rightarrow> 'w \<Rightarrow> (cstring + cstring) \<times> 'w" where
  "asym_verify L call inp rt sess w =
     (case split_pair (call_aux_payload (tc_call call)) MAX_PAYLOAD_LEN MAX_PAYLOAD_LEN of
        None \<Rightarrow> (Inl ''verify requires aux_payload pubkey_hex|signature_hex'', w)
      | Some (pub_hex, sig_hex) \<Rightarrow>
          if call_algorithm (tc_call call) = ''sm2''
          then with_symbol rt ''SKF_ECCVerify'' (\<lambda>w.
            case (blob_from_hex pub_hex ECCPUBLICKEYBLOB_size, blob_from_hex sig_hex ECCSIGNATUREBLOB_size) of
              (Some pub, Some sig) \<Rightarrow>
                invoke L ''SKF_ECCVerify''
                  (On_device (dev sess)
                     (SKF_ECCVerify (blob ECCPUBLICKEYBLOB_size pub) inp (blob ECCSIGNATUREBLOB_size sig)))
                  (\<lambda>r. ''gm3000-verify-ok(sm2)'') w
            | _ \<Rightarrow> (Inl ''invalid SM2 public key or signature hex'', w)) w
          else if call_algorithm (tc_call call) = ''rsa''
          then with_symbol rt ''SKF_RSAVerify'' (\<lambda>w.
            case (blob_from_hex pub_hex RSAPUBLICKEYBLOB_size, blob_from_hex sig_hex GM3000_MAX_IO) of
              (Some pub, Some sig) \<Rightarrow>
                invoke L ''SKF_RSAVerify''
                  (On_device (dev sess) (SKF_RSAVerify (blob RSAPUBLICKEYBLOB_size pub) inp sig))
                  (\<lambda>r. ''gm3000-verify-ok(rsa)'') w
            | _ \<Rightarrow> (Inl ''invalid RSA public key or signature hex'', w)) w
          else (Inl (env_errbuf L), w))"

definition asym_encrypt ::
  "'w skf_env \<Rightarrow> translated_call_t \<Rightarrow> byte list \<Rightarrow> skf_runtime_t \<Rightarrow> skf_session_t \<Rightarrow> bool \<Rightarrow> 'w
     \<Rightarrow> (cstring + cstring) \<times> 'w" where
  "asym_encrypt L call inp rt sess sm2 =
     (if sm2
      then with_symbol rt ''SKF_ExtECCEncrypt'' (\<lambda>w.
        case blob_from_hex (call_aux_payload (tc_call call)) ECCPUBLICKEYBLOB_size of
          None \<Rightarrow> (Inl ''SM2 encrypt requires public key hex in aux_payload'', w)
        | Some pub \<Rightarrow>
            invoke L ''SKF_ExtECCEncrypt''
              (On_device (dev sess) (SKF_ExtECCEncrypt (blob ECCPUBLICKEYBLOB_size pub) inp))
              (\<lambda>r. ''gm3000-cipher(sm2,hex:''
                 @ bytes_to_hex (blob ECCCIPHERBLOB_size (r_bytes r)) (ECCCIPHERBLOB_size * 2 + 1) @ '')'') w)
      else with_symbol rt ''SKF_ExtRSAPubKeyOperation'' (\<lambda>w.
        case blob_from_hex (call_aux_payload (tc_call call)) RSAPUBLICKEYBLOB_size of
          None \<Rightarrow> (Inl ''RSA encrypt requires public key hex in aux_payload'', w)
        | Some pub \<Rightarrow>
            invoke L ''SKF_ExtRSAPubKeyOperation''
              (On_device (dev sess) (SKF_ExtRSAPubKeyOperation (blob RSAPUBLICKEYBLOB_size pub) inp))
              (\<lambda>r. ''gm3000-cipher(rsa,hex:'' @ hex_result (r_bytes r) @ '')'') w))"

definition asym_decrypt ::
  "'w skf_env \<Rightarrow> translated_call_t \<Rightarrow> byte list \<Rightarrow> skf_runtime_t \<Rightarrow> skf_session_t \<Rightarrow> bool \<Rightarrow> 'w
     \<Rightarrow> (cstring + cstring) \<times> 'w" where
  "asym_decrypt L call inp rt sess sm2 =
     (if sm2
      then with_symbol rt ''SKF_ECCDecrypt'' (\<lambda>w.
        case blob_from_hex (call_payload (tc_call call)) ECCCIPHERBLOB_size of
          None \<Rightarrow> (Inl ''SM2 decrypt requires cipher hex payload'', w)
        | Some cipher \<Rightarrow>
            invoke L ''SKF_ECCDecrypt''
              (On_container (container sess) (SKF_ECCDecrypt SGD_SM2_3 (blob ECCCIPHERBLOB_size cipher)))
              (\<lambda>r. ''gm3000-plain(sm2,hex:'' @ hex_result (r_bytes r) @ '')'') w)
      else with_symbol rt ''SKF_RSADecrypt''
        (invoke L ''SKF_RSADecrypt'' (On_container (container sess) (SKF_RSADecrypt SGD_RSA_ENC inp))
           (\<lambda>r. ''gm3000-plain(rsa,hex:'' @ hex_result (r_bytes r) @ '')'')))"

definition asym_body ::
  "'w skf_env \<Rightarrow> translated_call_t \<Rightarrow> byte list \<Rightarrow> skf_runtime_t \<Rightarrow> skf_session_t \<Rightarrow> 'w
     \<Rightarrow> (cstring + cstring) \<times> 'w" where
  "asym_body L call inp rt sess w =
     (let act = call_action (tc_call call); alg = call_algorithm (tc_call call) in
      if act = ACTION_SIGN \<and> (alg = ''sm2'' \<or> alg = ''rsa'') then asym_sign L inp rt sess (alg = ''sm2'') w
      else if act = ACTION_VERIFY then asym_verify L call inp rt sess w
      else if act = ACTION_ENCRYPT \<and> (alg = ''sm2'' \<or> alg = ''rsa'')
      then asym_encrypt L call inp rt sess (alg = ''sm2'') w
      else if act = ACTION_DECRYPT \<and> (alg = ''sm2'' \<or> alg = ''rsa'')
      then asym_decrypt L call inp rt sess (alg = ''sm2'') w
      else (Inl (unsupported_action ''asym'' call @ '' alg='' @ alg), w))"

definition gm3000_asym_crypto :: "'w skf_env \<Rightarrow> 'w adapter_handler" where
  "gm3000_asym_crypto L d call resp esz w =
     (let resp = fill_common d call resp in
      case input_to_bytes GM3000_MAX_IO (Some (call_payload (tc_call call))) of
        None \<Rightarrow> adapter_fail esz ''invalid asym input payload'' resp w
      | Some inp \<Rightarrow>
          in_session L esz resp
            (if call_action (tc_call call) \<in> {ACTION_VERIFY, ACTION_ENCRYPT}
             then open_base L w else open_app_container L call True w)
            (asym_body L call inp))"

subsection \<open>Symmetric operations and digests\<close>

definition sym_key_bytes :: "'w skf_env \<Rightarrow> translated_call_t \<Rightarrow> nat \<Rightarrow> byte list option" where
  "sym_key_bytes L call key_cap =
     input_to_bytes key_cap
       (if call_aux_payload (tc_call call) \<noteq> [] then Some (call_aux_payload (tc_call call))
        else env_get L ''GM3000_SKF_SYM_KEY'')"

text \<open>An initialisation and, when it succeeds, the operation; the text names the operation.\<close>

definition init_and_run ::
  "'w skf_env \<Rightarrow> cstring \<Rightarrow> skf_call \<Rightarrow> skf_call \<Rightarrow> (skf_reply \<Rightarrow> cstring) \<Rightarrow> 'w \<Rightarrow> (cstring + cstring) \<times> 'w" where
  "init_and_run L what init run ok w =
     (let (r, w) = env_call L init w in
      if r_rv r \<noteq> SAR_OK then (Inl (failed_text what r), w) else invoke L what run ok w)"

definition sym_operation ::
  "'w skf_env \<Rightarrow> translated_call_t \<Rightarrow> byte list \<Rightarrow> skf_runtime_t \<Rightarrow> skf_handle \<Rightarrow> 'w \<Rightarrow> (cstring + cstring) \<times> 'w" where
  "sym_operation L call inp rt hkey w =
     (if call_action (tc_call call) = ACTION_ENCRYPT
      then (if \<not> rt_has rt ''SKF_EncryptInit'' \<or> \<not> rt_has rt ''SKF_Encrypt''
            then (Inl (missing_symbol ''SKF_EncryptInit/SKF_Encrypt''), w)
            else init_and_run L ''SKF_Encrypt'' (On_temp hkey SKF_EncryptInit) (On_temp hkey (SKF_Encrypt inp))
              (\<lambda>r. ''gm3000-sym-enc(hex:'' @ hex_result (r_bytes r) @ '')'') w)
      else if call_action (tc_call call) = ACTION_DECRYPT
      then (if \<not> rt_has rt ''SKF_DecryptInit'' \<or> \<not> rt_has rt ''SKF_Decrypt''
            then (Inl (missing_symbol ''SKF_DecryptInit/SKF_Decrypt''), w)
            else init_and_run L ''SKF_Decrypt'' (On_temp hkey SKF_DecryptInit) (On_temp hkey (SKF_Decrypt inp))
              (\<lambda>r. ''gm3000-sym-dec(hex:'' @ hex_result (r_bytes r) @ '')'') w)
      else if call_action (tc_call call) = ACTION_MAC
      then with_symbol rt ''SKF_Mac''
        (invoke L ''SKF_Mac'' (On_temp hkey (SKF_Mac inp))
           (\<lambda>r. ''gm3000-mac(hex:'' @ hex_result (r_bytes r) @ '')'')) w
      else (Inl (unsupported_action ''sym'' call), w))"

text \<open>The end of the handlers that hold a temporary handle, the label \<^verbatim>\<open>done\<close>.\<close>

definition close_temp :: "'w skf_env \<Rightarrow> skf_runtime_t \<Rightarrow> skf_handle \<Rightarrow> (cstring + cstring) \<times> 'w \<Rightarrow> (cstring + cstring) \<times> 'w" where
  "close_temp L rt h rw =
     (fst rw, close_one L (rt_has rt ''SKF_CloseHandle'') h (SKF_CloseHandle h) (snd rw))"

definition sym_body ::
  "'w skf_env \<Rightarrow> translated_call_t \<Rightarrow> byte list \<Rightarrow> byte list \<Rightarrow> skf_runtime_t \<Rightarrow> skf_session_t \<Rightarrow> 'w
     \<Rightarrow> (cstring + cstring) \<times> 'w" where
  "sym_body L call key inp rt sess =
     with_symbol rt ''SKF_SetSymmKey'' (\<lambda>w.
       let alg = (if alg_to_skf_id (call_algorithm (tc_call call)) = 0 then SGD_SM4_CBC
                  else alg_to_skf_id (call_algorithm (tc_call call)));
           (r, w) = env_call L (SKF_SetSymmKey (dev sess) key alg) w
       in close_temp L rt (r_handle r)
            (if r_rv r \<noteq> SAR_OK then (Inl (failed_text ''SKF_SetSymmKey'' r), w)
             else sym_operation L call inp rt (r_handle r) w))"

definition gm3000_sym_crypto :: "'w skf_env \<Rightarrow> 'w adapter_handler" where
  "gm3000_sym_crypto L d call resp esz w =
     (let resp = fill_common d call resp;
          no_key = adapter_fail esz ''sym operation requires key bytes in aux_payload or GM3000_SKF_SYM_KEY'' resp w in
      case sym_key_bytes L call GM3000_MAX_IO of
        None \<Rightarrow> no_key
      | Some key \<Rightarrow>
          if key = [] then no_key
          else case input_to_bytes GM3000_MAX_IO (Some (call_payload (tc_call call))) of
            None \<Rightarrow> adapter_fail esz ''invalid sym input payload'' resp w
          | Some inp \<Rightarrow> in_session L esz resp (open_base L w) (sym_body L call key inp))"

definition hash_body ::
  "'w skf_env \<Rightarrow> translated_call_t \<Rightarrow> byte list \<Rightarrow> skf_runtime_t \<Rightarrow> skf_session_t \<Rightarrow> 'w
     \<Rightarrow> (cstring + cstring) \<times> 'w" where
  "hash_body L call inp rt sess w =
     (if \<not> rt_has rt ''SKF_DigestInit'' \<or> \<not> rt_has rt ''SKF_Digest''
      then (Inl (missing_symbol ''SKF_DigestInit/SKF_Digest''), w)
      else
        let alg = (if alg_to_skf_id (call_algorithm (tc_call call)) = 0 then SGD_SM3
                   else alg_to_skf_id (call_algorithm (tc_call call)));
            (r, w) = env_call L (SKF_DigestInit (dev sess) alg) w
        in close_temp L rt (r_handle r)
             (if r_rv r \<noteq> SAR_OK then (Inl (failed_text ''SKF_Digest'' r), w)
              else invoke L ''SKF_Digest'' (On_temp (r_handle r) (SKF_Digest inp))
                (\<lambda>r. ''gm3000-hash('' @ call_algorithm (tc_call call) @ '',hex:''
                       @ bytes_to_hex (r_bytes r) (128 * 2 + 1) @ '')'') w))"

definition gm3000_hash_ops :: "'w skf_env \<Rightarrow> 'w adapter_handler" where
  "gm3000_hash_ops L d call resp esz w =
     (let resp = fill_common d call resp in
      case input_to_bytes GM3000_MAX_IO (Some (call_payload (tc_call call))) of
        None \<Rightarrow> adapter_fail esz ''invalid hash input payload'' resp w
      | Some inp \<Rightarrow> in_session L esz resp (open_base L w) (hash_body L call inp))"

subsection \<open>Files\<close>

definition file_name_from_call :: "translated_call_t \<Rightarrow> cstring" where
  "file_name_from_call call =
     (if call_key_ref (tc_call call) \<noteq> [] then call_key_ref (tc_call call)
      else call_payload (tc_call call))"

definition file_create ::
  "'w skf_env \<Rightarrow> translated_call_t \<Rightarrow> cstring \<Rightarrow> skf_runtime_t \<Rightarrow> skf_session_t \<Rightarrow> 'w \<Rightarrow> (cstring + cstring) \<times> 'w" where
  "file_create L call name rt sess =
     with_symbol rt ''SKF_CreateFile'' (\<lambda>w.
       case parse_ulong (call_payload (tc_call call)) 1024 of
         None \<Rightarrow> (Inl ''create_file payload must be file size'', w)
       | Some sz \<Rightarrow>
           invoke L ''SKF_CreateFile'' (On_app (app sess) (SKF_CreateFile name sz))
             (\<lambda>r. ''gm3000-create-file('' @ name @ '','' @ fmt_u sz @ '')'') w)"

definition file_read ::
  "'w skf_env \<Rightarrow> translated_call_t \<Rightarrow> cstring \<Rightarrow> skf_runtime_t \<Rightarrow> skf_session_t \<Rightarrow> 'w \<Rightarrow> (cstring + cstring) \<times> 'w" where
  "file_read L call name rt sess =
     with_symbol rt ''SKF_ReadFile'' (\<lambda>w.
       let bad = (Inl (''read_file payload must be length <= '' @ dec_nat GM3000_MAX_IO), w) in
       case parse_ulong (call_payload (tc_call call)) 256 of
         None \<Rightarrow> bad
       | Some want \<Rightarrow>
           if GM3000_MAX_IO < unat want then bad
           else invoke L ''SKF_ReadFile'' (On_app (app sess) (SKF_ReadFile name want))
             (\<lambda>r. ''gm3000-read-file(len='' @ dec_nat (length (r_bytes r)) @ '',hex:''
                    @ hex_result (r_bytes r) @ '')'') w)"

definition file_write ::
  "'w skf_env \<Rightarrow> translated_call_t \<Rightarrow> cstring \<Rightarrow> skf_runtime_t \<Rightarrow> skf_session_t \<Rightarrow> 'w \<Rightarrow> (cstring + cstring) \<times> 'w" where
  "file_write L call name rt sess =
     with_symbol rt ''SKF_WriteFile'' (\<lambda>w.
       case input_to_bytes GM3000_MAX_IO (Some (call_payload (tc_call call))) of
         None \<Rightarrow> (Inl ''write_file payload too large or invalid hex'', w)
       | Some bs \<Rightarrow>
           invoke L ''SKF_WriteFile'' (On_app (app sess) (SKF_WriteFile name bs))
             (\<lambda>r. ''gm3000-write-file('' @ name @ '','' @ dec_nat (length bs) @ ''-bytes)'') w)"

definition file_delete ::
  "'w skf_env \<Rightarrow> cstring \<Rightarrow> skf_runtime_t \<Rightarrow> skf_session_t \<Rightarrow> 'w \<Rightarrow> (cstring + cstring) \<times> 'w" where
  "file_delete L name rt sess =
     with_symbol rt ''SKF_DeleteFile''
       (invoke L ''SKF_DeleteFile'' (On_app (app sess) (SKF_DeleteFile name))
          (\<lambda>r. ''gm3000-delete-file('' @ name @ '')''))"

definition file_body ::
  "'w skf_env \<Rightarrow> translated_call_t \<Rightarrow> skf_runtime_t \<Rightarrow> skf_session_t \<Rightarrow> 'w \<Rightarrow> (cstring + cstring) \<times> 'w" where
  "file_body L call rt sess =
     (let name = file_name_from_call call in
      case call_action (tc_call call) of
        ACTION_CREATE_FILE \<Rightarrow> file_create L call name rt sess
      | ACTION_READ_FILE \<Rightarrow> file_read L call name rt sess
      | ACTION_WRITE_FILE \<Rightarrow> file_write L call name rt sess
      | ACTION_DELETE_FILE \<Rightarrow> file_delete L name rt sess
      | _ \<Rightarrow> (\<lambda>w. (Inl (unsupported_action ''file'' call), w)))"

definition gm3000_file_ops :: "'w skf_env \<Rightarrow> 'w adapter_handler" where
  "gm3000_file_ops L d call resp esz w =
     (let resp = fill_common d call resp in
      if file_name_from_call call = []
      then adapter_fail esz ''file operation requires key_ref as file name'' resp w
      else in_session L esz resp (open_base_app L w) (file_body L call))"

subsection \<open>Post-quantum operations\<close>

definition pqc_encap ::
  "'w skf_env \<Rightarrow> translated_call_t \<Rightarrow> skf_runtime_t \<Rightarrow> skf_session_t \<Rightarrow> 'w \<Rightarrow> (cstring + cstring) \<times> 'w" where
  "pqc_encap L call rt sess =
     with_symbol rt ''SKF_Encap_Kyber'' (\<lambda>w.
       case blob_from_hex (call_aux_payload (tc_call call)) KyberPublicKey_size of
         None \<Rightarrow> (Inl ''KEM encap requires KyberPublicKey hex in aux_payload'', w)
       | Some pub \<Rightarrow>
           invoke L ''SKF_Encap_Kyber''
             (On_device (dev sess) (SKF_Encap_Kyber (blob KyberPublicKey_size pub)))
             (\<lambda>r. ''gm3000-kem-ct(hex:'' @ hex_result (r_bytes r)
                    @ '')|ss(hex:'' @ bytes_to_hex (r_bytes2 r) (128 * 2 + 1) @ '')'') w)"

definition pqc_decap ::
  "'w skf_env \<Rightarrow> translated_call_t \<Rightarrow> byte list \<Rightarrow> skf_runtime_t \<Rightarrow> skf_session_t \<Rightarrow> 'w \<Rightarrow> (cstring + cstring) \<times> 'w" where
  "pqc_decap L call inp rt sess =
     with_symbol rt ''SKF_Decap_Kyber'' (\<lambda>w.
       case blob_from_hex (call_aux_payload (tc_call call)) KyberPrivateKey_size of
         None \<Rightarrow> (Inl ''KEM decap requires KyberPrivateKey hex in aux_payload'', w)
       | Some pri \<Rightarrow>
           invoke L ''SKF_Decap_Kyber''
             (On_device (dev sess) (SKF_Decap_Kyber inp (blob KyberPrivateKey_size pri)))
             (\<lambda>r. ''gm3000-kem-ss(hex:'' @ hex_result (r_bytes r) @ '')'') w)"

definition pqc_sign ::
  "'w skf_env \<Rightarrow> translated_call_t \<Rightarrow> byte list \<Rightarrow> skf_runtime_t \<Rightarrow> skf_session_t \<Rightarrow> 'w \<Rightarrow> (cstring + cstring) \<times> 'w" where
  "pqc_sign L call inp rt sess =
     with_symbol rt ''SKF_Sign_Dilithium'' (\<lambda>w.
       case blob_from_hex (call_aux_payload (tc_call call)) DilithiumPrivateKey_size of
         None \<Rightarrow> (Inl ''Dilithium sign requires private key hex in aux_payload'', w)
       | Some pri \<Rightarrow>
           invoke L ''SKF_Sign_Dilithium''
             (On_device (dev sess) (SKF_Sign_Dilithium inp (blob DilithiumPrivateKey_size pri)))
             (\<lambda>r. ''gm3000-pqc-sign(hex:'' @ hex_result (r_bytes r) @ '')'') w)"

definition pqc_verify ::
  "'w skf_env \<Rightarrow> translated_call_t \<Rightarrow> byte list \<Rightarrow> skf_runtime_t \<Rightarrow> skf_session_t \<Rightarrow> 'w \<Rightarrow> (cstring + cstring) \<times> 'w" where
  "pqc_verify L call inp rt sess =
     with_symbol rt ''SKF_Verify_Dilithium'' (\<lambda>w.
       case split_pair (call_aux_payload (tc_call call)) MAX_PAYLOAD_LEN MAX_PAYLOAD_LEN of
         None \<Rightarrow> (Inl ''Dilithium verify requires aux_payload pubkey_hex|signature_hex'', w)
       | Some (pub_hex, sig_hex) \<Rightarrow>
           (case (blob_from_hex pub_hex DilithiumPublicKey_size, blob_from_hex sig_hex GM3000_MAX_IO) of
              (Some pub, Some sig) \<Rightarrow>
                invoke L ''SKF_Verify_Dilithium''
                  (On_device (dev sess) (SKF_Verify_Dilithium (blob DilithiumPublicKey_size pub) inp sig))
                  (\<lambda>r. ''gm3000-pqc-verify-ok'') w
            | _ \<Rightarrow> (Inl ''invalid Dilithium public key or signature hex'', w)))"

definition pqc_body ::
  "'w skf_env \<Rightarrow> translated_call_t \<Rightarrow> byte list \<Rightarrow> skf_runtime_t \<Rightarrow> skf_session_t \<Rightarrow> 'w \<Rightarrow> (cstring + cstring) \<times> 'w" where
  "pqc_body L call inp rt sess =
     (case call_action (tc_call call) of
        ACTION_KEM_ENCAP \<Rightarrow> pqc_encap L call rt sess
      | ACTION_KEM_DECAP \<Rightarrow> pqc_decap L call inp rt sess
      | ACTION_SIGN \<Rightarrow> pqc_sign L call inp rt sess
      | ACTION_VERIFY \<Rightarrow> pqc_verify L call inp rt sess
      | _ \<Rightarrow> (\<lambda>w. (Inl (unsupported_action ''pqc'' call), w)))"

definition gm3000_pqc_ops :: "'w skf_env \<Rightarrow> 'w adapter_handler" where
  "gm3000_pqc_ops L d call resp esz w =
     (let resp = fill_common d call resp in
      case input_to_bytes GM3000_MAX_IO (Some (call_payload (tc_call call))) of
        None \<Rightarrow> adapter_fail esz ''invalid pqc input payload'' resp w
      | Some inp \<Rightarrow> in_session L esz resp (open_base L w) (pqc_body L call inp))"

subsection \<open>The adapter and its contract\<close>

definition skf_driver_ops :: "'w skf_env \<Rightarrow> 'w driver_ops_t" where
  "skf_driver_ops L = \<lparr>device_manage = Some (gm3000_device_manage L),
     key_manage = Some (gm3000_key_manage L), asym_crypto = Some (gm3000_asym_crypto L),
     sym_crypto = Some (gm3000_sym_crypto L), hash_ops = Some (gm3000_hash_ops L),
     file_ops = Some (gm3000_file_ops L), pqc_ops = Some (gm3000_pqc_ops L)\<rparr>"

text \<open>
  Every handler ends in one of two ways, whatever the library does: the response with its
  names and a result, or an error text cut to the size of \<^verbatim>\<open>errbuf\<close>.
\<close>

definition handler_outcome ::
  "nat \<Rightarrow> response_t \<Rightarrow> (cstring + unit) \<times> response_t \<times> 'w \<Rightarrow> bool" where
  "handler_outcome esz resp res \<longleftrightarrow>
     (\<exists>s w'. res = adapter_ok s resp w') \<or> (\<exists>m w'. res = (Inl (snprintf_s esz m), resp, w'))"

lemma outcome_fail [simp, intro]: "handler_outcome esz resp (adapter_fail esz m resp w)"
  by (auto simp: handler_outcome_def adapter_fail_def)

lemma outcome_in_session [simp, intro]: "handler_outcome esz resp (in_session L esz resp opened body)"
proof (cases opened)
  case (Pair a w)
  show ?thesis
    unfolding Pair in_session_def finalize_error_or_success_def Let_def
    by (auto simp: handler_outcome_def adapter_fail_def split: sum.splits)
qed

lemma outcome_handlers:
  "handler_outcome esz (fill_common d call resp) (gm3000_device_manage L d call resp esz w)"
  "handler_outcome esz (fill_common d call resp) (gm3000_key_manage L d call resp esz w)"
  "handler_outcome esz (fill_common d call resp) (gm3000_asym_crypto L d call resp esz w)"
  "handler_outcome esz (fill_common d call resp) (gm3000_sym_crypto L d call resp esz w)"
  "handler_outcome esz (fill_common d call resp) (gm3000_hash_ops L d call resp esz w)"
  "handler_outcome esz (fill_common d call resp) (gm3000_file_ops L d call resp esz w)"
  "handler_outcome esz (fill_common d call resp) (gm3000_pqc_ops L d call resp esz w)"
  by (simp_all add: gm3000_device_manage_def gm3000_key_manage_def gm3000_asym_crypto_def
      gm3000_sym_crypto_def gm3000_hash_ops_def gm3000_file_ops_def gm3000_pqc_ops_def Let_def
      split: option.split)

lemma adapter_outcomeI:
  assumes "\<And>d call resp esz w. handler_outcome esz (fill_common d call resp) (h d call resp esz w)"
  shows "adapter h"
proof unfold_locales
  fix d :: device_resource_t and call resp esz w res resp' w'
  note o = assms [of esz d call resp w, unfolded handler_outcome_def]
  show "resp_request_id resp' = resp_request_id resp \<and> resp_status resp' = resp_status resp
      \<and> resp_trace resp' = resp_trace resp" if "h d call resp esz w = (res, resp', w')"
    using o that by (auto simp: adapter_ok_def fill_common_def)
  assume a: "h d call resp esz w = (Inr (), resp', w')"
  show "resp_selected_device resp' = snprintf_s MAX_RESPONSE_LEN (device_id d)
      \<and> resp_backend_name resp' = snprintf_s MAX_RESPONSE_LEN (tc_backend_name call)
      \<and> resp_backend_call resp' = snprintf_s MAX_RESPONSE_LEN (tc_backend_call_name call)"
    using o a by (auto simp: adapter_ok_def fill_common_def)
  show "length (resp_result resp') < MAX_RESPONSE_LEN"
    using o a by (auto simp: adapter_ok_def length_snprintf_s)
next
  fix d :: device_resource_t and call resp esz w e resp' w'
  assume "h d call resp esz w = (Inl e, resp', w')"
  then show "\<exists>m. e = snprintf_s esz m"
    using assms [of esz d call resp w] by (auto simp: handler_outcome_def adapter_ok_def)
qed

interpretation gm3000: adapter_family "skf_driver_ops L" for L :: "'w skf_env"
proof (rule adapter_family.intro)
  fix dm and h :: "'w adapter_handler"
  assume "handler_for (skf_driver_ops L) dm = Some h"
  then show "adapter h"
    by (cases dm) (auto simp: skf_driver_ops_def intro!: adapter_outcomeI outcome_handlers)
qed

end
