(* ===== verification/Skf_Calls.thy ===== *)
theory Skf_Calls
  imports Skf_Handlers
begin

text \<open>
  Which functions of the library the adapter calls. \<open>operation_names\<close> specifies, for a domain,
  an action and an algorithm, the functions that do the work; every other call opens or closes
  something or presents the PIN. The rules of the translator name the same functions.
\<close>

named_theorems only "a step keeps what the calls it makes keep"

subsection \<open>Names of the calls\<close>

fun session_call :: "skf_call \<Rightarrow> bool" where
  "session_call (On_device h op) = False"
| "session_call (On_app h op) = (case op of SKF_VerifyPIN pin \<Rightarrow> True | _ \<Rightarrow> False)"
| "session_call (On_container h op) = False"
| "session_call (On_temp h op) = False"
| "session_call (SKF_SetSymmKey h key alg) = False"
| "session_call (SKF_DigestInit h alg) = False"
| "session_call _ = True"

fun device_op_name :: "skf_device_op \<Rightarrow> cstring" where
  "device_op_name SKF_GetDevInfo = ''SKF_GetDevInfo''"
| "device_op_name (SKF_GenRandom n) = ''SKF_GenRandom''"
| "device_op_name (SKF_ECCVerify pub dat sig) = ''SKF_ECCVerify''"
| "device_op_name (SKF_RSAVerify pub dat sig) = ''SKF_RSAVerify''"
| "device_op_name (SKF_ExtECCEncrypt pub dat) = ''SKF_ExtECCEncrypt''"
| "device_op_name (SKF_ExtRSAPubKeyOperation pub dat) = ''SKF_ExtRSAPubKeyOperation''"
| "device_op_name (SKF_Encap_Kyber pub) = ''SKF_Encap_Kyber''"
| "device_op_name (SKF_Decap_Kyber ct pri) = ''SKF_Decap_Kyber''"
| "device_op_name (SKF_Sign_Dilithium dat pri) = ''SKF_Sign_Dilithium''"
| "device_op_name (SKF_Verify_Dilithium pub dat sig) = ''SKF_Verify_Dilithium''"

fun app_op_name :: "skf_app_op \<Rightarrow> cstring" where
  "app_op_name (SKF_VerifyPIN pin) = ''SKF_VerifyPIN''"
| "app_op_name (SKF_DeleteContainer name) = ''SKF_DeleteContainer''"
| "app_op_name (SKF_CreateFile name n) = ''SKF_CreateFile''"
| "app_op_name (SKF_ReadFile name n) = ''SKF_ReadFile''"
| "app_op_name (SKF_WriteFile name dat) = ''SKF_WriteFile''"
| "app_op_name (SKF_DeleteFile name) = ''SKF_DeleteFile''"

fun container_op_name :: "skf_container_op \<Rightarrow> cstring" where
  "container_op_name (SKF_GenECCKeyPair alg) = ''SKF_GenECCKeyPair''"
| "container_op_name (SKF_GenRSAKeyPair bits) = ''SKF_GenRSAKeyPair''"
| "container_op_name SKF_ExportPublicKey = ''SKF_ExportPublicKey''"
| "container_op_name (SKF_ECCSignData dat) = ''SKF_ECCSignData''"
| "container_op_name (SKF_RSASignData dat) = ''SKF_RSASignData''"
| "container_op_name (SKF_ECCDecrypt alg ct) = ''SKF_ECCDecrypt''"
| "container_op_name (SKF_RSADecrypt alg ct) = ''SKF_RSADecrypt''"

fun temp_op_name :: "skf_temp_op \<Rightarrow> cstring" where
  "temp_op_name SKF_EncryptInit = ''SKF_EncryptInit''"
| "temp_op_name (SKF_Encrypt dat) = ''SKF_Encrypt''"
| "temp_op_name SKF_DecryptInit = ''SKF_DecryptInit''"
| "temp_op_name (SKF_Decrypt dat) = ''SKF_Decrypt''"
| "temp_op_name (SKF_Mac dat) = ''SKF_Mac''"
| "temp_op_name (SKF_Digest dat) = ''SKF_Digest''"

text \<open>The calls that do the work; a session call has no name here.\<close>

fun operation_name :: "skf_call \<Rightarrow> cstring" where
  "operation_name (On_device h op) = device_op_name op"
| "operation_name (On_app h op) = app_op_name op"
| "operation_name (On_container h op) = container_op_name op"
| "operation_name (On_temp h op) = temp_op_name op"
| "operation_name (SKF_SetSymmKey h key alg) = ''SKF_SetSymmKey''"
| "operation_name (SKF_DigestInit h alg) = ''SKF_DigestInit''"
| "operation_name _ = []"

subsection \<open>The specification\<close>

definition by_alg :: "cstring \<Rightarrow> cstring \<Rightarrow> cstring \<Rightarrow> cstring list" where
  "by_alg alg sm2 rsa = (if alg = ''sm2'' then [sm2] else if alg = ''rsa'' then [rsa] else [])"

definition operation_names :: "api_domain_t \<Rightarrow> api_action_t \<Rightarrow> cstring \<Rightarrow> cstring list" where
  "operation_names dm act alg =
     (case dm of
        DOMAIN_DEVICE \<Rightarrow>
          (case act of
             ACTION_GET_DEVICE_INFO \<Rightarrow> [''SKF_GetDevInfo'']
           | ACTION_GENERATE_RANDOM \<Rightarrow> [''SKF_GenRandom'']
           | _ \<Rightarrow> [])
      | DOMAIN_KEY \<Rightarrow>
          (case act of
             ACTION_GENERATE_KEY_PAIR \<Rightarrow> by_alg alg ''SKF_GenECCKeyPair'' ''SKF_GenRSAKeyPair''
           | ACTION_EXPORT_PUBLIC_KEY \<Rightarrow> [''SKF_ExportPublicKey'']
           | ACTION_IMPORT_KEY \<Rightarrow> [''SKF_SetSymmKey'']
           | ACTION_DESTROY_KEY \<Rightarrow> [''SKF_DeleteContainer'']
           | _ \<Rightarrow> [])
      | DOMAIN_ASYM \<Rightarrow>
          (case act of
             ACTION_SIGN \<Rightarrow> by_alg alg ''SKF_ECCSignData'' ''SKF_RSASignData''
           | ACTION_VERIFY \<Rightarrow> by_alg alg ''SKF_ECCVerify'' ''SKF_RSAVerify''
           | ACTION_ENCRYPT \<Rightarrow> by_alg alg ''SKF_ExtECCEncrypt'' ''SKF_ExtRSAPubKeyOperation''
           | ACTION_DECRYPT \<Rightarrow> by_alg alg ''SKF_ECCDecrypt'' ''SKF_RSADecrypt''
           | _ \<Rightarrow> [])
      | DOMAIN_SYM \<Rightarrow>
          (case act of
             ACTION_ENCRYPT \<Rightarrow> [''SKF_SetSymmKey'', ''SKF_EncryptInit'', ''SKF_Encrypt'']
           | ACTION_DECRYPT \<Rightarrow> [''SKF_SetSymmKey'', ''SKF_DecryptInit'', ''SKF_Decrypt'']
           | ACTION_MAC \<Rightarrow> [''SKF_SetSymmKey'', ''SKF_Mac'']
           | _ \<Rightarrow> [''SKF_SetSymmKey''])
      | DOMAIN_HASH \<Rightarrow> [''SKF_DigestInit'', ''SKF_Digest'']
      | DOMAIN_FILE \<Rightarrow>
          (case act of
             ACTION_CREATE_FILE \<Rightarrow> [''SKF_CreateFile'']
           | ACTION_READ_FILE \<Rightarrow> [''SKF_ReadFile'']
           | ACTION_WRITE_FILE \<Rightarrow> [''SKF_WriteFile'']
           | ACTION_DELETE_FILE \<Rightarrow> [''SKF_DeleteFile'']
           | _ \<Rightarrow> [])
      | DOMAIN_PQC \<Rightarrow>
          (case act of
             ACTION_KEM_ENCAP \<Rightarrow> [''SKF_Encap_Kyber'']
           | ACTION_KEM_DECAP \<Rightarrow> [''SKF_Decap_Kyber'']
           | ACTION_SIGN \<Rightarrow> [''SKF_Sign_Dilithium'']
           | ACTION_VERIFY \<Rightarrow> [''SKF_Verify_Dilithium'']
           | _ \<Rightarrow> [])
      | _ \<Rightarrow> [])"

text \<open>The outside stays in \<open>I\<close> through every session call and every operation whose name is in \<open>names\<close>.\<close>

definition survives :: "'w set \<Rightarrow> 'w skf_env \<Rightarrow> cstring list \<Rightarrow> bool" where
  "survives I L names \<longleftrightarrow>
     (\<forall>c w. w \<in> I \<longrightarrow> session_call c \<or> operation_name c \<in> set names \<longrightarrow> snd (env_call L c w) \<in> I)"

lemma survives_call [only]:
  "survives I L names \<Longrightarrow> session_call c \<or> operation_name c \<in> set names \<Longrightarrow> w \<in> I \<Longrightarrow> snd (env_call L c w) \<in> I"
  by (auto simp: survives_def)

lemma survives_mono: "survives I L names \<Longrightarrow> set ns \<subseteq> set names \<Longrightarrow> survives I L ns"
  by (auto simp: survives_def)

lemma only_invoke [only]:
  "survives I L names \<Longrightarrow> session_call c \<or> operation_name c \<in> set names \<Longrightarrow> w \<in> I \<Longrightarrow> snd (invoke L what c ok w) \<in> I"
  by (auto simp: invoke_def split_beta intro: survives_call)

lemma only_with_symbol [only]:
  "(\<And>w. w \<in> I \<Longrightarrow> snd (body w) \<in> I) \<Longrightarrow> w \<in> I \<Longrightarrow> snd (with_symbol rt name body w) \<in> I"
  by (simp add: with_symbol_def)

lemma only_init_and_run [only]:
  "survives I L names \<Longrightarrow> operation_name a \<in> set names \<Longrightarrow> operation_name b \<in> set names \<Longrightarrow> w \<in> I
     \<Longrightarrow> snd (init_and_run L what a b ok w) \<in> I"
  by (auto simp: init_and_run_def split_beta intro!: only)

text \<open>Opening and closing make session calls only.\<close>

lemma only_open_runtime [only]: "survives I L names \<Longrightarrow> w \<in> I \<Longrightarrow> snd (open_runtime L w) \<in> I"
  by (auto simp: open_runtime_def split_beta Let_def split: sum.split intro!: only)

lemma only_close_runtime [only]: "survives I L names \<Longrightarrow> w \<in> I \<Longrightarrow> close_runtime L rt w \<in> I"
  by (auto simp: close_runtime_def intro!: only)

lemma only_open_device [only]: "survives I L names \<Longrightarrow> w \<in> I \<Longrightarrow> snd (open_device L w) \<in> I"
  by (auto simp: open_device_def enum_first_device_def split_beta Let_def split: sum.split option.split intro!: only)

lemma only_open_app [only]: "survives I L names \<Longrightarrow> w \<in> I \<Longrightarrow> snd (snd (open_app L rt sess w)) \<in> I"
  by (auto simp: open_app_def split_beta Let_def split: option.split intro!: only)

lemma only_open_container [only]: "survives I L names \<Longrightarrow> w \<in> I \<Longrightarrow> snd (snd (open_container L rt sess call w)) \<in> I"
  by (auto simp: open_container_def split_beta Let_def intro!: only)

lemma only_verify_pin [only]: "survives I L names \<Longrightarrow> w \<in> I \<Longrightarrow> snd (verify_pin L sess pin ok w) \<in> I"
  by (auto simp: verify_pin_def split_beta intro!: only)

lemma only_verify_pin_if_set [only]: "survives I L names \<Longrightarrow> w \<in> I \<Longrightarrow> snd (verify_pin_if_set L rt sess w) \<in> I"
  by (auto simp: verify_pin_if_set_def split: option.split intro!: only)

lemma only_close_one [only]: "survives I L names \<Longrightarrow> session_call c \<Longrightarrow> w \<in> I \<Longrightarrow> close_one L has h c w \<in> I"
  by (auto simp: close_one_def intro!: only)

lemma only_close_all [only]: "survives I L names \<Longrightarrow> w \<in> I \<Longrightarrow> close_all L rt sess w \<in> I"
  by (auto simp: close_all_def close_session_def Let_def intro!: only)

lemma only_open_base [only]: "survives I L names \<Longrightarrow> w \<in> I \<Longrightarrow> snd (open_base L w) \<in> I"
  using only_open_runtime [of I L names w] only_open_device [of I L names] only_close_runtime [of I L names]
  by (auto simp: open_base_def split: prod.split sum.split) (metis snd_conv)+

lemma only_open_base_app [only]:
  assumes "survives I L names" and "w \<in> I"
  shows "snd (open_base_app L w) \<in> I"
proof -
  obtain res v where b: "open_base L w = (res, v)" by (cases "open_base L w")
  then have v: "v \<in> I" using only_open_base [OF assms] by simp
  show ?thesis
    using only_open_app [OF assms(1) v] only_close_all [OF assms(1)]
    by (auto simp: open_base_app_def b v split: prod.split sum.split) (metis snd_conv)+
qed

lemma only_open_app_container [only]:
  assumes "survives I L names" and "w \<in> I"
  shows "snd (open_app_container L call want w) \<in> I"
proof -
  note open_steps = only_open_app [OF assms(1)] only_open_container [OF assms(1)]
    only_verify_pin_if_set [OF assms(1)] and closed = only_close_all [OF assms(1)]
  obtain res v where b: "open_base L w = (res, v)" by (cases "open_base L w")
  then have v: "v \<in> I" using only_open_base [OF assms] by simp
  show ?thesis
  proof (cases res)
    case (Inl e)
    with b v show ?thesis by (simp add: open_app_container_def)
  next
    case (Inr rs)
    obtain rt sess where rs: "rs = (rt, sess)" by (cases rs)
    obtain r1 s1 w1 where a: "open_app L rt sess v = (r1, s1, w1)" by (cases "open_app L rt sess v") auto
    then have w1: "w1 \<in> I" using open_steps(1) [OF v, of rt sess] by simp
    obtain r2 w2 where p: "(if want then verify_pin_if_set L rt s1 w1 else (Inr (), w1)) = (r2, w2)"
      by (cases "if want then verify_pin_if_set L rt s1 w1 else (Inr (), w1)")
    then have w2: "w2 \<in> I" using open_steps(3) [OF w1, of rt s1] w1 by (auto split: if_splits)
    obtain r3 s3 w3 where c: "open_container L rt s1 call w2 = (r3, s3, w3)"
      by (cases "open_container L rt s1 call w2") auto
    then have w3: "w3 \<in> I" using open_steps(2) [OF w2, of rt s1 call] by simp
    show ?thesis
      unfolding open_app_container_def b Inr rs
      using closed [OF w1] closed [OF w2] closed [OF w3] w3
      by (simp add: a p c split: sum.split)
  qed
qed

subsection \<open>The handlers\<close>

lemma only_in_session [only]:
  assumes "survives I L names" and "snd start \<in> I"
    and "\<And>rt sess w. w \<in> I \<Longrightarrow> snd (body rt sess w) \<in> I"
  shows "snd (snd (in_session L esz resp start body)) \<in> I"
proof (cases start)
  case (Pair a w)
  with assms(2) have w: "w \<in> I" by simp
  show ?thesis
    using only_close_all [OF assms(1) assms(3) [OF w]] w
    by (auto simp: Pair in_session_def finalize_error_or_success_def adapter_fail_def adapter_ok_def Let_def
        split: sum.split)
qed

lemma only_device_body [only]:
  assumes "survives I L (operation_names DOMAIN_DEVICE (call_action (tc_call call)) alg)" and "w \<in> I"
  shows "snd (device_body L call rt sess w) \<in> I"
  using assms by (auto simp: device_body_def operation_names_def intro!: only split: option.split)

lemma only_key_body [only]:
  assumes "survives I L (operation_names DOMAIN_KEY (call_action (tc_call call)) (call_algorithm (tc_call call)))"
    and "w \<in> I"
  shows "snd (key_body L call rt sess w) \<in> I"
proof -
  have imported: "snd (key_import L rt sess call w) \<in> I" if "survives I L [''SKF_SetSymmKey'']"
    using that assms(2) by (auto simp: key_import_def Let_def split_beta intro!: only split: option.split)
  show ?thesis
    using assms imported
    by (cases "call_action (tc_call call)")
      (auto simp: key_body_def operation_names_def by_alg_def key_access_def key_generate_pair_def key_export_def
        key_destroy_def Let_def intro!: only split: option.split)
qed

lemma only_asym_body [only]:
  assumes "survives I L (operation_names DOMAIN_ASYM (call_action (tc_call call)) (call_algorithm (tc_call call)))"
    and "w \<in> I"
  shows "snd (asym_body L call inp rt sess w) \<in> I"
  using assms by (auto simp: asym_body_def operation_names_def by_alg_def asym_sign_def asym_verify_def
      asym_encrypt_def asym_decrypt_def Let_def intro!: only split: option.split)

lemma only_close_temp [only]: "survives I L names \<Longrightarrow> snd rw \<in> I \<Longrightarrow> snd (close_temp L rt h rw) \<in> I"
  by (auto simp: close_temp_def intro!: only)

lemma only_sym_body [only]:
  assumes "survives I L (operation_names DOMAIN_SYM (call_action (tc_call call)) alg)" and "w \<in> I"
  shows "snd (sym_body L call key inp rt sess w) \<in> I"
proof -
  let ?names = "operation_names DOMAIN_SYM (call_action (tc_call call)) alg"
  have set: "''SKF_SetSymmKey'' \<in> set ?names" by (simp add: operation_names_def split: api_action_t.split)
  have op: "snd (sym_operation L call inp rt h v) \<in> I" if "v \<in> I" for h v
    using assms(1) that by (auto simp: sym_operation_def operation_names_def intro!: only)
  show ?thesis
    unfolding sym_body_def Let_def split_beta
    by (intro only_with_symbol [OF _ assms(2)] only_close_temp [OF assms(1)])
      (auto intro!: op survives_call [OF assms(1)] simp: set)
qed

lemma only_hash_body [only]:
  assumes "survives I L (operation_names DOMAIN_HASH act alg)" and "w \<in> I"
  shows "snd (hash_body L call inp rt sess w) \<in> I"
  using assms by (auto simp: hash_body_def operation_names_def Let_def split_beta intro!: only)

lemma only_file_body [only]:
  assumes "survives I L (operation_names DOMAIN_FILE (call_action (tc_call call)) alg)" and "w \<in> I"
  shows "snd (file_body L call rt sess w) \<in> I"
  using assms
  by (cases "call_action (tc_call call)")
    (auto simp: file_body_def operation_names_def file_create_def file_read_def file_write_def file_delete_def Let_def
      intro!: only split: option.split)

lemma only_pqc_body [only]:
  assumes "survives I L (operation_names DOMAIN_PQC (call_action (tc_call call)) alg)" and "w \<in> I"
  shows "snd (pqc_body L call inp rt sess w) \<in> I"
  using assms
  by (cases "call_action (tc_call call)")
    (auto simp: pqc_body_def operation_names_def pqc_encap_def pqc_decap_def pqc_sign_def pqc_verify_def
      intro!: only split: option.split)

lemma only_dispatch:
  assumes "survives I L (operation_names dm (call_action (tc_call call)) (call_algorithm (tc_call call)))"
    and "w \<in> I"
  shows "snd (snd (driver_dispatch (skf_driver_ops L) dm d call resp esz w)) \<in> I"
  using assms
  by (cases dm) (auto simp: driver_dispatch_def skf_driver_ops_def gm3000_device_manage_def gm3000_key_manage_def
      gm3000_asym_crypto_def gm3000_sym_crypto_def gm3000_hash_ops_def gm3000_file_ops_def gm3000_pqc_ops_def
      adapter_fail_def Let_def intro: only split: option.split)

subsection \<open>The rules of the translator\<close>

text \<open>The functions a rule stands for when it names one of them.\<close>

definition named_functions :: "cstring \<Rightarrow> cstring list" where
  "named_functions name =
     (if name = ''SKF_Encrypt'' then [''SKF_SetSymmKey'', ''SKF_EncryptInit'', name]
      else if name = ''SKF_Decrypt'' then [''SKF_SetSymmKey'', ''SKF_DecryptInit'', name]
      else if name = ''SKF_Mac'' then [''SKF_SetSymmKey'', name]
      else if name = ''SKF_Digest'' then [''SKF_DigestInit'', name]
      else [name])"

definition rule_named :: "translation_rule_t \<Rightarrow> bool" where
  "rule_named r \<longleftrightarrow> length (rule_algorithm r) < MAX_FIELD_LEN \<and> length (rule_backend_call r) < MAX_FIELD_LEN
     \<and> (\<forall>alg. rule_algorithm r = alg \<or> rule_algorithm r = ''auto'' \<longrightarrow>
          set (operation_names (rule_domain r) (rule_action r) alg) \<subseteq> set (named_functions (rule_backend_call r)))"

lemma g_rules_named: "list_all (\<lambda>r. rule_backend_profile r = ''gm3000-skf'' \<longrightarrow> rule_named r) g_rules"
  by (simp add: g_rules_def rule_def rule_named_def MAX_FIELD_LEN_def operation_names_def named_functions_def by_alg_def)

text \<open>
  Property C24. The rule table and the GM3000 adapter agree on what is done: a call that has
  been translated for a GM3000 device makes no calls of the library but those that open,
  close and present the PIN, and the function the rule names (with the setting of the key and
  the initialisation that belong to an encryption, a decryption, a MAC or a digest). Stated for
  any set of outside states such calls do not leave.
\<close>

theorem adapter_calls_what_the_rule_names:
  assumes "translate_backend_call dm act alg payload aux key_ref d tsz = Inr t"
    and "backend_profile d = ''gm3000-skf''"
    and "survives I L (named_functions (tc_backend_call_name t))" and "w \<in> I"
  shows "snd (snd (driver_dispatch (skf_driver_ops L) dm d t resp esz w)) \<in> I"
proof -
  from translate_Inr [OF assms(1)] obtain r where r: "r \<in> set g_rules" "rule_matches d dm act alg r"
      "tc_backend_call_name t = snprintf_s MAX_FIELD_LEN (rule_backend_call r)"
    and c: "call_action (tc_call t) = act" "call_algorithm (tc_call t) = snprintf_s MAX_FIELD_LEN alg"
    by (metis backend_call_t.select_convs(2,3))
  have n: "rule_named r" using g_rules_named r(1,2) assms(2) by (auto simp: list_all_iff rule_matches_iff)
  have "rule_algorithm r = snprintf_s MAX_FIELD_LEN alg \<or> rule_algorithm r = ''auto''"
    using n r(2) by (auto simp: rule_named_def rule_matches_iff)
  with n r(2,3) c have "set (operation_names dm (call_action (tc_call t)) (call_algorithm (tc_call t)))
      \<subseteq> set (named_functions (tc_backend_call_name t))"
    by (auto simp: rule_named_def rule_matches_iff)
  from only_dispatch [OF survives_mono [OF assms(3) this] assms(4)] show ?thesis .
qed

text \<open>A library that always succeeds and whose state is the list of the calls made.\<close>

definition recording_skf :: "skf_call list skf_env" where
  "recording_skf = \<lparr>env_call = (\<lambda>c w. (\<lparr>r_rv = 0, r_handle = 1, r_bytes = [7], r_bytes2 = [], r_count = 1,
       r_text1 = ''x'', r_text2 = [], r_text3 = []\<rparr>, w @ [c])), env_get = (\<lambda>name. Some ''1''),
     env_symbol = (\<lambda>name. True), env_dlerror = (\<lambda>name. None), env_calloc = (\<lambda>n. True), env_errbuf = []\<rparr>"

theorem adapter_calls_what_the_rule_names_witness:
  "\<exists>t. translate_backend_call DOMAIN_HASH ACTION_HASH ''sm3'' (Some ''x'') None None
      (sample_device ''d'' 1 \<lparr> backend_profile := ''gm3000-skf'' \<rparr>) 256 = Inr t
    \<and> list_all (\<lambda>c. session_call c \<or> operation_name c \<in> {''SKF_DigestInit'', ''SKF_Digest''})
        (snd (snd (driver_dispatch (skf_driver_ops recording_skf) DOMAIN_HASH
          (sample_device ''d'' 1 \<lparr> backend_profile := ''gm3000-skf'' \<rparr>) t zero_response 256 [])))"
proof -
  let ?d = "sample_device ''d'' 1 \<lparr> backend_profile := ''gm3000-skf'' \<rparr>"
  let ?r = "rule ''gm3000-skf'' DEV_CLASSIC DOMAIN_HASH ACTION_HASH ''sm3'' ''SKF_Digest''"
  let ?I = "{w. list_all (\<lambda>c. session_call c \<or> operation_name c \<in> {''SKF_DigestInit'', ''SKF_Digest''}) w}"
  have r: "?r \<in> set g_rules" "rule_matches ?d DOMAIN_HASH ACTION_HASH ''sm3'' ?r"
    by (simp add: g_rules_def) (simp add: rule_matches_iff rule_def sample_device_def)
  obtain t where t: "translate_backend_call DOMAIN_HASH ACTION_HASH ''sm3'' (Some ''x'') None None ?d 256 = Inr t"
    using r find_rule_None [of ?d DOMAIN_HASH ACTION_HASH "''sm3''"]
    by (auto simp: translate_backend_call_def Let_def split: option.splits)
  from translate_Inr [OF t] obtain r' where r': "r' \<in> set g_rules" "rule_matches ?d DOMAIN_HASH ACTION_HASH ''sm3'' r'"
      "tc_backend_call_name t = snprintf_s MAX_FIELD_LEN (rule_backend_call r')" .
  have "r' = ?r" using rule_unique [OF r'(1) r(1) r'(2) r(2)] .
  then have "tc_backend_call_name t = ''SKF_Digest''" using r'(3) by (simp add: rule_def MAX_FIELD_LEN_def)
  then have "survives ?I recording_skf (named_functions (tc_backend_call_name t))"
    by (simp add: survives_def recording_skf_def named_functions_def)
  from adapter_calls_what_the_rule_names [OF t _ this, of "[]"] t show ?thesis by simp
qed

end
