(* ===== verification/Skf_Success.thy ===== *)
theory Skf_Success
  imports Skf_Calls
begin

text \<open>
  What a successful answer of the GM3000 adapter means: the function of the library that the
  rule names has been called and has returned \<^verbatim>\<open>SAR_OK\<close>. As in \<open>Skf_Calls\<close> this is stated with a set
  of outside states: here one that such a call enters and no call leaves.
\<close>

named_theorems ends "a step that succeeds has made the call"

subsection \<open>States after the call\<close>

definition marks :: "'w set \<Rightarrow> 'w skf_env \<Rightarrow> cstring \<Rightarrow> bool" where
  "marks G L name \<longleftrightarrow> (\<forall>c w.
     (w \<in> G \<longrightarrow> snd (env_call L c w) \<in> G)
     \<and> (operation_name c = name \<and> r_rv (fst (env_call L c w)) = SAR_OK \<longrightarrow> snd (env_call L c w) \<in> G))"

definition ends_in :: "'w set \<Rightarrow> (cstring + 'a) \<times> 'w \<Rightarrow> bool" where
  "ends_in G rw \<longleftrightarrow> isl (fst rw) \<or> snd rw \<in> G"

lemma marks_survives: "marks G L name \<Longrightarrow> survives G L names"
  by (simp add: marks_def survives_def)

lemma ends_fail [ends]: "ends_in G (Inl e, w)"
  by (simp add: ends_in_def)

lemma ends_invoke [ends]: "marks G L name \<Longrightarrow> operation_name c = name \<Longrightarrow> ends_in G (invoke L what c ok w)"
  by (simp add: ends_in_def invoke_def split_beta marks_def)

lemma ends_with_symbol [ends]: "(\<And>w. ends_in G (body w)) \<Longrightarrow> ends_in G (with_symbol rt name body w)"
  by (simp add: with_symbol_def ends_fail)

lemma ends_init_and_run [ends]:
  "marks G L name \<Longrightarrow> operation_name b = name \<Longrightarrow> ends_in G (init_and_run L what a b ok w)"
  by (simp add: init_and_run_def split_beta ends)

lemma ends_verify_pin [ends]: "marks G L ''SKF_VerifyPIN'' \<Longrightarrow> ends_in G (verify_pin L sess pin ok w)"
  by (simp add: ends_in_def verify_pin_def split_beta marks_def)

lemma ends_close_one:
  assumes "marks G L name"
  shows "w \<in> G \<Longrightarrow> close_one L has h c w \<in> G"
  using assms by (simp add: close_one_def marks_def)

lemma ends_close_temp [ends]: "marks G L name \<Longrightarrow> ends_in G rw \<Longrightarrow> ends_in G (close_temp L rt h rw)"
  by (auto simp: ends_in_def close_temp_def intro: ends_close_one)

subsection \<open>The handlers\<close>

text \<open>The function whose success is the success of the request; \<open>None\<close> when the adapter serves none.\<close>

definition primary_name :: "api_domain_t \<Rightarrow> api_action_t \<Rightarrow> cstring \<Rightarrow> cstring option" where
  "primary_name dm act alg =
     (if dm = DOMAIN_KEY \<and> act = ACTION_GET_PRIVATE_KEY_ACCESS then Some ''SKF_VerifyPIN''
      else if operation_names dm act alg = [] then None
      else Some (last (operation_names dm act alg)))"

definition marks_primary :: "'w set \<Rightarrow> 'w skf_env \<Rightarrow> api_domain_t \<Rightarrow> api_action_t \<Rightarrow> cstring \<Rightarrow> bool" where
  "marks_primary G L dm act alg \<longleftrightarrow> (\<forall>name. primary_name dm act alg = Some name \<longrightarrow> marks G L name)"

lemma ends_in_session:
  assumes "in_session L esz resp start body = (Inr (), resp', w')"
    and "\<And>rt sess w. ends_in G (body rt sess w)" and "\<And>names. survives G L names"
  shows "w' \<in> G"
proof -
  obtain rt sess w s where b: "fst (body rt sess w) = Inr s" "w' = close_all L rt sess (snd (body rt sess w))"
    using assms(1) by (auto simp: in_session_def finalize_error_or_success_def adapter_fail_def adapter_ok_def Let_def
        split: prod.splits sum.splits)
  have "snd (body rt sess w) \<in> G" using assms(2) [of rt sess w] b(1) by (simp add: ends_in_def)
  then show ?thesis using only_close_all [OF assms(3)] b(2) by simp
qed

lemma ends_device_body:
  assumes "marks_primary G L DOMAIN_DEVICE (call_action (tc_call call)) alg"
  shows "ends_in G (device_body L call rt sess w)"
  using assms by (auto simp: device_body_def marks_primary_def primary_name_def operation_names_def
      intro!: ends split: option.split)

lemma ends_key_body:
  assumes "marks_primary G L DOMAIN_KEY (call_action (tc_call call)) (call_algorithm (tc_call call))"
    and "call_action (tc_call call) \<noteq> ACTION_RELEASE_PRIVATE_KEY_ACCESS"
  shows "ends_in G (key_body L call rt sess w)"
proof -
  have imported: "ends_in G (key_import L rt sess call w)" if m: "marks G L ''SKF_SetSymmKey''"
  proof -
    have "snd (env_call L (SKF_SetSymmKey h k a) v) \<in> G"
      if "r_rv (fst (env_call L (SKF_SetSymmKey h k a) v)) = SAR_OK" for h k a v
      using m that by (simp add: marks_def)
    then show ?thesis
      by (auto simp: key_import_def Let_def split_beta ends_in_def intro!: ends_with_symbol [unfolded ends_in_def]
          ends_close_one [OF m] split: option.split)
  qed
  show ?thesis
    using assms imported
    by (cases "call_action (tc_call call)")
      (auto simp: key_body_def marks_primary_def primary_name_def operation_names_def by_alg_def key_access_def
        key_generate_pair_def key_export_def key_destroy_def Let_def intro!: ends split: option.split if_splits)
qed

lemma ends_asym_body:
  assumes "marks_primary G L DOMAIN_ASYM (call_action (tc_call call)) (call_algorithm (tc_call call))"
  shows "ends_in G (asym_body L call inp rt sess w)"
  using assms by (auto simp: asym_body_def marks_primary_def primary_name_def operation_names_def by_alg_def
      asym_sign_def asym_verify_def asym_encrypt_def asym_decrypt_def Let_def
      intro!: ends split: option.split)

lemma ends_sym_body:
  assumes "marks_primary G L DOMAIN_SYM (call_action (tc_call call)) alg"
  shows "ends_in G (sym_body L call key inp rt sess w)"
proof -
  have op: "ends_in G (sym_operation L call inp rt h v)" for h v
    using assms by (auto simp: sym_operation_def marks_primary_def primary_name_def operation_names_def intro!: ends)
  obtain name where "marks G L name"
    using assms by (cases "primary_name DOMAIN_SYM (call_action (tc_call call)) alg")
      (auto simp: marks_primary_def primary_name_def operation_names_def split: api_action_t.splits if_splits)
  then show ?thesis unfolding sym_body_def Let_def split_beta by (auto intro!: ends op)
qed

lemma ends_hash_body:
  assumes "marks_primary G L DOMAIN_HASH act alg"
  shows "ends_in G (hash_body L call inp rt sess w)"
  using assms by (auto simp: hash_body_def marks_primary_def primary_name_def operation_names_def Let_def split_beta
      intro!: ends)

lemma ends_file_body:
  assumes "marks_primary G L DOMAIN_FILE (call_action (tc_call call)) alg"
  shows "ends_in G (file_body L call rt sess w)"
  using assms
  by (cases "call_action (tc_call call)")
    (auto simp: file_body_def marks_primary_def primary_name_def operation_names_def file_create_def file_read_def
      file_write_def file_delete_def Let_def intro!: ends split: option.split)

lemma ends_pqc_body:
  assumes "marks_primary G L DOMAIN_PQC (call_action (tc_call call)) alg"
  shows "ends_in G (pqc_body L call inp rt sess w)"
  using assms
  by (cases "call_action (tc_call call)")
    (auto simp: pqc_body_def marks_primary_def primary_name_def operation_names_def pqc_encap_def pqc_decap_def
      pqc_sign_def pqc_verify_def intro!: ends split: option.split)

lemma ends_dispatch:
  assumes "marks_primary G L dm (call_action (tc_call call)) (call_algorithm (tc_call call))"
    and "\<And>names. survives G L names"
    and "\<not> (dm = DOMAIN_KEY \<and> call_action (tc_call call) = ACTION_RELEASE_PRIVATE_KEY_ACCESS)"
    and "driver_dispatch (skf_driver_ops L) dm d call resp esz w = (Inr (), resp', w')"
  shows "w' \<in> G"
proof -
  note fin = ends_in_session [OF _ _ assms(2)]
  show ?thesis
  proof (cases dm)
    case DOMAIN_DEVICE
    with assms fin [OF _ ends_device_body] show ?thesis
      by (simp add: driver_dispatch_def skf_driver_ops_def gm3000_device_manage_def)
  next
    case DOMAIN_KEY
    with assms fin [OF _ ends_key_body] show ?thesis
      by (simp add: driver_dispatch_def skf_driver_ops_def gm3000_key_manage_def)
  next
    case DOMAIN_ASYM
    with assms fin [OF _ ends_asym_body] show ?thesis
      by (auto simp: driver_dispatch_def skf_driver_ops_def gm3000_asym_crypto_def adapter_fail_def Let_def
          split: option.splits)
  next
    case DOMAIN_SYM
    with assms fin [OF _ ends_sym_body] show ?thesis
      by (auto simp: driver_dispatch_def skf_driver_ops_def gm3000_sym_crypto_def adapter_fail_def Let_def
          split: option.splits if_splits)
  next
    case DOMAIN_HASH
    with assms fin [OF _ ends_hash_body] show ?thesis
      by (auto simp: driver_dispatch_def skf_driver_ops_def gm3000_hash_ops_def adapter_fail_def Let_def
          split: option.splits)
  next
    case DOMAIN_FILE
    with assms fin [OF _ ends_file_body] show ?thesis
      by (auto simp: driver_dispatch_def skf_driver_ops_def gm3000_file_ops_def adapter_fail_def Let_def
          split: if_splits)
  next
    case DOMAIN_PQC
    with assms fin [OF _ ends_pqc_body] show ?thesis
      by (auto simp: driver_dispatch_def skf_driver_ops_def gm3000_pqc_ops_def adapter_fail_def Let_def
          split: option.splits)
  qed (use assms(4) in \<open>simp_all add: driver_dispatch_def\<close>)
qed

subsection \<open>The rules of the translator\<close>

definition rule_primary :: "translation_rule_t \<Rightarrow> bool" where
  "rule_primary r \<longleftrightarrow> (\<forall>alg. rule_algorithm r = alg \<or> rule_algorithm r = ''auto'' \<longrightarrow>
     primary_name (rule_domain r) (rule_action r) alg \<in> {None, Some (rule_backend_call r)})"

lemma g_rules_primary: "list_all (\<lambda>r. rule_backend_profile r = ''gm3000-skf'' \<longrightarrow> rule_primary r) g_rules"
  by (simp add: g_rules_def rule_def rule_primary_def primary_name_def operation_names_def by_alg_def)

text \<open>The rule for the release of a key access.\<close>

lemma g_rules_release: "list_all (\<lambda>r. rule_backend_profile r = ''gm3000-skf'' \<and> rule_domain r = DOMAIN_KEY
    \<and> rule_action r = ACTION_RELEASE_PRIVATE_KEY_ACCESS \<longrightarrow> rule_backend_call r = ''SKF_ClearSecureState'') g_rules"
  by (simp add: g_rules_def rule_def)

text \<open>
  Property C9. A success of the GM3000 adapter is a success of the device, except for the
  release of a key access. When a translated call is answered without an error, the function
  that the rule names has been called and has returned \<^verbatim>\<open>SAR_OK\<close>, so a signature that is
  reported as verified has been verified by the token; this is stated for any set \<open>G\<close> of outside
  states that such a call enters and no call leaves. For the release of a key access the rule
  names \<^verbatim>\<open>SKF_ClearSecureState\<close>, and the success is reported without that call: nothing is called
  but what opens and closes the session, so the outside stays in any set \<open>I\<close> these calls keep.
\<close>

theorem adapter_success_is_the_call:
  assumes "translate_backend_call dm act alg payload aux key_ref d tsz = Inr t"
    and "backend_profile d = ''gm3000-skf''"
    and "driver_dispatch (skf_driver_ops L) dm d t resp esz w = (Inr (), resp', w')"
  shows "if dm = DOMAIN_KEY \<and> act = ACTION_RELEASE_PRIVATE_KEY_ACCESS
    then tc_backend_call_name t = ''SKF_ClearSecureState'' \<and> (survives I L [] \<and> w \<in> I \<longrightarrow> w' \<in> I)
    else marks G L (tc_backend_call_name t) \<longrightarrow> w' \<in> G"
proof -
  from translate_Inr [OF assms(1)] obtain r where r: "r \<in> set g_rules" "rule_matches d dm act alg r"
      "tc_backend_call_name t = snprintf_s MAX_FIELD_LEN (rule_backend_call r)"
    and c: "call_action (tc_call t) = act" "call_algorithm (tc_call t) = snprintf_s MAX_FIELD_LEN alg"
    by (metis backend_call_t.select_convs(2,3))
  have n: "rule_named r" "rule_primary r"
    using g_rules_named g_rules_primary r(1,2) assms(2) by (auto simp: list_all_iff rule_matches_iff)
  have name: "tc_backend_call_name t = rule_backend_call r" using n(1) r(3) by (simp add: rule_named_def)
  have "rule_algorithm r = snprintf_s MAX_FIELD_LEN alg \<or> rule_algorithm r = ''auto''"
    using n(1) r(2) by (auto simp: rule_named_def rule_matches_iff)
  then have p: "primary_name dm act (snprintf_s MAX_FIELD_LEN alg) \<in> {None, Some (rule_backend_call r)}"
    using n(2) r(2) by (auto simp: rule_primary_def rule_matches_iff)
  show ?thesis
  proof (cases "dm = DOMAIN_KEY \<and> act = ACTION_RELEASE_PRIVATE_KEY_ACCESS")
    case True
    have "tc_backend_call_name t = ''SKF_ClearSecureState''"
      using g_rules_release r(1,2) assms(2) name True by (auto simp: list_all_iff rule_matches_iff)
    moreover have "operation_names dm (call_action (tc_call t)) (call_algorithm (tc_call t)) = []"
      using True c(1) by (simp add: operation_names_def)
    then have "w' \<in> I" if "survives I L []" "w \<in> I"
      using only_dispatch [of I L dm t w d resp esz] that assms(3) by simp
    ultimately show ?thesis using True by simp
  next
    case False
    have "w' \<in> G" if m: "marks G L (tc_backend_call_name t)"
    proof -
      have "marks_primary G L dm (call_action (tc_call t)) (call_algorithm (tc_call t))"
        using m c p name by (auto simp: marks_primary_def)
      from ends_dispatch [OF this marks_survives [OF m] _ assms(3)] False c(1) show ?thesis by simp
    qed
    with False show ?thesis by auto
  qed
qed

lemma sample_success:
  assumes "case translate_backend_call dm act alg payload None None d 256 of
      Inl e \<Rightarrow> False
    | Inr t \<Rightarrow> tc_backend_call_name t = name
        \<and> \<not> isl (fst (driver_dispatch (skf_driver_ops recording_skf) dm d t zero_response 256 []))"
  obtains t resp' w' where "translate_backend_call dm act alg payload None None d 256 = Inr t"
    "tc_backend_call_name t = name"
    "driver_dispatch (skf_driver_ops recording_skf) dm d t zero_response 256 [] = (Inr (), resp', w')"
proof -
  obtain t where t: "translate_backend_call dm act alg payload None None d 256 = Inr t" "tc_backend_call_name t = name"
    "\<not> isl (fst (driver_dispatch (skf_driver_ops recording_skf) dm d t zero_response 256 []))"
    using assms by (auto split: sum.splits)
  obtain r resp' w' where r: "driver_dispatch (skf_driver_ops recording_skf) dm d t zero_response 256 [] = (r, resp', w')"
    by (metis surj_pair)
  with t(3) have "r = Inr ()" by (cases r) auto
  with that t r show thesis by blast
qed

theorem adapter_success_is_the_call_witness:
  "(\<exists>t resp' w'. driver_dispatch (skf_driver_ops recording_skf) DOMAIN_HASH
      (sample_device ''d'' 1 \<lparr> backend_profile := ''gm3000-skf'' \<rparr>) t zero_response 256 [] = (Inr (), resp', w')
    \<and> list_ex (\<lambda>c. operation_name c = ''SKF_Digest'') w')
  \<and> (\<exists>t resp' w'. driver_dispatch (skf_driver_ops recording_skf) DOMAIN_KEY
      (sample_device ''d'' 1 \<lparr> backend_profile := ''gm3000-skf'' \<rparr>) t zero_response 256 [] = (Inr (), resp', w')
    \<and> tc_backend_call_name t = ''SKF_ClearSecureState'' \<and> list_all session_call w')"
proof
  let ?d = "sample_device ''d'' 1 \<lparr> backend_profile := ''gm3000-skf'' \<rparr>"
  let ?G = "{w. list_ex (\<lambda>c. operation_name c = ''SKF_Digest'') w}"
  let ?I = "{w. list_all session_call w}"
  show "\<exists>t resp' w'. driver_dispatch (skf_driver_ops recording_skf) DOMAIN_HASH ?d t zero_response 256 [] = (Inr (), resp', w')
      \<and> list_ex (\<lambda>c. operation_name c = ''SKF_Digest'') w'"
  proof (rule sample_success [where dm = DOMAIN_HASH and act = ACTION_HASH and alg = "''sm3''"
      and payload = "Some ''x''" and d = ?d and name = "''SKF_Digest''"])
    fix t resp' w'
    assume t: "translate_backend_call DOMAIN_HASH ACTION_HASH ''sm3'' (Some ''x'') None None ?d 256 = Inr t"
      "tc_backend_call_name t = ''SKF_Digest''"
      "driver_dispatch (skf_driver_ops recording_skf) DOMAIN_HASH ?d t zero_response 256 [] = (Inr (), resp', w')"
    have "marks ?G recording_skf (tc_backend_call_name t)"
      by (simp add: marks_def recording_skf_def t(2))
    with adapter_success_is_the_call [OF t(1) _ t(3), of "{}" ?G] t(3) show ?thesis by auto
  qed code_simp
  show "\<exists>t resp' w'. driver_dispatch (skf_driver_ops recording_skf) DOMAIN_KEY ?d t zero_response 256 [] = (Inr (), resp', w')
      \<and> tc_backend_call_name t = ''SKF_ClearSecureState'' \<and> list_all session_call w'"
  proof (rule sample_success [where dm = DOMAIN_KEY and act = ACTION_RELEASE_PRIVATE_KEY_ACCESS and alg = "''sm2''"
      and payload = "Some ''x''" and d = ?d and name = "''SKF_ClearSecureState''"])
    fix t resp' w'
    assume t: "translate_backend_call DOMAIN_KEY ACTION_RELEASE_PRIVATE_KEY_ACCESS ''sm2'' (Some ''x'') None None ?d 256 = Inr t"
      "tc_backend_call_name t = ''SKF_ClearSecureState''"
      "driver_dispatch (skf_driver_ops recording_skf) DOMAIN_KEY ?d t zero_response 256 [] = (Inr (), resp', w')"
    have "survives ?I recording_skf []" by (simp add: survives_def recording_skf_def)
    with adapter_success_is_the_call [OF t(1) _ t(3), of ?I "{}"] t(2,3) show ?thesis by auto
  qed code_simp
qed

end
