(* ===== verification/Skf_Session.thy ===== *)
theory Skf_Session
  imports Skf_Handlers
begin

text \<open>
  The order in which the adapter calls the library. A monitor follows the handles the library
  has given out: a call that breaks the order (a handle that is not open, a second open, a
  close under an open child, a container before the PIN) leaves it in \<open>None\<close> for good. The
  lemmas show that the opening functions, every body and the closing functions keep the
  monitor in step with the session; the properties are that a handler leaves nothing open, and
  what happens when a library lacks a required function.
\<close>

subsection \<open>The monitor\<close>

record skf_monitor =
  m_lib :: skf_handle
  m_dev :: skf_handle
  m_app :: skf_handle
  m_container :: skf_handle
  m_temp :: skf_handle
  m_pin :: bool

definition all_closed :: skf_monitor where
  "all_closed = \<lparr>m_lib = 0, m_dev = 0, m_app = 0, m_container = 0, m_temp = 0, m_pin = False\<rparr>"

text \<open>\<open>need\<close>: a PIN is configured, so that a container is opened only after its verification.\<close>

fun mon_step :: "bool \<Rightarrow> skf_monitor \<Rightarrow> skf_call \<Rightarrow> skf_reply \<Rightarrow> skf_monitor option" where
  "mon_step need m (Dlopen path) r =
     (if m = all_closed then Some (m \<lparr> m_lib := r_handle r \<rparr>) else None)"
| "mon_step need m (Dlclose h) r =
     (if h \<noteq> 0 \<and> m_lib m = h \<and> m_dev m = 0 \<and> m_app m = 0 \<and> m_container m = 0 \<and> m_temp m = 0
      then Some all_closed else None)"
| "mon_step need m SKF_EnumDev_length r = (if m_lib m \<noteq> 0 \<and> m_dev m = 0 then Some m else None)"
| "mon_step need m (SKF_EnumDev n) r = (if m_lib m \<noteq> 0 \<and> m_dev m = 0 then Some m else None)"
| "mon_step need m (SKF_ConnectDev name) r =
     (if m_lib m \<noteq> 0 \<and> m_dev m = 0 then Some (m \<lparr> m_dev := r_handle r \<rparr>) else None)"
| "mon_step need m (SKF_DisConnectDev h) r =
     (if h \<noteq> 0 \<and> m_dev m = h \<and> m_app m = 0 \<and> m_container m = 0 \<and> m_temp m = 0
      then Some (m \<lparr> m_dev := 0 \<rparr>) else None)"
| "mon_step need m (SKF_OpenApplication h name) r =
     (if h \<noteq> 0 \<and> m_dev m = h \<and> m_app m = 0 then Some (m \<lparr> m_app := r_handle r, m_pin := False \<rparr>) else None)"
| "mon_step need m (SKF_CloseApplication h) r =
     (if h \<noteq> 0 \<and> m_app m = h \<and> m_container m = 0 then Some (m \<lparr> m_app := 0, m_pin := False \<rparr>) else None)"
| "mon_step need m (SKF_OpenContainer h name) r =
     (if h \<noteq> 0 \<and> m_app m = h \<and> m_container m = 0 \<and> (need \<longrightarrow> m_pin m)
      then Some (m \<lparr> m_container := r_handle r \<rparr>) else None)"
| "mon_step need m (SKF_CloseContainer h) r =
     (if h \<noteq> 0 \<and> m_container m = h then Some (m \<lparr> m_container := 0 \<rparr>) else None)"
| "mon_step need m (SKF_SetSymmKey h key alg) r =
     (if h \<noteq> 0 \<and> m_dev m = h \<and> m_temp m = 0 then Some (m \<lparr> m_temp := r_handle r \<rparr>) else None)"
| "mon_step need m (SKF_DigestInit h alg) r =
     (if h \<noteq> 0 \<and> m_dev m = h \<and> m_temp m = 0 then Some (m \<lparr> m_temp := r_handle r \<rparr>) else None)"
| "mon_step need m (SKF_CloseHandle h) r =
     (if h \<noteq> 0 \<and> m_temp m = h then Some (m \<lparr> m_temp := 0 \<rparr>) else None)"
| "mon_step need m (On_device h op) r = (if h \<noteq> 0 \<and> m_dev m = h then Some m else None)"
| "mon_step need m (On_app h op) r =
     (if h \<noteq> 0 \<and> m_app m = h
      then Some (case op of SKF_VerifyPIN pin \<Rightarrow> m \<lparr> m_pin := m_pin m \<or> r_rv r = SAR_OK \<rparr> | _ \<Rightarrow> m)
      else None)"
| "mon_step need m (On_container h op) r = (if h \<noteq> 0 \<and> m_container m = h then Some m else None)"
| "mon_step need m (On_temp h op) r = (if h \<noteq> 0 \<and> m_temp m = h then Some m else None)"

text \<open>\<open>mon\<close> reads the monitor off the outside state, and every call moves it by \<open>mon_step\<close>.\<close>

definition observes :: "bool \<Rightarrow> ('w \<Rightarrow> skf_monitor option) \<Rightarrow> 'w skf_env \<Rightarrow> bool" where
  "observes need mon L \<longleftrightarrow>
     (\<forall>c w. mon (snd (env_call L c w)) = Option.bind (mon w) (\<lambda>m. mon_step need m c (fst (env_call L c w))))"

definition pin_configured :: "'w skf_env \<Rightarrow> bool" where
  "pin_configured L \<longleftrightarrow> set_and_nonempty (env_get L ''GM3000_SKF_PIN'') \<noteq> None"

text \<open>Any library with a monitor beside its own state is observed.\<close>

definition monitored :: "'w skf_env \<Rightarrow> ('w \<times> skf_monitor option) skf_env" where
  "monitored L =
     \<lparr>env_call = (\<lambda>c (w, m). let (r, w') = env_call L c w in
        (r, (w', Option.bind m (\<lambda>m. mon_step (pin_configured L) m c r)))),
      env_get = env_get L, env_symbol = env_symbol L, env_dlerror = env_dlerror L,
      env_calloc = env_calloc L, env_errbuf = env_errbuf L\<rparr>"

lemma monitored_simps [simp]:
  "fst (env_call (monitored L) c w) = fst (env_call L c (fst w))"
  "env_get (monitored L) = env_get L" "env_symbol (monitored L) = env_symbol L"
  "pin_configured (monitored L) \<longleftrightarrow> pin_configured L"
  by (simp_all add: monitored_def pin_configured_def split: prod.split)

lemma observes_monitored: "observes (pin_configured L) snd (monitored L)"
  by (simp add: observes_def monitored_def split: prod.split)

text \<open>
  What the adapter relies on: a call that opens returns \<open>SAR_OK\<close> exactly when it stores a
  handle; the required functions and those that close are exported.
\<close>

fun opens :: "skf_call \<Rightarrow> bool" where
  "opens (SKF_ConnectDev _) = True"
| "opens (SKF_OpenApplication _ _) = True"
| "opens (SKF_OpenContainer _ _) = True"
| "opens (SKF_SetSymmKey _ _ _) = True"
| "opens (SKF_DigestInit _ _) = True"
| "opens _ = False"

definition stores_handles :: "'w skf_env \<Rightarrow> bool" where
  "stores_handles L \<longleftrightarrow>
     (\<forall>c w. opens c \<longrightarrow> (r_rv (fst (env_call L c w)) = SAR_OK \<longleftrightarrow> r_handle (fst (env_call L c w)) \<noteq> 0))"

definition skf_closing :: "cstring list" where
  "skf_closing = [''SKF_CloseContainer'', ''SKF_CloseApplication'', ''SKF_CloseHandle'']"

definition exports :: "'w skf_env \<Rightarrow> cstring list \<Rightarrow> bool" where
  "exports L names \<longleftrightarrow> list_all (env_symbol L) names"

definition conforms :: "('w \<Rightarrow> skf_monitor option) \<Rightarrow> 'w skf_env \<Rightarrow> bool" where
  "conforms mon L \<longleftrightarrow> observes (pin_configured L) mon L \<and> stores_handles L
     \<and> exports L (skf_required @ skf_closing)"

lemma conforms_monitored:
  "stores_handles L \<Longrightarrow> exports L (skf_required @ skf_closing) \<Longrightarrow> conforms snd (monitored L)"
  using observes_monitored [of L]
  by (simp add: conforms_def stores_handles_def exports_def)

text \<open>
  Other threads and processes may use the library between two calls of a session. What they do
  there to its state is a list of functions, one for each call of the session; the handles of
  the session are its own. Such a library is again one the lemmas below speak of, so they hold
  whatever others do with the token in the meantime.
\<close>

definition interfered :: "'w skf_env \<Rightarrow> ('w \<times> ('w \<Rightarrow> 'w) list) skf_env" where
  "interfered L =
     \<lparr>env_call = (\<lambda>c (w, others).
        let (r, w') = env_call L c (case others of [] \<Rightarrow> w | f # _ \<Rightarrow> f w) in (r, (w', tl others))),
      env_get = env_get L, env_symbol = env_symbol L, env_dlerror = env_dlerror L,
      env_calloc = env_calloc L, env_errbuf = env_errbuf L\<rparr>"

lemma conforms_interfered:
  assumes "stores_handles L" and "exports L (skf_required @ skf_closing)"
  shows "conforms snd (monitored (interfered L))"
  by (rule conforms_monitored)
    (use assms in \<open>auto simp: stores_handles_def exports_def interfered_def split_beta\<close>)

subsection \<open>The monitor in step with the session\<close>

definition mon_of :: "skf_runtime_t \<Rightarrow> skf_session_t \<Rightarrow> skf_handle \<Rightarrow> bool \<Rightarrow> skf_monitor" where
  "mon_of rt sess t pin = \<lparr>m_lib = rt_lib rt, m_dev = dev sess, m_app = app sess,
     m_container = container sess, m_temp = t, m_pin = pin\<rparr>"

text \<open>\<open>t\<close> is the temporary handle.\<close>

definition held :: "('w \<Rightarrow> skf_monitor option) \<Rightarrow> skf_runtime_t \<Rightarrow> skf_session_t \<Rightarrow> skf_handle \<Rightarrow> 'w \<Rightarrow> bool" where
  "held mon rt sess t w \<longleftrightarrow> (\<exists>pin. mon w = Some (mon_of rt sess t pin))"

lemma heldI: "mon w = Some (mon_of rt sess t pin) \<Longrightarrow> held mon rt sess t w"
  by (auto simp: held_def)

lemma monitor_moves:
  assumes "conforms mon L" and "env_call L c w = (r, w')" and "mon w = Some m"
  shows "mon w' = mon_step (pin_configured L) m c r"
proof -
  have "mon (snd (env_call L c w)) = Option.bind (mon w) (\<lambda>m. mon_step (pin_configured L) m c (fst (env_call L c w)))"
    using assms(1) by (simp add: conforms_def observes_def)
  with assms(2,3) show ?thesis by simp
qed

lemma stored_handle:
  assumes "conforms mon L" and "env_call L c w = (r, w')" and "opens c"
  shows "r_rv r = SAR_OK \<longleftrightarrow> r_handle r \<noteq> 0"
  using assms unfolding conforms_def stores_handles_def by (metis fst_conv)

lemma held_on_handle:
  assumes "conforms mon L" and "env_call L c w = (r, w')" and "held mon rt sess t w"
    and "(\<exists>op. c = On_device (dev sess) op) \<and> dev sess \<noteq> 0
       \<or> (\<exists>op. c = On_app (app sess) op) \<and> app sess \<noteq> 0
       \<or> (\<exists>op. c = On_container (container sess) op) \<and> container sess \<noteq> 0
       \<or> (\<exists>op. c = On_temp t op) \<and> t \<noteq> 0"
  shows "held mon rt sess t w'"
proof -
  from assms(3) obtain pin where m: "mon w = Some (mon_of rt sess t pin)" by (auto simp: held_def)
  note step = monitor_moves [OF assms(1,2) m]
  from assms(4) show ?thesis
    unfolding held_def step by (auto simp: mon_of_def split: skf_app_op.split)
qed

lemma held_invoke:
  assumes "conforms mon L" and "held mon rt sess t w"
    and "(\<exists>op. c = On_device (dev sess) op) \<and> dev sess \<noteq> 0
       \<or> (\<exists>op. c = On_app (app sess) op) \<and> app sess \<noteq> 0
       \<or> (\<exists>op. c = On_container (container sess) op) \<and> container sess \<noteq> 0
       \<or> (\<exists>op. c = On_temp t op) \<and> t \<noteq> 0"
  shows "held mon rt sess t (snd (invoke L what c ok w))"
proof -
  obtain r w' where e: "env_call L c w = (r, w')" by (cases "env_call L c w")
  with held_on_handle [OF assms(1) e assms(2,3)] show ?thesis by (simp add: invoke_def)
qed

lemma held_verify_pin:
  assumes "conforms mon L" and "held mon rt sess t w" and "app sess \<noteq> 0"
  shows "held mon rt sess t (snd (verify_pin L sess pin ok w))"
proof -
  obtain r w' where e: "env_call L (On_app (app sess) (SKF_VerifyPIN pin)) w = (r, w')"
    by (cases "env_call L (On_app (app sess) (SKF_VerifyPIN pin)) w")
  with held_on_handle [OF assms(1) e assms(2)] assms(3) show ?thesis by (simp add: verify_pin_def)
qed

lemma held_with_symbol:
  assumes "held mon rt sess t w" and "\<And>w. held mon rt sess t w \<Longrightarrow> held mon rt sess t (snd (body w))"
  shows "held mon rt sess t (snd (with_symbol rt' name body w))"
  using assms by (simp add: with_symbol_def)

lemma held_temp_opened:
  assumes "conforms mon L" and "env_call L c w = (r, w')" and "held mon rt sess 0 w" and "dev sess \<noteq> 0"
    and "(\<exists>key alg. c = SKF_SetSymmKey (dev sess) key alg) \<or> (\<exists>alg. c = SKF_DigestInit (dev sess) alg)"
  shows "held mon rt sess (r_handle r) w'"
proof -
  from assms(3) obtain pin where m: "mon w = Some (mon_of rt sess 0 pin)" by (auto simp: held_def)
  note step = monitor_moves [OF assms(1,2) m]
  from assms(4,5) show ?thesis
    unfolding held_def step by (auto simp: mon_of_def)
qed

lemma held_temp_closed:
  assumes "conforms mon L" and "held mon rt sess t w" and "has"
  shows "held mon rt sess 0 (close_one L has t (SKF_CloseHandle t) w)"
proof (cases "t = 0")
  case True
  with assms(2) show ?thesis by (simp add: close_one_def)
next
  case False
  from assms(2) obtain pin where m: "mon w = Some (mon_of rt sess t pin)" by (auto simp: held_def)
  obtain r w' where e: "env_call L (SKF_CloseHandle t) w = (r, w')"
    by (cases "env_call L (SKF_CloseHandle t) w")
  from monitor_moves [OF assms(1) e m] False assms(3) e show ?thesis
    by (auto simp: held_def mon_of_def close_one_def)
qed

text \<open>The functions that close are there, which \<open>open_runtime\<close> establishes.\<close>

definition rt_closes :: "skf_runtime_t \<Rightarrow> bool" where
  "rt_closes rt \<longleftrightarrow> list_all (rt_has rt) skf_closing"

lemma rt_closesD:
  assumes "rt_closes rt"
  shows "rt_has rt ''SKF_CloseContainer''" and "rt_has rt ''SKF_CloseApplication''"
    and "rt_has rt ''SKF_CloseHandle''"
  using assms by (simp_all add: rt_closes_def skf_closing_def)

lemma held_close_temp:
  assumes "conforms mon L" and "held mon rt sess t (snd rw)" and "rt_closes rt"
  shows "held mon rt sess 0 (snd (close_temp L rt t rw))"
  using held_temp_closed [OF assms(1,2) rt_closesD(3) [OF assms(3)]] by (simp add: close_temp_def)

lemma close_all_closes:
  assumes "conforms mon L" and "held mon rt sess 0 w" and "rt_closes rt" and "rt_lib rt \<noteq> 0"
  shows "mon (close_all L rt sess w) = Some all_closed"
proof -
  note move = monitor_moves [OF assms(1) surjective_pairing]
  from assms(2) obtain pin where m: "mon w = Some (mon_of rt sess 0 pin)" by (auto simp: held_def)
  let ?w1 = "close_one L (rt_has rt ''SKF_CloseContainer'') (container sess) (SKF_CloseContainer (container sess)) w"
  have m1: "mon ?w1 = Some (mon_of rt (sess \<lparr> container := 0 \<rparr>) 0 pin)"
    using move [OF m, of "SKF_CloseContainer (container sess)"] m rt_closesD [OF assms(3)]
    by (auto simp: close_one_def mon_of_def)
  let ?w2 = "close_one L (rt_has rt ''SKF_CloseApplication'') (app sess) (SKF_CloseApplication (app sess)) ?w1"
  have m2: "\<exists>pin. mon ?w2 = Some (mon_of rt (sess \<lparr> container := 0, app := 0 \<rparr>) 0 pin)"
    using move [OF m1, of "SKF_CloseApplication (app sess)"] m1 rt_closesD [OF assms(3)]
    by (auto simp: close_one_def mon_of_def)
  then obtain pin2 where m2: "mon ?w2 = Some (mon_of rt (sess \<lparr> container := 0, app := 0 \<rparr>) 0 pin2)" by blast
  let ?w3 = "close_one L True (dev sess) (SKF_DisConnectDev (dev sess)) ?w2"
  have m3: "mon ?w3 = Some (mon_of rt zero_session 0 pin2)"
    using move [OF m2, of "SKF_DisConnectDev (dev sess)"] m2
    by (auto simp: close_one_def mon_of_def zero_session_def)
  have "close_all L rt sess w = snd (env_call L (Dlclose (rt_lib rt)) ?w3)"
    using assms(4) by (simp add: close_all_def close_session_def close_runtime_def Let_def)
  with move [OF m3, of "Dlclose (rt_lib rt)"] assms(4) show ?thesis
    by (simp add: mon_of_def zero_session_def)
qed

subsection \<open>Opening\<close>

lemma load_symbols_exported:
  "list_all (env_symbol L) names \<Longrightarrow> load_symbols L required names found = Inr (found @ names)"
  by (induction names arbitrary: found) (auto simp: load_symbol_def)

lemma load_symbols_optional:
  "load_symbols L False names found = Inr (found @ filter (env_symbol L) names)"
  by (induction names arbitrary: found) (auto simp: load_symbol_def)

lemma skf_closing_optional: "set skf_closing \<subseteq> set skf_optional"
  by (simp add: skf_closing_def skf_optional_def)

text \<open>
  An opening either fails and leaves everything closed, or gives a library and a session that
  the monitor agrees with; \<open>P\<close> says which handles are set.
\<close>

definition opened ::
  "('w \<Rightarrow> skf_monitor option) \<Rightarrow> (skf_session_t \<Rightarrow> bool)
     \<Rightarrow> (cstring + skf_runtime_t \<times> skf_session_t) \<times> 'w \<Rightarrow> bool" where
  "opened mon P res \<longleftrightarrow>
     (case res of
        (Inl e, w) \<Rightarrow> mon w = Some all_closed
      | (Inr (rt, sess), w) \<Rightarrow> rt_lib rt \<noteq> 0 \<and> rt_closes rt \<and> held mon rt sess 0 w \<and> P sess)"

lemma open_runtime_cases:
  assumes "conforms mon L" and "mon w = Some all_closed"
  shows "(\<exists>e w'. open_runtime L w = (Inl e, w') \<and> mon w' = Some all_closed)
    \<or> (\<exists>rt w'. open_runtime L w = (Inr rt, w') \<and> rt_lib rt \<noteq> 0 \<and> rt_closes rt
        \<and> held mon rt zero_session 0 w')"
proof -
  let ?c = "Dlopen (env_or_default L ''GM3000_SKF_LIB'' GM3000_DEFAULT_LIB)"
  obtain r w' where e: "env_call L ?c w = (r, w')" by (cases "env_call L ?c w")
  have m: "mon w' = Some (all_closed \<lparr> m_lib := r_handle r \<rparr>)"
    using monitor_moves [OF assms(1) e assms(2)] by simp
  show ?thesis
  proof (cases "r_handle r = 0")
    case True
    with e m show ?thesis by (simp add: open_runtime_def all_closed_def Let_def)
  next
    case False
    let ?rt = "\<lparr>rt_lib = r_handle r, rt_symbols = skf_required @ filter (env_symbol L) skf_optional\<rparr>"
    have x: "list_all (env_symbol L) skf_required" "list_all (env_symbol L) skf_closing"
      using assms(1) by (simp_all add: conforms_def exports_def)
    have o: "open_runtime L w = (Inr ?rt, w')"
      using e False load_symbols_exported [OF x(1)] by (simp add: open_runtime_def load_symbols_optional)
    have "rt_closes ?rt"
      using x(2) skf_closing_optional by (auto simp: rt_closes_def rt_has_def list_all_iff)
    moreover have "held mon ?rt zero_session 0 w'"
      using m by (auto simp: held_def mon_of_def zero_session_def all_closed_def)
    ultimately show ?thesis using o False by simp
  qed
qed

lemma held_call_same:
  assumes "conforms mon L" and "held mon rt sess 0 w" and "mon_step (pin_configured L) (mon_of rt sess 0 True) c = (\<lambda>r. Some (mon_of rt sess 0 True))"
    and "mon_step (pin_configured L) (mon_of rt sess 0 False) c = (\<lambda>r. Some (mon_of rt sess 0 False))"
    and "env_call L c w = (r, w')"
  shows "held mon rt sess 0 w'"
proof -
  from assms(2) obtain pin where m: "mon w = Some (mon_of rt sess 0 pin)" by (auto simp: held_def)
  from monitor_moves [OF assms(1,5) m] assms(3,4) show ?thesis
    by (cases pin) (auto simp: held_def)
qed

lemma held_enum_first_device:
  assumes "conforms mon L" and "held mon rt zero_session 0 w" and "rt_lib rt \<noteq> 0"
  shows "held mon rt zero_session 0 (snd (enum_first_device L w))"
proof -
  have enum: "held mon rt zero_session 0 w'"
    if "held mon rt zero_session 0 w" "env_call L c w = (r, w')" "c = SKF_EnumDev_length \<or> (\<exists>n. c = SKF_EnumDev n)"
    for c w r w'
    by (rule held_call_same [OF assms(1) that(1) _ _ that(2)])
      (use that(3) assms(3) in \<open>auto simp: mon_of_def zero_session_def\<close>)
  obtain r w1 where e1: "env_call L SKF_EnumDev_length w = (r, w1)" by (cases "env_call L SKF_EnumDev_length w")
  obtain r2 w2 where e2: "env_call L (SKF_EnumDev (r_count r)) w1 = (r2, w2)"
    by (cases "env_call L (SKF_EnumDev (r_count r)) w1")
  have h1: "held mon rt zero_session 0 w1" using enum [OF assms(2) e1] by simp
  with e1 e2 enum [OF h1 e2] show ?thesis by (simp add: enum_first_device_def Let_def)
qed

lemma opened_base:
  assumes "conforms mon L" and "mon w = Some all_closed"
  shows "opened mon (\<lambda>s. dev s \<noteq> 0 \<and> app s = 0 \<and> container s = 0) (open_base L w)"
proof -
  from open_runtime_cases [OF assms] consider
      (fail) e w' where "open_runtime L w = (Inl e, w')" "mon w' = Some all_closed"
    | (ok) rt w' where "open_runtime L w = (Inr rt, w')" "rt_lib rt \<noteq> 0" "rt_closes rt"
        "held mon rt zero_session 0 w'"
    by blast
  then show ?thesis
  proof cases
    case fail
    then show ?thesis by (simp add: open_base_def opened_def)
  next
    case ok
    have closed: "mon (close_runtime L rt v) = Some all_closed" if "held mon rt zero_session 0 v" for v
      using close_all_closes [OF assms(1) that ok(3,2)]
      by (simp add: close_all_def close_session_def close_one_def zero_session_def)
    let ?pick = "case set_and_nonempty (env_get L ''GM3000_SKF_DEVICE'') of
        Some name \<Rightarrow> (Inr name, w') | None \<Rightarrow> enum_first_device L w'"
    obtain res v where p: "?pick = (res, v)" by (cases ?pick)
    then have h: "held mon rt zero_session 0 v"
      using held_enum_first_device [OF assms(1) ok(4,2)] ok(4) by (auto split: option.splits)
    show ?thesis
    proof (cases res)
      case (Inl e)
      with p ok(1) closed [OF h] show ?thesis by (simp add: open_base_def open_device_def opened_def)
    next
      case (Inr name)
      obtain r v' where e: "env_call L (SKF_ConnectDev name) v = (r, v')"
        by (cases "env_call L (SKF_ConnectDev name) v")
      from h obtain pin where m: "mon v = Some (mon_of rt zero_session 0 pin)" by (auto simp: held_def)
      have h': "held mon rt (zero_session \<lparr> dev := r_handle r \<rparr>) 0 v'"
        using monitor_moves [OF assms(1) e m] ok(2) by (auto simp: held_def mon_of_def zero_session_def)
      have s: "r_rv r = SAR_OK \<longleftrightarrow> r_handle r \<noteq> 0"
        using stored_handle [OF assms(1) e] by simp
      have "zero_session \<lparr> dev := 0 \<rparr> = zero_session" by (simp add: zero_session_def)
      with h' s closed [of v'] have "mon (close_runtime L rt v') = Some all_closed" if "r_rv r \<noteq> SAR_OK"
        using that by simp
      with p Inr e ok h' s show ?thesis
        by (auto simp: open_base_def open_device_def opened_def invoke_def zero_session_def)
    qed
  qed
qed

lemma opened_weaken: "opened mon P res \<Longrightarrow> (\<And>s. P s \<Longrightarrow> Q s) \<Longrightarrow> opened mon Q res"
  by (auto simp: opened_def split: prod.splits sum.splits)

text \<open>\<open>open_app\<close> on an open device: the session it leaves agrees, with the PIN not yet verified.\<close>

lemma open_app_cases:
  assumes "conforms mon L" and "held mon rt sess 0 w" and "dev sess \<noteq> 0" and "app sess = 0" and "container sess = 0"
  obtains (fail) e sess' w' where "open_app L rt sess w = (Inl e, sess', w')" "held mon rt sess' 0 w'"
    | (ok) sess' w' where "open_app L rt sess w = (Inr (), sess', w')" "held mon rt sess' 0 w'"
        "dev sess' = dev sess" "app sess' \<noteq> 0" "container sess' = 0"
proof -
  consider (none) e where "open_app L rt sess w = (Inl e, sess, w)"
    | (call) name where "rt_has rt ''SKF_OpenApplication''" "set_and_nonempty (env_get L ''GM3000_SKF_APP'') = Some name"
    by (cases "set_and_nonempty (env_get L ''GM3000_SKF_APP'')"; cases "rt_has rt ''SKF_OpenApplication''")
      (auto simp: open_app_def)
  then show thesis
  proof cases
    case none
    with assms(2) show thesis by (rule fail [rotated])
  next
    case call
    obtain r w' where e: "env_call L (SKF_OpenApplication (dev sess) name) w = (r, w')"
      by (cases "env_call L (SKF_OpenApplication (dev sess) name) w")
    from assms(2) obtain pin where m: "mon w = Some (mon_of rt sess 0 pin)" by (auto simp: held_def)
    have h: "held mon rt (sess \<lparr> app := r_handle r \<rparr>) 0 w'"
      using monitor_moves [OF assms(1) e m] assms(3,4) by (auto simp: held_def mon_of_def)
    show thesis
    proof (cases "r_rv r = SAR_OK")
      case True
      with call e h stored_handle [OF assms(1) e] assms(5) show thesis
        by (intro ok [of "sess \<lparr> app := r_handle r \<rparr>" w']) (simp_all add: open_app_def)
    next
      case False
      with call e h show thesis
        by (intro fail [of "failed_text (''SKF_OpenApplication('' @ name @ '')'') r" "sess \<lparr> app := r_handle r \<rparr>" w'])
          (simp_all add: open_app_def)
    qed
  qed
qed

lemma opened_base_app:
  assumes "conforms mon L" and "mon w = Some all_closed"
  shows "opened mon (\<lambda>s. dev s \<noteq> 0 \<and> app s \<noteq> 0 \<and> container s = 0) (open_base_app L w)"
proof -
  obtain res v where b: "open_base L w = (res, v)" by (cases "open_base L w")
  note base = opened_base [OF assms, unfolded b]
  show ?thesis
  proof (cases res)
    case (Inl e)
    with base b show ?thesis by (simp add: open_base_app_def opened_def)
  next
    case (Inr rs)
    obtain rt sess where rs: "rs = (rt, sess)" by (cases rs)
    from base Inr rs have r: "rt_lib rt \<noteq> 0" "rt_closes rt" "held mon rt sess 0 v" "dev sess \<noteq> 0"
        "app sess = 0" "container sess = 0"
      by (simp_all add: opened_def)
    from assms(1) r(3-6) show ?thesis
    proof (cases rule: open_app_cases)
      case (fail e sess' w')
      with Inr rs b r close_all_closes [OF assms(1) fail(2) r(2,1)] show ?thesis
        by (simp add: open_base_app_def opened_def)
    next
      case (ok sess' w')
      with Inr rs b r show ?thesis by (simp add: open_base_app_def opened_def)
    qed
  qed
qed

lemma verify_pin_if_set_cases:
  assumes "conforms mon L" and "held mon rt sess 0 w" and "app sess \<noteq> 0"
  obtains (fail) e w' where "verify_pin_if_set L rt sess w = (Inl e, w')" "held mon rt sess 0 w'"
    | (ok) pin w' where "verify_pin_if_set L rt sess w = (Inr (), w')"
        "mon w' = Some (mon_of rt sess 0 pin)" "pin_configured L \<longrightarrow> pin"
proof (cases "set_and_nonempty (env_get L ''GM3000_SKF_PIN'')")
  case None
  from assms(2) obtain p where "mon w = Some (mon_of rt sess 0 p)" by (auto simp: held_def)
  with None show thesis by (intro ok [of w p]) (simp_all add: verify_pin_if_set_def pin_configured_def)
next
  case (Some code)
  show thesis
  proof (cases "rt_has rt ''SKF_VerifyPIN''")
    case False
    with Some assms(2) show thesis
      by (intro fail [of "missing_symbol ''SKF_VerifyPIN''" w]) (simp_all add: verify_pin_if_set_def with_symbol_def)
  next
    case True
    obtain r w' where e: "env_call L (On_app (app sess) (SKF_VerifyPIN code)) w = (r, w')"
      by (cases "env_call L (On_app (app sess) (SKF_VerifyPIN code)) w")
    from assms(2) obtain p where m: "mon w = Some (mon_of rt sess 0 p)" by (auto simp: held_def)
    have m': "mon w' = Some (mon_of rt sess 0 (p \<or> r_rv r = SAR_OK))"
      using monitor_moves [OF assms(1) e m] assms(3) by (simp add: mon_of_def)
    show thesis
    proof (cases "r_rv r = SAR_OK")
      case ok': True
      with Some True e m' show thesis
        by (intro ok [of w' True]) (simp_all add: verify_pin_if_set_def with_symbol_def verify_pin_def)
    next
      case False
      with Some True e m' show thesis
        by (intro fail [of "failed_text ''SKF_VerifyPIN'' r @ '' retry='' @ fmt_u (r_count r)" w'])
          (auto simp: verify_pin_if_set_def with_symbol_def verify_pin_def intro: heldI)
    qed
  qed
qed

lemma open_container_cases:
  assumes "conforms mon L" and "mon w = Some (mon_of rt sess 0 pin)" and "pin_configured L \<longrightarrow> pin"
    and "dev sess \<noteq> 0" and "app sess \<noteq> 0" and "container sess = 0"
  obtains (fail) e sess' w' where "open_container L rt sess call w = (Inl e, sess', w')" "held mon rt sess' 0 w'"
    | (ok) sess' w' where "open_container L rt sess call w = (Inr (), sess', w')" "held mon rt sess' 0 w'"
        "dev sess' \<noteq> 0" "app sess' \<noteq> 0" "container sess' \<noteq> 0"
proof (cases "rt_has rt ''SKF_OpenContainer''")
  case False
  with assms(2) show thesis
    by (intro fail [of "missing_symbol ''SKF_OpenContainer''" sess w]) (auto simp: open_container_def held_def)
next
  case True
  let ?c = "SKF_OpenContainer (app sess) (container_name_from_call L call)"
  obtain r w' where e: "env_call L ?c w = (r, w')" by (cases "env_call L ?c w")
  have h: "held mon rt (sess \<lparr> container := r_handle r \<rparr>) 0 w'"
    using monitor_moves [OF assms(1) e assms(2)] assms(3,5,6) by (auto simp: held_def mon_of_def)
  show thesis
  proof (cases "r_rv r = SAR_OK")
    case ok': True
    with True e h stored_handle [OF assms(1) e] assms(4,5) show thesis
      by (intro ok [of "sess \<lparr> container := r_handle r \<rparr>" w']) (simp_all add: open_container_def)
  next
    case False
    with True e h show thesis
      by (intro fail [of "failed_text (''SKF_OpenContainer('' @ container_name_from_call L call @ '')'') r"
            "sess \<lparr> container := r_handle r \<rparr>" w']) (simp_all add: open_container_def)
  qed
qed

lemma opened_app_container:
  assumes "conforms mon L" and "mon w = Some all_closed"
  shows "opened mon (\<lambda>s. dev s \<noteq> 0 \<and> app s \<noteq> 0 \<and> container s \<noteq> 0) (open_app_container L call True w)"
proof -
  obtain res v where b: "open_base L w = (res, v)" by (cases "open_base L w")
  note base = opened_base [OF assms, unfolded b]
  show ?thesis
  proof (cases res)
    case (Inl e)
    with base b show ?thesis by (simp add: open_app_container_def opened_def)
  next
    case (Inr rs)
    obtain rt sess where rs: "rs = (rt, sess)" by (cases rs)
    from base Inr rs have r: "rt_lib rt \<noteq> 0" "rt_closes rt" "held mon rt sess 0 v" "dev sess \<noteq> 0"
        "app sess = 0" "container sess = 0"
      by (simp_all add: opened_def)
    note b' = b [unfolded Inr rs]
    note closed = close_all_closes [OF assms(1) _ r(2,1)]
    from assms(1) r(3-6) show ?thesis
    proof (cases rule: open_app_cases)
      case (fail e s1 w1)
      with b' closed [OF fail(2)] show ?thesis by (simp add: open_app_container_def opened_def)
    next
      case (ok s1 w1)
      note a = ok
      from assms(1) a(2,4) show ?thesis
      proof (cases rule: verify_pin_if_set_cases)
        case (fail e w2)
        with b' a closed [OF fail(2)] show ?thesis by (simp add: open_app_container_def opened_def)
      next
        case (ok pin w2)
        note p = ok
        from a(3) r(4) have "dev s1 \<noteq> 0" by simp
        with assms(1) p(2,3) have "opened mon (\<lambda>s. dev s \<noteq> 0 \<and> app s \<noteq> 0 \<and> container s \<noteq> 0)
            (case open_container L rt s1 call w2 of
               (Inl e, sess, w) \<Rightarrow> (Inl e, close_all L rt sess w)
             | (Inr _, sess, w) \<Rightarrow> (Inr (rt, sess), w))"
          using a(4,5)
        proof (cases rule: open_container_cases [where call = call])
          case (fail e s3 w3)
          with closed [OF fail(2)] show ?thesis by (simp add: opened_def)
        next
          case (ok s3 w3)
          with r show ?thesis by (simp add: opened_def)
        qed
        with b' a p show ?thesis by (simp add: open_app_container_def)
      qed
    qed
  qed
qed

lemma in_session_closes:
  assumes "conforms mon L" and "opened mon P res"
    and "\<And>rt sess w. rt_closes rt \<Longrightarrow> P sess \<Longrightarrow> held mon rt sess 0 w \<Longrightarrow> held mon rt sess 0 (snd (body rt sess w))"
  shows "mon (snd (snd (in_session L esz resp res body))) = Some all_closed"
proof -
  obtain a w where res: "res = (a, w)" by (cases res)
  show ?thesis
  proof (cases a)
    case (Inl e)
    with assms(2) res show ?thesis by (simp add: in_session_def opened_def adapter_fail_def)
  next
    case (Inr rs)
    obtain rt sess where rs: "rs = (rt, sess)" by (cases rs)
    from assms(2) res Inr rs have r: "rt_lib rt \<noteq> 0" "rt_closes rt" "held mon rt sess 0 w" "P sess"
      by (simp_all add: opened_def)
    have "mon (close_all L rt sess (snd (body rt sess w))) = Some all_closed"
      using close_all_closes [OF assms(1) assms(3) [OF r(2,4,3)] r(2,1)] .
    with res Inr rs show ?thesis
      by (auto simp: in_session_def finalize_error_or_success_def adapter_fail_def adapter_ok_def Let_def
          split: sum.split)
  qed
qed

subsection \<open>The bodies\<close>

text \<open>
  Every body keeps the monitor in step, given the handles its opening has set. A body that only
  uses open handles is solved by the rules \<open>keeps\<close>.
\<close>

lemmas keeps = held_with_symbol held_invoke held_verify_pin

lemma held_device_body:
  assumes "conforms mon L" and "held mon rt sess 0 w" and "dev sess \<noteq> 0"
  shows "held mon rt sess 0 (snd (device_body L call rt sess w))"
  using assms by (auto simp: device_body_def intro: keeps split: option.split)

lemma held_key_access:
  assumes "conforms mon L" and "held mon rt sess 0 w" and "app sess \<noteq> 0"
  shows "held mon rt sess 0 (snd (key_access L rt sess w))"
  using assms by (auto simp: key_access_def intro!: keeps split: option.split)

lemma held_key_generate_pair:
  assumes "conforms mon L" and "held mon rt sess 0 w" and "container sess \<noteq> 0"
  shows "held mon rt sess 0 (snd (key_generate_pair L rt sess call w))"
  using assms by (auto simp: key_generate_pair_def intro!: keeps)

lemma held_key_export:
  assumes "conforms mon L" and "held mon rt sess 0 w" and "container sess \<noteq> 0"
  shows "held mon rt sess 0 (snd (key_export L rt sess w))"
  using assms by (auto simp: key_export_def intro!: keeps)

lemma held_key_import:
  assumes "conforms mon L" and "held mon rt sess 0 w" and "dev sess \<noteq> 0" and "rt_closes rt"
  shows "held mon rt sess 0 (snd (key_import L rt sess call w))"
proof -
  have imported: "held mon rt sess 0
      (snd (let (r, w) = env_call L (SKF_SetSymmKey (dev sess) key alg) w in
            if r_rv r \<noteq> SAR_OK then (Inl (e r), w)
            else (Inr s, close_one L (rt_has rt ''SKF_CloseHandle'') (r_handle r) (SKF_CloseHandle (r_handle r)) w)))"
    if h: "held mon rt sess 0 w" for w key alg s and e :: "skf_reply \<Rightarrow> cstring"
  proof -
    obtain r w' where c: "env_call L (SKF_SetSymmKey (dev sess) key alg) w = (r, w')"
      by (cases "env_call L (SKF_SetSymmKey (dev sess) key alg) w")
    have t: "held mon rt sess (r_handle r) w'"
      using held_temp_opened [OF assms(1) c h assms(3)] by blast
    moreover have "r_rv r \<noteq> SAR_OK \<Longrightarrow> r_handle r = 0"
      using stored_handle [OF assms(1) c] by simp
    ultimately show ?thesis
      using c held_temp_closed [OF assms(1) t rt_closesD(3) [OF assms(4)]] by (cases "r_handle r = 0") auto
  qed
  show ?thesis
    using assms(2) unfolding key_import_def Let_def
    by (intro held_with_symbol) (auto simp: imported [unfolded Let_def] split: option.split)
qed

lemma held_key_destroy:
  assumes "conforms mon L" and "held mon rt sess 0 w" and "app sess \<noteq> 0"
  shows "held mon rt sess 0 (snd (key_destroy L rt sess call w))"
  using assms by (auto simp: key_destroy_def Let_def intro!: keeps)

lemma held_asym_sign:
  assumes "conforms mon L" and "held mon rt sess 0 w" and "container sess \<noteq> 0"
  shows "held mon rt sess 0 (snd (asym_sign L inp rt sess sm2 w))"
  using assms by (auto simp: asym_sign_def intro!: keeps)

lemma held_asym_verify:
  assumes "conforms mon L" and "held mon rt sess 0 w" and "dev sess \<noteq> 0"
  shows "held mon rt sess 0 (snd (asym_verify L call inp rt sess w))"
  using assms by (auto simp: asym_verify_def intro!: keeps split: option.split)

lemma held_asym_encrypt:
  assumes "conforms mon L" and "held mon rt sess 0 w" and "dev sess \<noteq> 0"
  shows "held mon rt sess 0 (snd (asym_encrypt L call inp rt sess sm2 w))"
  using assms by (auto simp: asym_encrypt_def intro!: keeps split: option.split)

lemma held_asym_decrypt:
  assumes "conforms mon L" and "held mon rt sess 0 w" and "container sess \<noteq> 0"
  shows "held mon rt sess 0 (snd (asym_decrypt L call inp rt sess sm2 w))"
  using assms by (auto simp: asym_decrypt_def intro!: keeps split: option.split)

lemma held_init_and_run:
  assumes "conforms mon L" and "held mon rt sess t w" and "t \<noteq> 0"
  shows "held mon rt sess t (snd (init_and_run L what (On_temp t a) (On_temp t b) ok w))"
proof -
  obtain r w' where e: "env_call L (On_temp t a) w = (r, w')" by (cases "env_call L (On_temp t a) w")
  have "held mon rt sess t w'" using held_on_handle [OF assms(1) e assms(2)] assms(3) by simp
  with e assms show ?thesis by (auto simp: init_and_run_def intro: held_invoke)
qed

lemma held_sym_operation:
  assumes "conforms mon L" and "held mon rt sess t w" and "t \<noteq> 0"
  shows "held mon rt sess t (snd (sym_operation L call inp rt' t w))"
  using assms by (auto simp: sym_operation_def intro!: keeps held_init_and_run)

lemma held_sym_body:
  assumes "conforms mon L" and "held mon rt sess 0 w" and "dev sess \<noteq> 0" and "rt_closes rt"
  shows "held mon rt sess 0 (snd (sym_body L call key inp rt sess w))"
  unfolding sym_body_def
proof (rule held_with_symbol [OF assms(2)])
  fix w assume h: "held mon rt sess 0 w"
  let ?alg = "if alg_to_skf_id (call_algorithm (tc_call call)) = 0 then SGD_SM4_CBC
      else alg_to_skf_id (call_algorithm (tc_call call))"
  obtain r w' where c: "env_call L (SKF_SetSymmKey (dev sess) key ?alg) w = (r, w')"
    by (cases "env_call L (SKF_SetSymmKey (dev sess) key ?alg) w")
  have t: "held mon rt sess (r_handle r) w'"
    using held_temp_opened [OF assms(1) c h assms(3)] by blast
  have "held mon rt sess (r_handle r)
      (snd (if r_rv r \<noteq> SAR_OK then (Inl (failed_text ''SKF_SetSymmKey'' r), w')
            else sym_operation L call inp rt (r_handle r) w'))"
    using t stored_handle [OF assms(1) c] held_sym_operation [OF assms(1) t] by (cases "r_handle r = 0") simp_all
  from held_close_temp [OF assms(1) this assms(4)] c
  show "held mon rt sess 0 (snd (let alg = ?alg; (r, w) = env_call L (SKF_SetSymmKey (dev sess) key alg) w
       in close_temp L rt (r_handle r)
            (if r_rv r \<noteq> SAR_OK then (Inl (failed_text ''SKF_SetSymmKey'' r), w)
             else sym_operation L call inp rt (r_handle r) w)))"
    by (simp only: Let_def prod.case)
qed

lemma held_hash_body:
  assumes "conforms mon L" and "held mon rt sess 0 w" and "dev sess \<noteq> 0" and "rt_closes rt"
  shows "held mon rt sess 0 (snd (hash_body L call inp rt sess w))"
proof (cases "rt_has rt ''SKF_DigestInit'' \<and> rt_has rt ''SKF_Digest''")
  case False
  with assms(2) show ?thesis by (auto simp: hash_body_def)
next
  case True
  let ?alg = "if alg_to_skf_id (call_algorithm (tc_call call)) = 0 then SGD_SM3
      else alg_to_skf_id (call_algorithm (tc_call call))"
  obtain r w' where c: "env_call L (SKF_DigestInit (dev sess) ?alg) w = (r, w')"
    by (cases "env_call L (SKF_DigestInit (dev sess) ?alg) w")
  have t: "held mon rt sess (r_handle r) w'"
    using held_temp_opened [OF assms(1) c assms(2,3)] by blast
  have "held mon rt sess (r_handle r)
      (snd (if r_rv r \<noteq> SAR_OK then (Inl (failed_text ''SKF_Digest'' r), w')
            else invoke L ''SKF_Digest'' (On_temp (r_handle r) (SKF_Digest inp)) ok w'))" for ok
    using t stored_handle [OF assms(1) c] held_invoke [OF assms(1) t, of "On_temp (r_handle r) (SKF_Digest inp)"]
    by (cases "r_handle r = 0") auto
  from held_close_temp [OF assms(1) this assms(4)] c True show ?thesis
    by (simp add: hash_body_def Let_def)
qed

lemma held_file_body:
  assumes "conforms mon L" and "held mon rt sess 0 w" and "app sess \<noteq> 0"
  shows "held mon rt sess 0 (snd (file_body L call rt sess w))"
  using assms by (auto simp: file_body_def file_create_def file_read_def file_write_def file_delete_def Let_def
      intro!: keeps split: option.split api_action_t.split)

lemma held_pqc_body:
  assumes "conforms mon L" and "held mon rt sess 0 w" and "dev sess \<noteq> 0"
  shows "held mon rt sess 0 (snd (pqc_body L call inp rt sess w))"
  using assms by (auto simp: pqc_body_def pqc_encap_def pqc_decap_def pqc_sign_def pqc_verify_def
      intro!: keeps split: option.split api_action_t.split)

text \<open>Every handler of the adapter, by its domain.\<close>

lemma disciplined_dispatch:
  assumes "conforms mon L" and "mon w = Some all_closed"
  shows "mon (snd (snd (driver_dispatch (skf_driver_ops L) dm d call resp esz w))) = Some all_closed"
proof -
  note base = in_session_closes [OF assms(1) opened_base [OF assms]]
    and base_app = in_session_closes [OF assms(1) opened_base_app [OF assms]]
    and app_container = in_session_closes [OF assms(1) opened_app_container [OF assms]]
  have device: "mon (snd (snd (gm3000_device_manage L d call resp esz w))) = Some all_closed"
    unfolding gm3000_device_manage_def by (rule base) (simp add: held_device_body [OF assms(1)])
  have key: "mon (snd (snd (gm3000_key_manage L d call resp esz w))) = Some all_closed"
    by (cases "call_action (tc_call call)")
      (auto simp: gm3000_key_manage_def key_body_def intro!: base_app app_container
        held_key_access held_key_generate_pair held_key_export held_key_import held_key_destroy assms(1))
  have asym: "mon (snd (snd (gm3000_asym_crypto L d call resp esz w))) = Some all_closed"
    using assms(2) by (auto simp: gm3000_asym_crypto_def adapter_fail_def asym_body_def Let_def
        intro!: base app_container held_asym_sign held_asym_verify held_asym_encrypt held_asym_decrypt assms(1)
        split: option.split)
  have sym: "mon (snd (snd (gm3000_sym_crypto L d call resp esz w))) = Some all_closed"
    using assms(2) by (auto simp: gm3000_sym_crypto_def adapter_fail_def Let_def
        intro!: base held_sym_body assms(1) split: option.split)
  have hash: "mon (snd (snd (gm3000_hash_ops L d call resp esz w))) = Some all_closed"
    using assms(2) by (auto simp: gm3000_hash_ops_def adapter_fail_def Let_def
        intro!: base held_hash_body assms(1) split: option.split)
  have files: "mon (snd (snd (gm3000_file_ops L d call resp esz w))) = Some all_closed"
    using assms(2) by (auto simp: gm3000_file_ops_def adapter_fail_def Let_def
        intro!: base_app held_file_body assms(1))
  have pqc: "mon (snd (snd (gm3000_pqc_ops L d call resp esz w))) = Some all_closed"
    using assms(2) by (auto simp: gm3000_pqc_ops_def adapter_fail_def Let_def
        intro!: base held_pqc_body assms(1) split: option.split)
  from assms(2) device key asym sym hash files pqc show ?thesis
    by (cases dm) (simp_all add: driver_dispatch_def skf_driver_ops_def)
qed

subsection \<open>Properties\<close>

text \<open>
  Property C8. For a library that stores a handle exactly when it reports success and exports
  the functions the adapter requires and closes with: every request that reaches the adapter,
  whatever its domain, action and contents and wherever the library fails, uses only handles
  that are open, opens a container only after the configured PIN was verified, and leaves the
  library, the device, the application, the container and the temporary handle closed.
\<close>

theorem skf_session_discipline:
  assumes "conforms mon L" and "mon w = Some all_closed"
  shows "mon (snd (snd (driver_dispatch (skf_driver_ops L) dm d call resp esz w))) = Some all_closed"
  using assms by (rule disciplined_dispatch)

text \<open>A library that exports everything, asks for a PIN and always succeeds.\<close>

definition sample_reply :: skf_reply where
  "sample_reply = \<lparr>r_rv = 0, r_handle = 1, r_bytes = [7], r_bytes2 = [], r_count = 1,
     r_text1 = ''x'', r_text2 = [], r_text3 = []\<rparr>"

definition sample_skf :: "unit skf_env" where
  "sample_skf = \<lparr>env_call = (\<lambda>c w. (sample_reply, w)), env_get = (\<lambda>name. Some ''1''),
     env_symbol = (\<lambda>name. True), env_dlerror = (\<lambda>name. None), env_calloc = (\<lambda>n. True), env_errbuf = []\<rparr>"

lemma conforms_sample: "conforms snd (monitored sample_skf)"
  by (rule conforms_monitored)
    (simp_all add: stores_handles_def exports_def sample_skf_def sample_reply_def SAR_OK_def list_all_iff)

theorem skf_session_discipline_witness:
  "snd (snd (snd (driver_dispatch (skf_driver_ops (monitored sample_skf)) DOMAIN_KEY
      (sample_device ''d'' 1)
      \<lparr>tc_call = \<lparr>call_domain = DOMAIN_KEY, call_action = ACTION_EXPORT_PUBLIC_KEY, call_algorithm = ''sm2'',
         call_key_ref = ''k'', call_payload = [], call_aux_payload = []\<rparr>,
       tc_backend_name = ''g'', tc_backend_call_name = ''SKF_ExportPublicKey''\<rparr>
      zero_response 64 ((), Some all_closed)))) = Some all_closed"
  by (rule skf_session_discipline [OF conforms_sample]) simp

end
