(* ===== verification/Skf_Outcomes.thy ===== *)
theory Skf_Outcomes
  imports Skf_Session
begin

text \<open>
  What the answers of the GM3000 adapter are worth: bytes written in hex and read back, the
  rules of the translator the adapter does not serve, the branch that leaves \<^verbatim>\<open>errbuf\<close>
  unwritten, and the library that stays loaded when one of its functions is missing.
\<close>

subsection \<open>Bytes in hex\<close>

lemma of_char_hex_char:
  "n < 16 \<Longrightarrow> (of_char (hex_char n) :: nat) = (if n < 10 then 48 + n else 87 + n)"
  by (simp add: hex_char_def take_bit_eq_mod)

lemma hex_digit_hex_char [simp]: "n < 16 \<Longrightarrow> hex_digit (hex_char n) = Some n"
  by (auto simp: hex_digit_def Let_def of_char_hex_char)

lemma hex_char_not_separator [simp]: "n < 16 \<Longrightarrow> \<not> hex_separator (hex_char n)"
proof
  assume n: "n < 16" and "hex_separator (hex_char n)"
  then have "(of_char (hex_char n) :: nat) \<in> {32, 58, 45}"
    by (auto simp: hex_separator_def)
  with n show False by (auto simp: of_char_hex_char split: if_splits)
qed

lemma decode_hex_Nil [simp]: "decode_hex cap [] = Some []"
  by (simp add: decode_hex.simps)

lemma decode_hex_byte:
  fixes b :: byte
  assumes "0 < cap"
  shows "decode_hex cap (hex_char (unat b div 16) # hex_char (unat b mod 16) # r)
    = map_option (Cons b) (decode_hex (cap - 1) r)"
proof -
  have "unat b < 256" using unsigned_less [of b] by simp
  then have h: "unat b div 16 < 16" "unat b mod 16 < 16" by auto
  have "of_nat (unat b div 16 * 16 + unat b mod 16) = b" by (simp only: div_mult_mod_eq of_nat_unat ucast_id)
  with h assms show ?thesis by (simp add: decode_hex.simps [of cap "hex_char _ # _"])
qed

lemma decode_bytes_to_hex:
  "(room - 1) div 2 \<le> cap \<Longrightarrow> decode_hex cap (bytes_to_hex bs room) = Some (take ((room - 1) div 2) bs)"
proof (induction bs room arbitrary: cap rule: bytes_to_hex.induct)
  case (1 room)
  then show ?case by simp
next
  case (2 b bs room)
  show ?case
  proof (cases "2 < room")
    case True
    then have k: "(room - 1) div 2 = Suc ((room - 2 - 1) div 2)" by presburger
    with 2 True show ?thesis by (simp add: decode_hex_byte)
  next
    case False
    then have "(room - 1) div 2 = 0" by presburger
    with False show ?thesis by simp
  qed
qed

text \<open>
  Property C34. Bytes that a handler writes into its result in hex are read back by
  \<^verbatim>\<open>input_to_bytes\<close> and \<^verbatim>\<open>blob_from_hex\<close>, but only the first 255 of them: the 512 bytes of the
  hex buffer hold no more. A signature under a 2048-bit RSA key has 256 bytes and comes back
  one byte short.
\<close>

theorem hex_result_read_back:
  assumes "255 \<le> cap"
  shows "input_to_bytes cap (Some (''hex:'' @ hex_result bs)) = Some (take 255 bs)
    \<and> blob_from_hex (''hex:'' @ hex_result bs) cap = Some (take 255 bs)"
  using decode_bytes_to_hex [of GM3000_RESULT_HEX cap bs] assms
  by (simp add: input_to_bytes_def blob_from_hex_def hex_result_def GM3000_RESULT_HEX_def starts_with_str_def)

theorem hex_result_read_back_witness:
  "input_to_bytes GM3000_MAX_IO (Some (''hex:'' @ hex_result (replicate 256 7))) = Some (replicate 255 7)"
  using hex_result_read_back [of GM3000_MAX_IO "replicate 256 7"] by (simp add: GM3000_MAX_IO_def)

subsection \<open>A missing function\<close>

lemma load_symbols_missing:
  assumes "name \<in> set names" and "\<not> env_symbol L name"
  shows "\<exists>e. load_symbols L True names found = Inl e"
  using assms by (induction names arbitrary: found) (auto simp: load_symbol_def)

lemma open_base_missing:
  assumes "name \<in> set skf_required" and "\<not> env_symbol L name"
    and "env_call L (Dlopen (env_or_default L ''GM3000_SKF_LIB'' GM3000_DEFAULT_LIB)) w = (r, w')"
    and "r_handle r \<noteq> 0"
  shows "\<exists>e. open_base L w = (Inl e, w')"
proof -
  obtain e where "load_symbols L True skf_required [] = Inl e"
    using load_symbols_missing [OF assms(1,2)] by blast
  with assms(3,4) show ?thesis by (simp add: open_base_def open_runtime_def Let_def)
qed

text \<open>
  Property C35. A library that loads but lacks a required function is never unloaded: every
  request for a device operation fails and leaves the library open, because \<^verbatim>\<open>open_base\<close>
  returns without \<^verbatim>\<open>close_runtime\<close> when \<^verbatim>\<open>open_runtime\<close> fails. Each request loads it once more.
\<close>

theorem missing_function_leaves_library_open:
  assumes "name \<in> set skf_required" and "\<not> env_symbol L name"
    and "observes need mon L" and "mon w = Some all_closed"
    and "r_handle (fst (env_call L (Dlopen (env_or_default L ''GM3000_SKF_LIB'' GM3000_DEFAULT_LIB)) w)) = h"
    and "h \<noteq> 0"
  shows "\<exists>e w'. driver_dispatch (skf_driver_ops L) DOMAIN_DEVICE d call resp esz w
      = (Inl e, fill_common d call resp, w') \<and> mon w' = Some (all_closed \<lparr> m_lib := h \<rparr>)"
proof -
  let ?c = "Dlopen (env_or_default L ''GM3000_SKF_LIB'' GM3000_DEFAULT_LIB)"
  obtain r w' where e: "env_call L ?c w = (r, w')" by (cases "env_call L ?c w")
  with assms(5) have h: "r_handle r = h" by simp
  obtain m where b: "open_base L w = (Inl m, w')"
    using open_base_missing [OF assms(1,2) e] assms(6) h by blast
  have "mon (snd (env_call L ?c w)) = Option.bind (mon w) (\<lambda>m. mon_step need m ?c (fst (env_call L ?c w)))"
    using assms(3) unfolding observes_def by blast
  then have "mon w' = Some (all_closed \<lparr> m_lib := h \<rparr>)" using e assms(4) h by simp
  then show ?thesis
    using b by (simp add: driver_dispatch_def skf_driver_ops_def gm3000_device_manage_def in_session_def adapter_fail_def)
qed

text \<open>A call for the number of random bytes asked for.\<close>

definition sample_random_call :: translated_call_t where
  "sample_random_call =
     \<lparr>tc_call = \<lparr>call_domain = DOMAIN_DEVICE, call_action = ACTION_GENERATE_RANDOM, call_algorithm = [],
         call_key_ref = [], call_payload = ''8'', call_aux_payload = []\<rparr>,
      tc_backend_name = ''g'', tc_backend_call_name = ''SKF_GenRandom''\<rparr>"

theorem missing_function_leaves_library_open_witness:
  "\<exists>e w'. driver_dispatch (skf_driver_ops (monitored (sample_skf \<lparr> env_symbol := (\<lambda>n. n \<noteq> ''SKF_GenRandom'') \<rparr>)))
      DOMAIN_DEVICE (sample_device ''d'' 1) sample_random_call zero_response 256 ((), Some all_closed)
    = (Inl e, fill_common (sample_device ''d'' 1) sample_random_call zero_response, w')
    \<and> snd w' = Some (all_closed \<lparr> m_lib := 1 \<rparr>)"
  by (rule missing_function_leaves_library_open [where name = "''SKF_GenRandom''", OF _ _ observes_monitored])
    (simp_all add: skf_required_def sample_skf_def sample_reply_def)

subsection \<open>Rules and handlers\<close>

lemma find_rule_gm3000:
  assumes "r \<in> set g_rules" and "rule_matches d dm act alg r"
  shows "\<exists>t. translate_backend_call dm act alg payload aux key_ref d tsz = Inr t"
  using assms find_rule_None [of d dm act alg] by (auto simp: translate_backend_call_def Let_def split: option.splits)

lemma pqc_rules:
  assumes "alg \<in> {''kyber768'', ''mlkem768'', ''dilithium3''}"
  shows "\<exists>r \<in> set g_rules. rule_backend_profile r = ''gm3000-skf'' \<and> rule_type r = DEV_CLASSIC
    \<and> rule_domain r = DOMAIN_KEY \<and> rule_action r = ACTION_GENERATE_KEY_PAIR \<and> rule_algorithm r = alg"
proof -
  let ?r = "rule ''gm3000-skf'' DEV_CLASSIC DOMAIN_KEY ACTION_GENERATE_KEY_PAIR"
  have "?r ''kyber768'' ''SKF_GenerateKeyPairKyber'' \<in> set g_rules"
    "?r ''mlkem768'' ''SKF_GenerateKeyPairKyber'' \<in> set g_rules"
    "?r ''dilithium3'' ''SKF_GenerateKeyPair_Dilithium'' \<in> set g_rules"
    by (simp_all add: g_rules_def)
  with assms obtain c where "?r alg c \<in> set g_rules" by auto
  moreover have "rule_backend_profile (?r alg c) = ''gm3000-skf'' \<and> rule_type (?r alg c) = DEV_CLASSIC
      \<and> rule_domain (?r alg c) = DOMAIN_KEY \<and> rule_action (?r alg c) = ACTION_GENERATE_KEY_PAIR
      \<and> rule_algorithm (?r alg c) = alg" by (simp add: rule_def)
  ultimately show ?thesis by blast
qed

lemma in_session_failing_body:
  assumes "\<And>rt sess w. \<exists>e w'. body rt sess w = (Inl e, w')"
  shows "\<exists>e w'. in_session L esz resp start body = (Inl e, resp, w')"
proof (cases start)
  case (Pair a w)
  show ?thesis
  proof (cases a)
    case (Inl e)
    with Pair show ?thesis by (simp add: in_session_def adapter_fail_def)
  next
    case (Inr rs)
    obtain rt sess where rs: "rs = (rt, sess)" by (cases rs)
    obtain e w' where "body rt sess w = (Inl e, w')" using assms by blast
    with Pair Inr rs show ?thesis
      by (simp add: in_session_def finalize_error_or_success_def adapter_fail_def Let_def)
  qed
qed

text \<open>
  Property C36. The table has rules for the generation of post-quantum key pairs on a GM3000
  device, and the adapter loads the functions they name, but it never serves them: the request
  is translated and then fails, whatever the library does.
\<close>

theorem pqc_key_pair_rules_not_served:
  assumes "alg \<in> {''kyber768'', ''mlkem768'', ''dilithium3''}"
    and "device_type d = DEV_CLASSIC" and "backend_profile d = ''gm3000-skf''"
  shows "\<exists>t. translate_backend_call DOMAIN_KEY ACTION_GENERATE_KEY_PAIR alg payload aux key_ref d tsz = Inr t
    \<and> (\<exists>e w'. driver_dispatch (skf_driver_ops L) DOMAIN_KEY d t resp esz w = (Inl e, fill_common d t resp, w'))"
proof -
  from pqc_rules [OF assms(1)] obtain r where "r \<in> set g_rules"
      "rule_matches d DOMAIN_KEY ACTION_GENERATE_KEY_PAIR alg r"
    using assms(2,3) by (auto simp: rule_matches_iff)
  then obtain t where t: "translate_backend_call DOMAIN_KEY ACTION_GENERATE_KEY_PAIR alg payload aux key_ref d tsz = Inr t"
    using find_rule_gm3000 by blast
  from translate_Inr [OF t] have c: "call_action (tc_call t) = ACTION_GENERATE_KEY_PAIR"
      "call_algorithm (tc_call t) = snprintf_s MAX_FIELD_LEN alg"
    by (metis backend_call_t.select_convs(2), metis backend_call_t.select_convs(3))
  then have "call_algorithm (tc_call t) = alg"
    using assms(1) by (auto simp: MAX_FIELD_LEN_def)
  with assms(1) have "call_algorithm (tc_call t) \<noteq> ''sm2'' \<and> call_algorithm (tc_call t) \<noteq> ''rsa''" by auto
  with c(1) have "\<exists>e w'. key_body L t rt sess w = (Inl e, w')" for rt sess w
    by (simp add: key_body_def key_generate_pair_def)
  from in_session_failing_body [OF this] t show ?thesis
    by (fastforce simp: driver_dispatch_def skf_driver_ops_def gm3000_key_manage_def)
qed

theorem pqc_key_pair_rules_not_served_witness:
  "\<exists>t. translate_backend_call DOMAIN_KEY ACTION_GENERATE_KEY_PAIR ''kyber768'' None None (Some ''k'')
      (sample_device ''d'' 1 \<lparr> backend_profile := ''gm3000-skf'' \<rparr>) 256 = Inr t
    \<and> (\<exists>e w'. driver_dispatch (skf_driver_ops sample_skf) DOMAIN_KEY
        (sample_device ''d'' 1 \<lparr> backend_profile := ''gm3000-skf'' \<rparr>) t zero_response 256 ()
      = (Inl e, fill_common (sample_device ''d'' 1 \<lparr> backend_profile := ''gm3000-skf'' \<rparr>) t zero_response, w'))"
  by (rule pqc_key_pair_rules_not_served) (simp_all add: sample_device_def)

end
