(* ===== verification/Skf_Gateway.thy ===== *)
theory Skf_Gateway
  imports Skf_Outcomes Skf_Calls Token_Config
begin

text \<open>
  The gateway with the GM3000 adapter in it. A property of the outside state that every
  dispatch to the SKF adapter keeps is kept by every step of an execution and by the whole
  server, since the built-in adapters do not touch the outside; the session discipline of
  \<open>Skf_Session\<close> is such a property. The call of an adapter is one step of the server, as in
  \<open>Execution\<close>, which is what the code does when no two sessions can overlap: with one token
  that serves one request at a time.
\<close>

subsection \<open>Invariants of the outside state\<close>

lemma classic_outside: "snd (snd (driver_dispatch classic_driver_ops dm d call resp esz w)) = w"
  by (cases dm) (simp_all add: driver_dispatch_def classic_driver_ops_def handler_defs Let_def adapter_ok_def
      split: api_action_t.split)

lemma pqc_outside: "snd (snd (driver_dispatch pqc_driver_ops dm d call resp esz w)) = w"
  by (cases dm) (simp_all add: driver_dispatch_def pqc_driver_ops_def handler_defs Let_def adapter_ok_def
      split: api_action_t.split)

locale outside_invariant =
  fixes skf :: "'w driver_ops_t" and I :: "'w \<Rightarrow> bool"
  assumes dispatch: "I w \<Longrightarrow> I (snd (snd (driver_dispatch skf dm d call resp esz w)))"
begin

lemma ops_for_keeps: "I w \<Longrightarrow> I (snd (snd (driver_dispatch (ops_for skf d') dm d call resp esz w)))"
  by (simp add: ops_for_def dispatch classic_outside pqc_outside)

lemma exec_step_keeps:
  assumes "exec_step skf req (pc, (reg, w)) = (pc', (reg', w'))" and "I w"
  shows "I w'"
proof (cases pc)
  case (To_Call a k i)
  have "I (snd (call_step skf req a k i (reg ! i) w))"
    using assms(2) ops_for_keeps
    by (auto simp: call_step_def Let_def split: sum.split prod.split) (metis snd_conv)
  with assms(1) To_Call show ?thesis by (auto split: prod.splits)
qed (use assms in \<open>auto split: prod.splits\<close>)

lemma server_keeps:
  assumes "server_reachable skf settings n (reg, w) s" and "I w"
  shows "I (snd (s_state s))"
  using assms(1)
proof (induction rule: server_reachable.induct)
  case start
  with assms(2) show ?case by (simp add: server_start_def)
next
  case (step s s')
  from step.hyps(2) step.IH show ?case
  proof (cases rule: server_step.cases)
    case (advance i j pc pc' st')
    with step.IH show ?thesis
      using exec_step_keeps [of "job_request j" pc "fst (s_state s)" "snd (s_state s)" pc' "fst st'" "snd st'"] by simp
  qed (simp_all add: answer_def)
qed

end

text \<open>With the built-in adapters alone the outside never changes.\<close>

interpretation builtin: outside_invariant "classic_driver_ops :: 'w driver_ops_t" "\<lambda>v. v = w0" for w0 :: 'w
  by unfold_locales (simp add: classic_outside)

subsection \<open>Properties\<close>

lemma skf_outside_invariant:
  "conforms mon L \<Longrightarrow> outside_invariant (skf_driver_ops L) (\<lambda>w. mon w = Some all_closed)"
  by unfold_locales (rule disciplined_dispatch)

text \<open>A worker between taking and giving back a device with the SKF adapter.\<close>

definition uses_token :: "resource_registry_t \<Rightarrow> worker_pc \<Rightarrow> bool" where
  "uses_token reg v \<longleftrightarrow> (\<exists>i < length reg. holds i v \<and> backend_profile (reg ! i) = ''gm3000-skf'')"

text \<open>A table in which at most one device has the SKF adapter, and that device serves one at a time.\<close>

definition lone_token :: "resource_registry_t \<Rightarrow> bool" where
  "lone_token reg \<longleftrightarrow> (\<forall>i < length reg. \<forall>k < length reg.
     backend_profile (reg ! i) = ''gm3000-skf'' \<longrightarrow> backend_profile (reg ! k) = ''gm3000-skf'' \<longrightarrow>
       i = k \<and> max_inflight (reg ! i) = 1)"

lemma call_outside:
  assumes "backend_profile d \<noteq> ''gm3000-skf''"
  shows "snd (call_step skf req a k i d w) = w"
proof -
  have "snd (snd (driver_dispatch (ops_for skf d) dm d t resp 256 w)) = w" for dm t resp
    using assms by (simp add: ops_for_def classic_outside pqc_outside)
  then show ?thesis by (auto simp: call_step_def split: sum.split prod.split) (metis snd_conv)
qed

text \<open>The library is used in the calls of the workers that hold the token, of which there is one.\<close>

lemma one_token_user:
  assumes "wf_registry reg0" and "\<forall>d \<in> set reg0. inflight d = 0" and "lone_token reg0"
    and "server_reachable skf settings n (reg0, w0) s"
    and "k < length (s_workers s)" "uses_token reg0 (s_workers s ! k)"
    and "l < length (s_workers s)" "uses_token reg0 (s_workers s ! l)"
  shows "l = k"
proof -
  obtain i i' where i: "i < length reg0" "holds i (s_workers s ! k)" "backend_profile (reg0 ! i) = ''gm3000-skf''"
    "i' < length reg0" "holds i' (s_workers s ! l)" "backend_profile (reg0 ! i') = ''gm3000-skf''"
    using assms(6,8) by (auto simp: uses_token_def)
  then have "i' = i" "max_inflight (reg0 ! i) = 1" using assms(3) by (auto simp: lone_token_def)
  with single_user [OF assms(1,2,4) _ assms(5) i(2) assms(7)] i(5) show ?thesis by simp
qed

lemma token_call_outside:
  assumes "wf_registry reg0" and "\<forall>d \<in> set reg0. inflight d = 0"
    and "server_reachable skf settings n (reg0, w0) s" and "server_step skf settings s s'"
  shows "snd (s_state s') = snd (s_state s) \<or> (\<exists>l j a c i. l < length (s_workers s)
     \<and> s_workers s ! l = W_Running j (To_Call a c i) \<and> uses_token reg0 (s_workers s ! l))"
proof (cases "snd (s_state s') = snd (s_state s)")
  case diff: False
  with server_step_outside [OF assms(4)] obtain l j a c i where
    l: "l < length (s_workers s)" "s_workers s ! l = W_Running j (To_Call a c i)"
    and e: "s_state s' = snd (exec_step skf (job_request j) (To_Call a c i, s_state s))" by blast
  have h: "holds i (s_workers s ! l)" by (simp add: l(2) holds_def)
  obtain reg w where st: "s_state s = (reg, w)" by fastforce
  have idle: "map idle_device reg = map idle_device reg0" using server_registry [OF assms(1-3)] st by simp
  have i: "i < length reg0" using holders_within_limit [OF assms(1-3) nth_mem [OF l(1)] h] by simp
  have "snd (s_state s') = snd (call_step skf (job_request j) a c i (reg ! i) w)"
    using e st by (simp split: prod.split)
  with diff st call_outside have "backend_profile (reg ! i) = ''gm3000-skf''" by fastforce
  then have "uses_token reg0 (s_workers s ! l)"
    using i h idle_fields(3) [OF idle_nth(2) [OF idle]] idle_nth(1) [OF idle] by (auto simp: uses_token_def)
  with l show ?thesis by blast
qed simp

text \<open>
  Property C28. A gateway with one SKF token that serves one request at a time, as in the
  shipped table, has nothing open in the library between two requests. In every state its
  server can reach, whatever requests were sent, however their sequences mix devices and
  wherever they failed: the calls made so far kept the order of the session and every handle
  has been closed; at most one worker holds the token; and only a step that is the adapter
  call of that worker uses the library, so that no other session can begin before this one
  has ended and it is no restriction that the session is one step here. With several tokens,
  or several requests at a time on one, sessions can overlap, and this property says nothing.
\<close>

theorem server_leaves_no_session_open:
  assumes "conforms mon L" and "mon w0 = Some all_closed"
    and "wf_registry reg0" and "\<forall>d \<in> set reg0. inflight d = 0" and "lone_token reg0"
    and "server_reachable (skf_driver_ops L) settings n (reg0, w0) s"
  shows "mon (snd (s_state s)) = Some all_closed
    \<and> (\<forall>k < length (s_workers s). \<forall>l < length (s_workers s).
         uses_token reg0 (s_workers s ! k) \<and> uses_token reg0 (s_workers s ! l) \<longrightarrow> l = k)
    \<and> (\<forall>s'. server_step (skf_driver_ops L) settings s s' \<longrightarrow> snd (s_state s') = snd (s_state s)
         \<or> (\<exists>l j a c i. l < length (s_workers s) \<and> s_workers s ! l = W_Running j (To_Call a c i)
              \<and> uses_token reg0 (s_workers s ! l)))"
  using outside_invariant.server_keeps [OF skf_outside_invariant [OF assms(1)] assms(6)] assms(2)
    one_token_user [OF assms(3-6)] token_call_outside [OF assms(3,4,6)] by simp

lemma conforms_recording: "conforms snd (monitored recording_skf)"
  by (rule conforms_monitored) (simp_all add: stores_handles_def exports_def recording_skf_def SAR_OK_def list_all_iff)

lemma token_session:
  assumes "req_key_ref req = []" and "req_aux_payload req = []"
  shows "list_ex (\<lambda>c. operation_name c = ''SKF_ECCSignData'')
    (fst (snd (call_step (skf_driver_ops (monitored recording_skf)) req token_args After_single 0
       (bump [gm3000_1] 0 ! 0) ([], Some all_closed))))"
proof -
  let ?d = "bump [gm3000_1] 0 ! 0"
  have "case translate_backend_call DOMAIN_ASYM ACTION_SIGN ''sm2'' (Some ''abc'') (Some []) (Some []) ?d 256 of
      Inl e \<Rightarrow> False
    | Inr t \<Rightarrow> list_ex (\<lambda>c. operation_name c = ''SKF_ECCSignData'') (fst (snd (snd (driver_dispatch
        (ops_for (skf_driver_ops (monitored recording_skf)) ?d) DOMAIN_ASYM ?d t
        (zero_response \<lparr> resp_request_id := ''7'' \<rparr>) 256 ([], Some all_closed)))))"
    by code_simp
  then show ?thesis
    using assms by (auto simp: call_step_def token_args_def split: sum.splits prod.split)
qed

theorem server_leaves_no_session_open_witness:
  "\<exists>s. server_reachable (skf_driver_ops (monitored recording_skf)) None 1 ([gm3000_1], ([], Some all_closed)) s
    \<and> list_ex (\<lambda>c. operation_name c = ''SKF_ECCSignData'') (fst (snd (s_state s)))
    \<and> snd (snd (s_state s)) = Some all_closed"
proof -
  let ?ops = "skf_driver_ops (monitored recording_skf)" and ?w = "([] :: skf_call list, Some all_closed)"
  obtain evs req where req: "accept_line evs = Inr req" "req_key_ref req = []" "req_aux_payload req = []"
    "begin_execution None req = To_Acquire token_args After_single"
    "exec_step ?ops req (To_Acquire token_args After_single, ([gm3000_1], ?w))
       = (To_Call token_args After_single 0, (bump [gm3000_1] 0, ?w))"
    by (rule token_request [where 'w = "skf_call list \<times> skf_monitor option"]) blast
  obtain pc w' where c: "call_step ?ops req token_args After_single 0 (bump [gm3000_1] 0 ! 0) ?w = (pc, w')" by (metis surj_pair)
  then have "(exec_step ?ops req ^^ 2) (begin_execution None req, ([gm3000_1], ?w)) = (pc, (bump [gm3000_1] 0, w'))"
    using req(4,5) by (simp add: numeral_2_eq_2)
  from one_job_advances [OF req(1) this, of 7] obtain s where
    r: "server_reachable ?ops None 1 ([gm3000_1], ?w) s" "s_state s = (bump [gm3000_1] 0, w')" by fastforce
  have "lone_token [gm3000_1]" by (simp add: lone_token_def gm3000_1_def)
  from server_leaves_no_session_open [OF conforms_recording _ gm3000_wf this r(1)]
  have "snd (snd (s_state s)) = Some all_closed" by simp
  with r token_session [OF req(2,3)] c show ?thesis by (intro exI [of _ s]) simp
qed

end
